theory Spec2Isabelle
  imports Main
begin

chapter \<open>The Fintruth ingestion and extraction pipeline\<close>

text \<open>
  A shallow embedding of the TypeScript sources of the pipeline: the transcript segmenter
  (\<^verbatim>\<open>lib/transcript/segmentTranscript.ts\<close>), the prediction extractor
  (\<^verbatim>\<open>lib/llm/extractPredictions.ts\<close>), the transcript fetcher
  (\<^verbatim>\<open>lib/transcript/fetchTranscript.ts\<close>) and the orchestrator
  (\<^verbatim>\<open>lib/pipeline/runIngestion.ts\<close>).

  Conventions of the embedding.
  \<^item> A JavaScript string is a list of code units. The answer of the language model, the JSON
    values parsed from it and the predictions made of them are strings of 16-bit code units in
    full (\<open>jsString\<close>). The texts of transcript chunks, the messages of errors and the
    identifiers are covered for the code units below 256 (Latin-1), which is what \<^typ>\<open>char\<close>
    holds; on that alphabet \<^verbatim>\<open>trim\<close>, \<^verbatim>\<open>\s\<close> and \<^verbatim>\<open>toLowerCase\<close> are modelled exactly.
  \<^item> A thrown value is a value of type \<open>thrown\<close>; a function that may throw returns
    \<open>thrown + 'a\<close>, with \<open>Inl\<close> for the throw.
  \<^item> Mutable state (module variables, the database, the clock) is passed explicitly and
    returned updated.
  \<^item> Logging through \<^verbatim>\<open>console\<close> has no effect on any result and is left out.
\<close>

section \<open>JavaScript strings\<close>

text \<open>
  \<^verbatim>\<open>String.prototype.trim\<close> and the regular expression class \<^verbatim>\<open>\s\<close> agree on what white
  space is. Below 256 these are TAB, LF, VT, FF, CR, SPACE and NBSP.
\<close>

definition isWhiteSpace :: "char \<Rightarrow> bool" where
  "isWhiteSpace c =
     (c = CHR 0x09 \<or> c = CHR 0x0A \<or> c = CHR 0x0B \<or> c = CHR 0x0C \<or> c = CHR 0x0D \<or>
      c = CHR 0x20 \<or> c = CHR 0xA0)"

definition trim :: "string \<Rightarrow> string" where
  "trim s = rev (dropWhile isWhiteSpace (rev (dropWhile isWhiteSpace s)))"

text \<open>
  \<^verbatim>\<open>s.split(/\s+/)\<close>: the pieces between maximal runs of white space, the empty pieces at
  either end included (\<^verbatim>\<open>" a".split(/\s+/)\<close> is \<^verbatim>\<open>["", "a"]\<close> and \<^verbatim>\<open>"".split(/\s+/)\<close> is
  \<^verbatim>\<open>[""]\<close>). \<open>inSeparator\<close> says that the previous code unit was white space; \<open>piece\<close> is the
  current piece, reversed.
\<close>

fun splitGo :: "bool \<Rightarrow> string \<Rightarrow> string \<Rightarrow> string list" where
  "splitGo inSeparator piece [] = [rev piece]"
| "splitGo inSeparator piece (c # cs) =
     (if isWhiteSpace c
      then (if inSeparator then splitGo True piece cs else rev piece # splitGo True [] cs)
      else splitGo False (c # piece) cs)"

definition splitWhitespace :: "string \<Rightarrow> string list" where
  "splitWhitespace s = splitGo False [] s"

text \<open>\<^verbatim>\<open>xs.join(sep)\<close> on an array of strings, of any kind of string.\<close>

fun joinWith :: "'a list \<Rightarrow> 'a list list \<Rightarrow> 'a list" where
  "joinWith sep [] = []"
| "joinWith sep [x] = x"
| "joinWith sep (x # y # ys) = x @ sep @ joinWith sep (y # ys)"

text \<open>\<^verbatim>\<open>xs.slice(start, stop)\<close> for indices that are natural numbers.\<close>

definition slice :: "'a list \<Rightarrow> nat \<Rightarrow> nat \<Rightarrow> 'a list" where
  "slice xs start stop = take (stop - start) (drop start xs)"

text \<open>The decimal digits of a natural number, as a template literal prints an index.\<close>

function showNat :: "nat \<Rightarrow> string" where
  "showNat n = (if n < 10 then [char_of (48 + n)] else showNat (n div 10) @ [char_of (48 + n mod 10)])"
  by pat_completeness auto
termination
  by (relation "measure id") auto

text \<open>
  The number of words started in a string: a word starts at a code unit that is not white
  space and does not follow one that is not. It is the counting the proofs use for
  \<open>countWords\<close> below; \<open>inWord\<close> says that the previous code unit belonged to a word.
\<close>

fun wordStarts :: "bool \<Rightarrow> string \<Rightarrow> nat" where
  "wordStarts inWord [] = 0"
| "wordStarts inWord (c # cs) =
     (if isWhiteSpace c then wordStarts False cs
      else (if inWord then 0 else 1) + wordStarts True cs)"

section \<open>The segmenter (\<^verbatim>\<open>segmentTranscript.ts\<close>)\<close>

text \<open>
  A \<^verbatim>\<open>TranscriptChunk\<close> row as the segmenter reads it (\<^verbatim>\<open>createdAt\<close> is never read). The
  segmenter only copies start times, so their type is a parameter.
\<close>

record 't TranscriptChunk =
  chunk_id :: string
  chunk_videoId :: string
  chunk_text :: string
  chunk_startTime :: 't

record 't SegmentedBlock =
  block_text :: string
  block_startTime :: 't
  block_chunkIds :: "string list"

definition MIN_WORDS_PER_BLOCK :: nat where
  "MIN_WORDS_PER_BLOCK = 30"

definition MAX_WORDS_PER_BLOCK :: nat where
  "MAX_WORDS_PER_BLOCK = 120"

definition TARGET_CHUNKS_PER_BLOCK :: nat where
  "TARGET_CHUNKS_PER_BLOCK = 5"

text \<open>\<^verbatim>\<open>text.trim().split(/\s+/).filter(Boolean).length\<close>\<close>

definition countWords :: "string \<Rightarrow> nat" where
  "countWords s = length (filter (\<lambda>w. w \<noteq> []) (splitWhitespace (trim s)))"

text \<open>\<^verbatim>\<open>/[.!?]$/.test(text.trim())\<close>: without the \<^verbatim>\<open>m\<close> flag, \<^verbatim>\<open>$\<close> is the end of the input.\<close>

definition endsWithSentence :: "string \<Rightarrow> bool" where
  "endsWithSentence s =
     (let trimmed = trim s
      in trimmed \<noteq> [] \<and>
         (last trimmed = CHR ''.'' \<or> last trimmed = CHR ''!'' \<or> last trimmed = CHR ''?''))"

text \<open>The variables of the loop of \<^verbatim>\<open>segmentTranscript\<close>.\<close>

record 't segmenter =
  blocks :: "'t SegmentedBlock list"
  currentText :: string
  currentStartTime :: 't
  currentChunkIds :: "string list"

text \<open>
  One iteration of \<^verbatim>\<open>for (let i = 0; i < chunks.length; i++)\<close>, for \<open>i < length chunks\<close>.
  \<^verbatim>\<open>continue\<close> leaves the variables as they are.
\<close>

definition segmentStep :: "'t TranscriptChunk list \<Rightarrow> 't segmenter \<Rightarrow> nat \<Rightarrow> 't segmenter" where
  "segmentStep chunks st i =
     (let chunk = chunks ! i;
          chunkText = trim (chunk_text chunk)
      in if chunkText = [] then st
         else
           let text' = (if currentText st \<noteq> [] then currentText st @ '' '' @ chunkText
                        else chunkText);
               ids' = currentChunkIds st @ [chunk_id chunk];
               wordCount = countWords text';
               isLastChunk = (i = length chunks - 1);
               hasEnoughWords = (MIN_WORDS_PER_BLOCK \<le> wordCount);
               isSentenceEnd = endsWithSentence text';
               isTooLong = (MAX_WORDS_PER_BLOCK \<le> wordCount);
               hasEnoughChunks = (TARGET_CHUNKS_PER_BLOCK \<le> length ids');
               shouldFinalize =
                 (isLastChunk \<or> (hasEnoughWords \<and> (isSentenceEnd \<or> isTooLong \<or> hasEnoughChunks)))
           in if shouldFinalize \<and> trim text' \<noteq> []
              then \<lparr> blocks = blocks st @
                        [\<lparr> block_text = trim text',
                           block_startTime = currentStartTime st,
                           block_chunkIds = ids' \<rparr>],
                      currentText = [],
                      currentStartTime =
                        (if i < length chunks - 1 then chunk_startTime (chunks ! (i + 1))
                         else currentStartTime st),
                      currentChunkIds = [] \<rparr>
              else st \<lparr> currentText := text', currentChunkIds := ids' \<rparr>)"

definition segmentInit :: "'t TranscriptChunk list \<Rightarrow> 't segmenter" where
  "segmentInit chunks =
     \<lparr> blocks = [], currentText = [], currentStartTime = chunk_startTime (chunks ! 0),
       currentChunkIds = [] \<rparr>"

text \<open>The variables after the first \<open>n\<close> iterations (on entry to iteration \<open>n\<close>).\<close>

definition segmentLoop :: "'t TranscriptChunk list \<Rightarrow> nat \<Rightarrow> 't segmenter" where
  "segmentLoop chunks n = foldl (segmentStep chunks) (segmentInit chunks) [0..<n]"

definition segmentTranscript :: "'t TranscriptChunk list \<Rightarrow> 't SegmentedBlock list" where
  "segmentTranscript chunks =
     (if length chunks = 0 then []
      else
        let st = segmentLoop chunks (length chunks)
        in if trim (currentText st) \<noteq> []
           then blocks st @
                  [\<lparr> block_text = trim (currentText st),
                     block_startTime = currentStartTime st,
                     block_chunkIds = currentChunkIds st \<rparr>]
           else blocks st)"

subsection \<open>The rule for closing a block, in the words of the specification\<close>

text \<open>
  The text of the running block once the trimmed text of \<open>chunk\<close> has been appended to it
  (space-joined).
\<close>

definition accumulated :: "'t segmenter \<Rightarrow> 't TranscriptChunk \<Rightarrow> string" where
  "accumulated st chunk =
     (if currentText st = [] then trim (chunk_text chunk)
      else currentText st @ '' '' @ trim (chunk_text chunk))"

text \<open>
  Chunk \<open>i\<close> of \<open>n\<close> closes the block whose accumulated text is \<open>acc\<close> and which holds \<open>k\<close>
  chunks: it is the last chunk, or there are at least 30 words and the text ends a sentence,
  or there are at least 120 words, or there are at least 5 chunks.
\<close>

definition closesBlock :: "nat \<Rightarrow> nat \<Rightarrow> string \<Rightarrow> nat \<Rightarrow> bool" where
  "closesBlock i n acc k =
     (i + 1 = n \<or>
      (30 \<le> countWords acc \<and>
       ((trim acc \<noteq> [] \<and> last (trim acc) \<in> {CHR ''.'', CHR ''!'', CHR ''?''}) \<or>
        120 \<le> countWords acc \<or> 5 \<le> k)))"

text \<open>The block emitted after the loop for text that is still open (\<^verbatim>\<open>// Handle any remaining text\<close>).\<close>

definition residual :: "'t segmenter \<Rightarrow> 't SegmentedBlock list" where
  "residual st =
     (if trim (currentText st) \<noteq> []
      then [\<lparr> block_text = trim (currentText st), block_startTime = currentStartTime st,
               block_chunkIds = currentChunkIds st \<rparr>]
      else [])"

subsection \<open>Fixed-count segmentation\<close>

text \<open>
  The body of \<^verbatim>\<open>for (let i = 0; i < chunks.length; i += chunksPerBlock)\<close>. \<^verbatim>\<open>blockChunks[0]\<close> is
  read only when the joined text is not blank, and then the slice is not empty.
\<close>

definition chunkCountStep ::
  "'t TranscriptChunk list \<Rightarrow> nat \<Rightarrow> nat \<Rightarrow> 't SegmentedBlock list \<Rightarrow> 't SegmentedBlock list" where
  "chunkCountStep chunks chunksPerBlock i out =
     (let blockChunks = slice chunks i (i + chunksPerBlock);
          joined = joinWith '' '' (map (\<lambda>c. trim (chunk_text c)) blockChunks);
          chunkIds = map chunk_id blockChunks
      in if trim joined \<noteq> []
         then out @ [\<lparr> block_text = trim joined,
                         block_startTime = chunk_startTime (blockChunks ! 0),
                         block_chunkIds = chunkIds \<rparr>]
         else out)"

text \<open>
  The loop itself. With \<open>chunksPerBlock = 0\<close> the index never advances and the source does
  not return; not returning is the value \<open>None\<close>.
\<close>

partial_function (option) chunkCountLoop ::
  "'t TranscriptChunk list \<Rightarrow> nat \<Rightarrow> nat \<Rightarrow> 't SegmentedBlock list \<Rightarrow> 't SegmentedBlock list option" where
  "chunkCountLoop chunks chunksPerBlock i out =
     (if i < length chunks
      then chunkCountLoop chunks chunksPerBlock (i + chunksPerBlock)
             (chunkCountStep chunks chunksPerBlock i out)
      else Some out)"

declare chunkCountLoop.simps [code]

definition segmentByChunkCount ::
  "'t TranscriptChunk list \<Rightarrow> nat \<Rightarrow> 't SegmentedBlock list option" where
  "segmentByChunkCount chunks chunksPerBlock =
     (if length chunks = 0 then Some [] else chunkCountLoop chunks chunksPerBlock 0 [])"

text \<open>
  The same in the words of the specification: \<open>blockCount n k\<close> is \<open>\<lceil>n / k\<rceil>\<close>, the groups are
  the consecutive runs of \<open>k\<close> chunks, and a group yields a block when its joined text is not
  blank.
\<close>

definition blockCount :: "nat \<Rightarrow> nat \<Rightarrow> nat" where
  "blockCount n k = (n + k - 1) div k"

definition chunkGroups :: "'a list \<Rightarrow> nat \<Rightarrow> 'a list list" where
  "chunkGroups chunks k =
     map (\<lambda>j. take k (drop (j * k) chunks)) [0..<blockCount (length chunks) k]"

definition groupText :: "'t TranscriptChunk list \<Rightarrow> string" where
  "groupText g = joinWith '' '' (map (\<lambda>c. trim (chunk_text c)) g)"

definition groupBlock :: "'t TranscriptChunk list \<Rightarrow> 't SegmentedBlock" where
  "groupBlock g =
     \<lparr> block_text = trim (groupText g), block_startTime = chunk_startTime (g ! 0),
       block_chunkIds = map chunk_id g \<rparr>"

definition nonBlankGroup :: "'t TranscriptChunk list \<Rightarrow> bool" where
  "nonBlankGroup g = (trim (groupText g) \<noteq> [])"

subsection \<open>Inputs used as examples\<close>

text \<open>
  \<^verbatim>\<open>createMockChunks\<close> of \<^verbatim>\<open>__tests__/segmentTranscript.test.ts\<close> with its default start times:
  chunk \<open>i\<close> has id \<^verbatim>\<open>chunk-i\<close> and starts at \<open>5 i\<close> seconds.
\<close>

definition createMockChunks :: "string list \<Rightarrow> int TranscriptChunk list" where
  "createMockChunks texts =
     map (\<lambda>(i, t). \<lparr> chunk_id = ''chunk-'' @ showNat i, chunk_videoId = ''test-video'',
                      chunk_text = t, chunk_startTime = int i * 5 \<rparr>)
       (zip [0..<length texts] texts)"

text \<open>\<open>n\<close> one-letter words, separated by single spaces.\<close>

definition wordsText :: "nat \<Rightarrow> string" where
  "wordsText n = trim (concat (replicate n ''w ''))"

section \<open>JavaScript values, exceptions and \<^verbatim>\<open>JSON.parse\<close>\<close>

text \<open>
  A \<^verbatim>\<open>throw\<close> is a value: every fallible function returns \<open>thrown + 'a\<close> with \<open>Inl\<close> the
  thrown value.  The code only ever asks two things of a caught value, whether it is an
  \<^verbatim>\<open>Error\<close> and, if so, its \<^verbatim>\<open>message\<close>; \<open>errorMessage\<close> is the recurring
  \<^verbatim>\<open>err instanceof Error ? err.message : 'Unknown error'\<close>.
\<close>

datatype thrown = JsError string | NotAnError

definition errorMessage :: "thrown \<Rightarrow> string" where
  "errorMessage err = (case err of JsError message \<Rightarrow> message | NotAnError \<Rightarrow> ''Unknown error'')"

text \<open>
  Messages of errors are strings of Latin-1 code units: \<^verbatim>\<open>toLowerCase\<close> on them (A-Z and
  the accented capitals 0xC0-0xDE, the multiplication sign 0xD7 apart).  \<^verbatim>\<open>startsWith\<close> and
  \<^verbatim>\<open>includes\<close> are the same on any kind of string.
\<close>

definition toLowerChar :: "char \<Rightarrow> char" where
  "toLowerChar c =
     (let n = (of_char c :: nat)
      in if (65 \<le> n \<and> n \<le> 90) \<or> (192 \<le> n \<and> n \<le> 222 \<and> n \<noteq> 215) then char_of (n + 32) else c)"

definition toLowerCase :: "string \<Rightarrow> string" where
  "toLowerCase s = map toLowerChar s"

definition startsWith :: "'a list \<Rightarrow> 'a list \<Rightarrow> bool" where
  "startsWith s p = (take (length p) s = p)"

fun includesStr :: "'a list \<Rightarrow> 'a list \<Rightarrow> bool" where
  "includesStr [] sub = (sub = [])"
| "includesStr (c # cs) sub = (startsWith (c # cs) sub \<or> includesStr cs sub)"

subsection \<open>Strings of UTF-16 code units\<close>

text \<open>
  The answer of the language model and every string parsed out of it is a JavaScript string in
  full: a sequence of 16-bit code units, here integers (the functions below are defined on every
  integer, whether a code unit or not).  \<open>utf16\<close> is a string literal of the source, whose
  characters are all below 256, as such a sequence.
\<close>

type_synonym codeUnit = int

type_synonym jsString = "codeUnit list"

definition charCode :: "char \<Rightarrow> codeUnit" where
  "charCode c = of_char c"

definition utf16 :: "string \<Rightarrow> jsString" where
  "utf16 s = map charCode s"

text \<open>
  \<^verbatim>\<open>String.prototype.trim\<close> removes white space and line terminators from both ends: TAB, LF,
  VT, FF, CR, SPACE, NBSP, U+1680, U+2000 to U+200A, U+2028, U+2029, U+202F, U+205F, U+3000 and
  U+FEFF.
\<close>

definition isWhiteSpaceUnit :: "codeUnit \<Rightarrow> bool" where
  "isWhiteSpaceUnit u =
     (u = 0x09 \<or> u = 0x0A \<or> u = 0x0B \<or> u = 0x0C \<or> u = 0x0D \<or> u = 0x20 \<or> u = 0xA0 \<or>
      u = 0x1680 \<or> (0x2000 \<le> u \<and> u \<le> 0x200A) \<or> u = 0x2028 \<or> u = 0x2029 \<or> u = 0x202F \<or>
      u = 0x205F \<or> u = 0x3000 \<or> u = 0xFEFF)"

definition trimJs :: "jsString \<Rightarrow> jsString" where
  "trimJs s = rev (dropWhile isWhiteSpaceUnit (rev (dropWhile isWhiteSpaceUnit s)))"

text \<open>
  Lower case of a code unit below 256.  (\<^verbatim>\<open>toLowerCase\<close> on a string with a code unit of 256
  or more is left to the engine, below.)
\<close>

definition lowerUnit :: "codeUnit \<Rightarrow> codeUnit" where
  "lowerUnit u =
     (if (65 \<le> u \<and> u \<le> 90) \<or> (192 \<le> u \<and> u \<le> 222 \<and> u \<noteq> 215) then u + 32 else u)"

subsection \<open>JSON text to JSON value\<close>

text \<open>
  The value \<^verbatim>\<open>JSON.parse\<close> returns.  A number keeps its lexeme: which double it denotes,
  and how that double prints, is the engine's business (record \<open>engine\<close> below); the code under
  study only asks whether a value is a number, whether it is zero, and for its string form.  An
  object keeps its members in source order, duplicates included; the last one wins on lookup.
\<close>

datatype json =
  JNull | JBool bool | JNum jsString | JStr jsString | JArr "json list"
| JObj "(jsString \<times> json) list"

datatype token =
  LBracket | RBracket | LBrace | RBrace | Comma | Colon
| TString jsString | TNumber jsString | TTrue | TFalse | TNull

definition isDigit :: "codeUnit \<Rightarrow> bool" where
  "isDigit c = (48 \<le> c \<and> c \<le> 57)"

definition isLetter :: "codeUnit \<Rightarrow> bool" where
  "isLetter c = ((97 \<le> c \<and> c \<le> 122) \<or> (65 \<le> c \<and> c \<le> 90))"

definition isJsonSpace :: "codeUnit \<Rightarrow> bool" where
  "isJsonSpace c = (c = 0x20 \<or> c = 0x09 \<or> c = 0x0A \<or> c = 0x0D)"

definition hexValue :: "codeUnit \<Rightarrow> int option" where
  "hexValue n =
     (if 48 \<le> n \<and> n \<le> 57 then Some (n - 48)
      else if 97 \<le> n \<and> n \<le> 102 then Some (n - 87)
      else if 65 \<le> n \<and> n \<le> 70 then Some (n - 55)
      else None)"

definition hex4 :: "jsString \<Rightarrow> codeUnit option" where
  "hex4 s =
     (case map hexValue s of
        [Some a, Some b, Some c, Some d] \<Rightarrow> Some (((a * 16 + b) * 16 + c) * 16 + d)
      | _ \<Rightarrow> None)"

definition simpleEscape :: "codeUnit \<Rightarrow> codeUnit option" where
  "simpleEscape e =
     (if e = 0x22 then Some 0x22
      else if e = 0x5C then Some 0x5C
      else if e = charCode (CHR ''/'') then Some (charCode (CHR ''/''))
      else if e = charCode (CHR ''b'') then Some 0x08
      else if e = charCode (CHR ''f'') then Some 0x0C
      else if e = charCode (CHR ''n'') then Some 0x0A
      else if e = charCode (CHR ''r'') then Some 0x0D
      else if e = charCode (CHR ''t'') then Some 0x09
      else None)"

fun scanString :: "jsString \<Rightarrow> jsString \<Rightarrow> (jsString \<times> jsString) option" where
  "scanString acc [] = None"
| "scanString acc (c # cs) =
     (if c = 0x22 then Some (rev acc, cs)
      else if c = 0x5C then
        (case cs of
           [] \<Rightarrow> None
         | e # rest \<Rightarrow>
             if e = charCode (CHR ''u'') then
               (case hex4 (take 4 rest) of
                  None \<Rightarrow> None
                | Some n \<Rightarrow> scanString (n # acc) (drop 4 rest))
             else
               (case simpleEscape e of
                  None \<Rightarrow> None
                | Some d \<Rightarrow> scanString (d # acc) rest))
      else if c < 32 then None
      else scanString (c # acc) cs)"

definition isNumberChar :: "codeUnit \<Rightarrow> bool" where
  "isNumberChar c =
     (isDigit c \<or> c = charCode (CHR ''-'') \<or> c = charCode (CHR ''+'') \<or> c = charCode (CHR ''.'') \<or>
      c = charCode (CHR ''e'') \<or> c = charCode (CHR ''E''))"

definition isJsonNumber :: "jsString \<Rightarrow> bool" where
  "isJsonNumber lexeme =
     (let unsigned = (if startsWith lexeme (utf16 ''-'') then tl lexeme else lexeme);
          whole = takeWhile isDigit unsigned;
          afterWhole = dropWhile isDigit unsigned;
          fraction = takeWhile isDigit (tl afterWhole);
          afterFraction = (if startsWith afterWhole (utf16 ''.'')
                           then dropWhile isDigit (tl afterWhole) else afterWhole);
          exponent = (if startsWith (tl afterFraction) (utf16 ''-'') \<or>
                         startsWith (tl afterFraction) (utf16 ''+'')
                      then tl (tl afterFraction) else tl afterFraction)
      in whole \<noteq> [] \<and> (whole = utf16 ''0'' \<or> \<not> startsWith whole (utf16 ''0'')) \<and>
         (if startsWith afterWhole (utf16 ''.'') then fraction \<noteq> [] else True) \<and>
         (afterFraction = [] \<or>
          ((startsWith afterFraction (utf16 ''e'') \<or> startsWith afterFraction (utf16 ''E'')) \<and>
           exponent \<noteq> [] \<and> list_all isDigit exponent)))"

function tokenize :: "jsString \<Rightarrow> token list option" where
  "tokenize [] = Some []"
| "tokenize (c # cs) =
     (if isJsonSpace c then tokenize cs
      else if c = charCode (CHR ''['') then map_option ((#) LBracket) (tokenize cs)
      else if c = charCode (CHR '']'') then map_option ((#) RBracket) (tokenize cs)
      else if c = charCode (CHR ''{'') then map_option ((#) LBrace) (tokenize cs)
      else if c = charCode (CHR ''}'') then map_option ((#) RBrace) (tokenize cs)
      else if c = charCode (CHR '','') then map_option ((#) Comma) (tokenize cs)
      else if c = charCode (CHR '':'') then map_option ((#) Colon) (tokenize cs)
      else if c = 0x22 then
        (case scanString [] cs of
           None \<Rightarrow> None
         | Some (s, rest) \<Rightarrow> map_option ((#) (TString s)) (tokenize rest))
      else if isDigit c \<or> c = charCode (CHR ''-'') then
        (let lexeme = c # takeWhile isNumberChar cs
         in if isJsonNumber lexeme
            then map_option ((#) (TNumber lexeme)) (tokenize (dropWhile isNumberChar cs))
            else None)
      else if isLetter c then
        (let word = c # takeWhile isLetter cs;
             rest = dropWhile isLetter cs
         in if word = utf16 ''true'' then map_option ((#) TTrue) (tokenize rest)
            else if word = utf16 ''false'' then map_option ((#) TFalse) (tokenize rest)
            else if word = utf16 ''null'' then map_option ((#) TNull) (tokenize rest)
            else None)
      else None)"
  by pat_completeness auto

text \<open>The tokenizer resumes on the text left by \<open>scanString\<close>, which is never longer.\<close>

lemma scanString_length:
  "scanString acc cs = Some (s, rest) \<Longrightarrow> length rest \<le> length cs"
proof (induction acc cs arbitrary: s rest rule: scanString.induct)
  case (1 acc)
  then show ?case by simp
next
  case (2 acc c cs)
  show ?case
  proof (cases "c = 0x22")
    case True
    with 2(4) show ?thesis by simp
  next
    case quote: False
    show ?thesis
    proof (cases "c = 0x5C")
      case False
      with quote 2(3,4) show ?thesis by (auto split: if_splits)
    next
      case True
      show ?thesis
      proof (cases cs)
        case Nil
        with quote True 2(4) show ?thesis by simp
      next
        case (Cons e tail)
        show ?thesis
        proof (cases "e = charCode (CHR ''u'')")
          case u: True
          then obtain n where n: "hex4 (take 4 tail) = Some n"
              "scanString (n # acc) (drop 4 tail) = Some (s, rest)"
            using quote True Cons 2(4) by (auto split: option.splits if_splits)
          from 2(1) [OF quote True Cons u n(1) n(2)]
          show ?thesis using Cons by simp
        next
          case nu: False
          then obtain d where d: "simpleEscape e = Some d" "scanString (d # acc) tail = Some (s, rest)"
            using quote True Cons 2(4) by (auto split: option.splits)
          from 2(2) [OF quote True Cons nu d(1) d(2)]
          show ?thesis using Cons by simp
        qed
      qed
    qed
  qed
qed

lemma scanString_shorter:
  "scanString acc cs = Some x2 \<Longrightarrow> (x, y) = x2 \<Longrightarrow> length y < Suc (length cs)"
  using scanString_length [of acc cs x y] by simp

termination tokenize
  apply (relation "measure length")
  apply (simp_all add: le_imp_less_Suc length_dropWhile_le)
  apply (erule scanString_shorter, assumption)
  done

text \<open>
  The grammar of ECMA-404 as a stack machine over the tokens: \<open>expect\<close> is what may come next,
  \<open>stack\<close> the arrays and objects still open (elements and members in reverse).
\<close>

datatype frame =
  ArrayFrame "json list" | ObjectFrame "(jsString \<times> json) list" "jsString option"

datatype expecting =
  AnyValue | ValueOrClose | KeyOrClose | AnyKey | AColon | CommaOrClose | Finished

record parser =
  expect :: expecting
  stack :: "frame list"
  valueParsed :: "json option"

definition completeValue :: "json \<Rightarrow> frame list \<Rightarrow> parser option" where
  "completeValue v frames =
     (case frames of
        [] \<Rightarrow> Some \<lparr> expect = Finished, stack = [], valueParsed = Some v \<rparr>
      | ArrayFrame elems # below \<Rightarrow>
          Some \<lparr> expect = CommaOrClose, stack = ArrayFrame (v # elems) # below, valueParsed = None \<rparr>
      | ObjectFrame members (Some k) # below \<Rightarrow>
          Some \<lparr> expect = CommaOrClose, stack = ObjectFrame ((k, v) # members) None # below,
                 valueParsed = None \<rparr>
      | ObjectFrame members None # below \<Rightarrow> None)"

definition scalarOf :: "token \<Rightarrow> json option" where
  "scalarOf t =
     (case t of
        TString s \<Rightarrow> Some (JStr s)
      | TNumber lexeme \<Rightarrow> Some (JNum lexeme)
      | TTrue \<Rightarrow> Some (JBool True)
      | TFalse \<Rightarrow> Some (JBool False)
      | TNull \<Rightarrow> Some JNull
      | _ \<Rightarrow> None)"

definition startValue :: "token \<Rightarrow> frame list \<Rightarrow> parser option" where
  "startValue t frames =
     (case t of
        LBracket \<Rightarrow> Some \<lparr> expect = ValueOrClose, stack = ArrayFrame [] # frames, valueParsed = None \<rparr>
      | LBrace \<Rightarrow> Some \<lparr> expect = KeyOrClose, stack = ObjectFrame [] None # frames, valueParsed = None \<rparr>
      | _ \<Rightarrow> (case scalarOf t of None \<Rightarrow> None | Some v \<Rightarrow> completeValue v frames))"

definition closeFrame :: "token \<Rightarrow> frame list \<Rightarrow> parser option" where
  "closeFrame t frames =
     (case (t, frames) of
        (RBracket, ArrayFrame elems # below) \<Rightarrow> completeValue (JArr (rev elems)) below
      | (RBrace, ObjectFrame members None # below) \<Rightarrow> completeValue (JObj (rev members)) below
      | _ \<Rightarrow> None)"

definition parseStep :: "parser \<Rightarrow> token \<Rightarrow> parser option" where
  "parseStep p t =
     (case expect p of
        AnyValue \<Rightarrow> startValue t (stack p)
      | ValueOrClose \<Rightarrow> (if t = RBracket then closeFrame t (stack p) else startValue t (stack p))
      | KeyOrClose \<Rightarrow>
          (case (t, stack p) of
             (TString k, ObjectFrame members None # below) \<Rightarrow>
               Some \<lparr> expect = AColon, stack = ObjectFrame members (Some k) # below, valueParsed = None \<rparr>
           | (RBrace, _) \<Rightarrow> closeFrame t (stack p)
           | _ \<Rightarrow> None)
      | AnyKey \<Rightarrow>
          (case (t, stack p) of
             (TString k, ObjectFrame members None # below) \<Rightarrow>
               Some \<lparr> expect = AColon, stack = ObjectFrame members (Some k) # below, valueParsed = None \<rparr>
           | _ \<Rightarrow> None)
      | AColon \<Rightarrow> (if t = Colon then Some (p \<lparr> expect := AnyValue \<rparr>) else None)
      | CommaOrClose \<Rightarrow>
          (case (t, stack p) of
             (Comma, ArrayFrame elems # below) \<Rightarrow> Some (p \<lparr> expect := AnyValue \<rparr>)
           | (Comma, ObjectFrame members None # below) \<Rightarrow> Some (p \<lparr> expect := AnyKey \<rparr>)
           | (Comma, _) \<Rightarrow> None
           | _ \<Rightarrow> closeFrame t (stack p))
      | Finished \<Rightarrow> None)"

fun parseTokens :: "parser \<Rightarrow> token list \<Rightarrow> json option" where
  "parseTokens p [] = (if expect p = Finished then valueParsed p else None)"
| "parseTokens p (t # ts) = (case parseStep p t of None \<Rightarrow> None | Some p' \<Rightarrow> parseTokens p' ts)"

definition jsonSyntax :: "jsString \<Rightarrow> json option" where
  "jsonSyntax s =
     (case tokenize s of
        None \<Rightarrow> None
      | Some ts \<Rightarrow> parseTokens \<lparr> expect = AnyValue, stack = [], valueParsed = None \<rparr> ts)"

subsection \<open>Coercions\<close>

text \<open>
  What the language leaves to the engine: the double behind a number lexeme (is it zero? how
  does it print?), the Unicode tables behind \<^verbatim>\<open>toLowerCase\<close> on a string that is not all
  below 256, and the wording of the built-in errors.  \<^verbatim>\<open>JSON.parse\<close> throws a
  \<^verbatim>\<open>SyntaxError\<close> on text outside the grammar.
\<close>

record engine =
  numberIsZero :: "jsString \<Rightarrow> bool"
  numberToString :: "jsString \<Rightarrow> jsString"
  toLowerCaseWide :: "jsString \<Rightarrow> jsString"
  syntaxErrorMessage :: "jsString \<Rightarrow> string"
  nullReadMessage :: "string \<Rightarrow> string"
  toPrimitiveMessage :: string

text \<open>
  \<^verbatim>\<open>toLowerCase\<close>: on a string all below 256 every code unit is mapped on its own (no
  special casing applies there); any other string is the engine's.
\<close>

definition toLowerCaseJs :: "engine \<Rightarrow> jsString \<Rightarrow> jsString" where
  "toLowerCaseJs E s =
     (if list_all (\<lambda>u. u < 256) s then map lowerUnit s else toLowerCaseWide E s)"

definition jsonParse :: "engine \<Rightarrow> jsString \<Rightarrow> thrown + json" where
  "jsonParse E s =
     (case jsonSyntax s of None \<Rightarrow> Inl (JsError (syntaxErrorMessage E s)) | Some v \<Rightarrow> Inr v)"

text \<open>
  Truthiness of a property read (\<open>None\<close> is \<^verbatim>\<open>undefined\<close>) and the operator
  \<^verbatim>\<open>v || d\<close>.  \<^verbatim>\<open>NaN\<close> is not a JSON value, so a number is falsy only when zero.
\<close>

definition truthy :: "engine \<Rightarrow> json option \<Rightarrow> bool" where
  "truthy E v =
     (case v of
        None \<Rightarrow> False
      | Some JNull \<Rightarrow> False
      | Some (JBool b) \<Rightarrow> b
      | Some (JNum lexeme) \<Rightarrow> \<not> numberIsZero E lexeme
      | Some (JStr s) \<Rightarrow> s \<noteq> []
      | Some (JArr elems) \<Rightarrow> True
      | Some (JObj members) \<Rightarrow> True)"

definition orElse :: "engine \<Rightarrow> json option \<Rightarrow> json \<Rightarrow> json" where
  "orElse E v d = (case v of None \<Rightarrow> d | Some x \<Rightarrow> if truthy E v then x else d)"

fun sequenceThrown :: "(thrown + 'a) list \<Rightarrow> thrown + 'a list" where
  "sequenceThrown [] = Inr []"
| "sequenceThrown (Inl e # rest) = Inl e"
| "sequenceThrown (Inr a # rest) =
     (case sequenceThrown rest of Inl e \<Rightarrow> Inl e | Inr as \<Rightarrow> Inr (a # as))"

text \<open>
  \<^verbatim>\<open>String(v)\<close>.  An array joins the strings of its elements with a comma, \<^verbatim>\<open>null\<close>
  standing for the empty string.  An object parsed from JSON inherits
  \<^verbatim>\<open>Object.prototype.toString\<close>, which gives \<^verbatim>\<open>[object Object]\<close>, unless it has a
  member of its own named \<^verbatim>\<open>toString\<close>: that member is a JSON value, hence not callable, the
  conversion falls through to \<^verbatim>\<open>valueOf\<close>, which returns no primitive either, and a
  \<^verbatim>\<open>TypeError\<close> is thrown.
\<close>

fun toStringJs :: "engine \<Rightarrow> json \<Rightarrow> thrown + jsString" where
  "toStringJs E JNull = Inr (utf16 ''null'')"
| "toStringJs E (JBool b) = Inr (if b then utf16 ''true'' else utf16 ''false'')"
| "toStringJs E (JNum lexeme) = Inr (numberToString E lexeme)"
| "toStringJs E (JStr s) = Inr s"
| "toStringJs E (JArr elems) =
     (case sequenceThrown (map (\<lambda>x. if x = JNull then Inr [] else toStringJs E x) elems) of
        Inl e \<Rightarrow> Inl e
      | Inr parts \<Rightarrow> Inr (joinWith (utf16 '','') parts))"
| "toStringJs E (JObj members) =
     (if utf16 ''toString'' \<in> set (map fst members) then Inl (JsError (toPrimitiveMessage E))
      else Inr (utf16 ''[object Object]''))"

text \<open>
  The property read \<^verbatim>\<open>p.key\<close> on an element of the parsed array: a \<^verbatim>\<open>TypeError\<close> on
  \<^verbatim>\<open>null\<close>, the member on an object, \<^verbatim>\<open>undefined\<close> on anything else (none of
  the five keys read is a property of a number, string, boolean or array).
\<close>

definition getProperty :: "engine \<Rightarrow> json \<Rightarrow> string \<Rightarrow> thrown + json option" where
  "getProperty E p key =
     (case p of
        JNull \<Rightarrow> Inl (JsError (nullReadMessage E key))
      | JObj members \<Rightarrow> Inr (map_of (rev members) (utf16 key))
      | _ \<Rightarrow> Inr None)"

section \<open>Parsing the model's answer\<close>

text \<open>
  \<^verbatim>\<open>ExtractedPrediction\<close>.  \<open>horizonMonths\<close> is the number as the answer wrote it.
\<close>

record ExtractedPrediction =
  claim :: jsString
  asset :: "jsString option"
  horizonMonths :: "jsString option"
  confidence :: jsString
  predictionType :: jsString

text \<open>
  \<^verbatim>\<open>value.toLowerCase().trim()\<close>, kept when it is one of the admitted words, else the default.
\<close>

definition validateConfidence :: "engine \<Rightarrow> jsString \<Rightarrow> jsString" where
  "validateConfidence E v =
     (let normalized = trimJs (toLowerCaseJs E v)
      in if normalized = utf16 ''low'' \<or> normalized = utf16 ''medium'' \<or> normalized = utf16 ''high''
         then normalized else utf16 ''medium'')"

definition validatePredictionType :: "engine \<Rightarrow> jsString \<Rightarrow> jsString" where
  "validatePredictionType E v =
     (let normalized = trimJs (toLowerCaseJs E v)
      in if normalized = utf16 ''price'' \<or> normalized = utf16 ''direction'' \<or>
            normalized = utf16 ''relative performance'' \<or> normalized = utf16 ''macro''
         then normalized else utf16 ''direction'')"

definition bindThrown :: "thrown + 'a \<Rightarrow> ('a \<Rightarrow> thrown + 'b) \<Rightarrow> thrown + 'b" where
  "bindThrown m f = (case m of Inl e \<Rightarrow> Inl e | Inr a \<Rightarrow> f a)"

text \<open>
  The callback of \<^verbatim>\<open>parsed.map\<close>, property by property in the order the object literal
  evaluates them; the first coercion that throws ends it.
  \<^verbatim>\<open>
    claim: String(p.claim || ''),
    asset: p.asset ? String(p.asset) : null,
    horizonMonths: typeof p.horizonMonths === 'number' ? p.horizonMonths : null,
    confidence: validateConfidence(String(p.confidence || 'medium')),
    predictionType: validatePredictionType(String(p.predictionType || 'direction')),\<close>
\<close>

definition normalizePrediction :: "engine \<Rightarrow> json \<Rightarrow> thrown + ExtractedPrediction" where
  "normalizePrediction E p =
     bindThrown (getProperty E p ''claim'') (\<lambda>pClaim.
     bindThrown (toStringJs E (orElse E pClaim (JStr []))) (\<lambda>claimString.
     bindThrown (getProperty E p ''asset'') (\<lambda>pAsset.
     bindThrown (if truthy E pAsset then map_sum id Some (toStringJs E (the pAsset)) else Inr None)
       (\<lambda>assetString.
     bindThrown (getProperty E p ''horizonMonths'') (\<lambda>pHorizon.
     bindThrown (getProperty E p ''confidence'') (\<lambda>pConfidence.
     bindThrown (toStringJs E (orElse E pConfidence (JStr (utf16 ''medium'')))) (\<lambda>confidenceString.
     bindThrown (getProperty E p ''predictionType'') (\<lambda>pType.
     bindThrown (toStringJs E (orElse E pType (JStr (utf16 ''direction'')))) (\<lambda>typeString.
       Inr \<lparr> claim = claimString,
             asset = assetString,
             horizonMonths = (case pHorizon of Some (JNum lexeme) \<Rightarrow> Some lexeme | _ \<Rightarrow> None),
             confidence = validateConfidence E confidenceString,
             predictionType = validatePredictionType E typeString \<rparr>)))))))))"

text \<open>
  \<^verbatim>\<open>text.match(/\[[\s\S]*\]/)\<close>: the star is greedy and matches any code unit, so the match,
  if there is one, runs from the first opening bracket to the last closing bracket after it.
\<close>

definition jsonMatch :: "jsString \<Rightarrow> jsString option" where
  "jsonMatch s =
     (let fromOpen = dropWhile (\<lambda>c. c \<noteq> charCode (CHR ''['')) s;
          matched = rev (dropWhile (\<lambda>c. c \<noteq> charCode (CHR '']'')) (rev fromOpen))
      in if matched = [] then None else Some matched)"

text \<open>
  \<^verbatim>\<open>parseJsonResponse\<close>.  Everything after the match sits in one \<^verbatim>\<open>try\<close>, whose handler
  rethrows with the prefix \<^verbatim>\<open>Failed to parse JSON: \<close>; that covers the syntax error, the
  \<^verbatim>\<open>Response is not an array\<close> thrown inside it, and whatever a coercion throws.
\<close>

definition parseJsonResponse :: "engine \<Rightarrow> jsString \<Rightarrow> thrown + ExtractedPrediction list" where
  "parseJsonResponse E s =
     (case jsonMatch s of
        None \<Rightarrow>
          if includesStr (toLowerCaseJs E s) (utf16 ''no prediction'') \<or>
             includesStr (toLowerCaseJs E s) (utf16 ''[]'') \<or> trimJs s = utf16 ''[]''
          then Inr []
          else Inl (JsError ''No JSON array found in response'')
      | Some matched \<Rightarrow>
          (case bindThrown (jsonParse E matched) (\<lambda>parsedJson.
                  case parsedJson of
                    JArr elems \<Rightarrow>
                      bindThrown (sequenceThrown (map (normalizePrediction E) elems)) (\<lambda>ps.
                        Inr (filter (\<lambda>p. 0 < length (trimJs (claim p))) ps))
                  | _ \<Rightarrow> Inl (JsError ''Response is not an array'')) of
             Inl err \<Rightarrow> Inl (JsError (''Failed to parse JSON: '' @ errorMessage err))
           | Inr ps \<Rightarrow> Inr ps))"

subsection \<open>The normalization, as the specification words it\<close>

text \<open>
  \<open>stringifiable v\<close>: \<^verbatim>\<open>String(v)\<close> returns.  \<open>coercibleRecord\<close>: each of the four
  properties that the callback passes to \<^verbatim>\<open>String\<close> is either falsy (then it is not passed)
  or stringifiable.  \<open>normalizedRecord\<close> is the record the specification describes: the claim
  coerced to a string, by default empty; the asset a string or null; the horizon kept only when a
  number; confidence and prediction type lower-cased, trimmed and checked against their lists.
\<close>

fun stringifiable :: "json \<Rightarrow> bool" where
  "stringifiable (JArr elems) = list_all stringifiable elems"
| "stringifiable (JObj members) = (utf16 ''toString'' \<notin> set (map fst members))"
| "stringifiable v = True"

definition coerced :: "engine \<Rightarrow> json \<Rightarrow> jsString" where
  "coerced E v = (case toStringJs E v of Inl e \<Rightarrow> [] | Inr s \<Rightarrow> s)"

definition field :: "(jsString \<times> json) list \<Rightarrow> string \<Rightarrow> json option" where
  "field members key = map_of (rev members) (utf16 key)"

definition coercibleField :: "engine \<Rightarrow> (jsString \<times> json) list \<Rightarrow> string \<Rightarrow> bool" where
  "coercibleField E members key =
     (if truthy E (field members key) then stringifiable (the (field members key)) else True)"

definition coercibleRecord :: "engine \<Rightarrow> (jsString \<times> json) list \<Rightarrow> bool" where
  "coercibleRecord E members =
     (coercibleField E members ''claim'' \<and> coercibleField E members ''asset'' \<and>
      coercibleField E members ''confidence'' \<and> coercibleField E members ''predictionType'')"

definition coercedOr :: "engine \<Rightarrow> (jsString \<times> json) list \<Rightarrow> string \<Rightarrow> string \<Rightarrow> jsString" where
  "coercedOr E members key d =
     (if truthy E (field members key) then coerced E (the (field members key)) else utf16 d)"

definition oneOf :: "engine \<Rightarrow> string list \<Rightarrow> string \<Rightarrow> jsString \<Rightarrow> jsString" where
  "oneOf E allowed d v =
     (let normalized = trimJs (toLowerCaseJs E v)
      in if normalized \<in> set (map utf16 allowed) then normalized else utf16 d)"

definition normalizedRecord :: "engine \<Rightarrow> (jsString \<times> json) list \<Rightarrow> ExtractedPrediction" where
  "normalizedRecord E members =
     \<lparr> claim = coercedOr E members ''claim'' [],
       asset = (if truthy E (field members ''asset'')
                then Some (coerced E (the (field members ''asset''))) else None),
       horizonMonths = (case field members ''horizonMonths'' of
                          Some (JNum lexeme) \<Rightarrow> Some lexeme | _ \<Rightarrow> None),
       confidence = oneOf E [''low'', ''medium'', ''high''] ''medium''
                      (coercedOr E members ''confidence'' ''medium''),
       predictionType = oneOf E [''price'', ''direction'', ''relative performance'', ''macro'']
                          ''direction'' (coercedOr E members ''predictionType'' ''direction'') \<rparr>"
section \<open>Prediction extraction\<close>

text \<open>
  The template literal \<^verbatim>\<open>SYSTEM_PROMPT\<close>, line by line, and the interval of the rate limiter.
\<close>

definition SYSTEM_PROMPT :: string where
  "SYSTEM_PROMPT =
     joinWith [CHR 0x0A]
       [''You are a financial analyst.'',
        [],
        ''Extract ONLY explicit or implicit future-oriented financial predictions.'',
        [],
        ''Rules:'',
        ''- Prediction must refer to the future'',
        ''- Ignore general advice or explanations'',
        ''- Ignore past statements'',
        [],
        ''For each prediction return:'',
        ''- claim'',
        ''- asset or market'',
        ''- time horizon in months'',
        ''- confidence level (low / medium / high)'',
        ''- prediction type (price, direction, relative performance, macro)'',
        [],
        ''Return JSON array only.'']"

definition MIN_REQUEST_INTERVAL_MS :: int where
  "MIN_REQUEST_INTERVAL_MS = 1000"

text \<open>
  \<^verbatim>\<open>ExtractionResult\<close>; the optional \<^verbatim>\<open>error\<close> is \<open>None\<close> while unset.
\<close>

record 't ExtractionResult =
  blockIndex :: nat
  startTime :: 't
  chunkIds :: "string list"
  transcriptText :: string
  predictions :: "ExtractedPrediction list"
  error :: "string option"

subsection \<open>The outside world\<close>

text \<open>
  The module has one variable of its own, \<^verbatim>\<open>lastRequestTime\<close>, and talks to a clock, a
  timer, the language model, the database and two transcript sources.  The state \<open>world\<close> holds
  the variable, the rows of the three tables the code touches, a counter per collaborator and the
  trace of observable events; the \<open>environment\<close> holds what the collaborators answer, as
  functions of the call's number and argument, so that every behaviour of the collaborators is some
  environment.  \<open>'t\<close> is the type of a timestamp.

  \<^item> \<open>generateContent\<close>: the outcome of \<^verbatim>\<open>model.generateContent(prompt)\<close> followed by
    \<^verbatim>\<open>response.response.text()\<close>, either of which may throw.  Building the client
    (\<^verbatim>\<open>new GoogleGenerativeAI\<close>, \<^verbatim>\<open>getGenerativeModel\<close>) only stores the key and the
    model's name and is taken to return.
  \<^item> \<open>databaseFailure\<close>: whether the \<open>k\<close>-th database call fails on its own account
    (connection, constraint), and with what.
  \<^item> \<open>dateNow\<close>: the value of the \<open>k\<close>-th \<^verbatim>\<open>Date.now()\<close>.
\<close>

datatype model_outcome = ModelThrows thrown | ModelText jsString

datatype sleep_site = RateLimit | Backoff

datatype event = Sleep sleep_site int | GenerateContent string | CaptionsApi string | TranscriptLibrary string

record video =
  transcriptFetched :: bool
  predictionsExtracted :: bool

record 't Prediction =
  prediction_videoId :: string
  prediction_transcriptChunkId :: string
  prediction_timestamp :: 't
  prediction_transcriptText :: string
  predictedClaim :: jsString
  prediction_asset :: "jsString option"
  prediction_horizonMonths :: "jsString option"
  prediction_confidence :: jsString
  prediction_predictionType :: jsString

record 't TranscriptEntry =
  entry_text :: string
  entry_startTime :: 't

record 't RawEntry =
  raw_text :: string
  raw_offset :: 't

record 't FetchTranscriptResult =
  success :: bool
  fetchedVideoId :: string
  chunksStored :: nat
  fetchError :: "string option"
  transcriptEntries :: "'t TranscriptEntry list option"

record 't world =
  lastRequestTime :: int
  clockReads :: nat
  modelCalls :: nat
  databaseCalls :: nat
  transcriptCalls :: nat
  events :: "event list"
  videos :: "string \<rightharpoonup> video"
  transcriptChunks :: "'t TranscriptChunk list"
  predictionRows :: "'t Prediction list"

record 't environment =
  js :: engine
  geminiApiKey :: "string option"
  dateNow :: "nat \<Rightarrow> int"
  generateContent :: "nat \<Rightarrow> string \<Rightarrow> model_outcome"
  databaseFailure :: "nat \<Rightarrow> thrown option"
  generatedId :: "nat \<Rightarrow> nat \<Rightarrow> string"
  captionsApi :: "nat \<Rightarrow> string \<Rightarrow> 't FetchTranscriptResult option"
  transcriptLibrary :: "nat \<Rightarrow> string \<Rightarrow> thrown + 't RawEntry list option"
  divideBy1000 :: "'t \<Rightarrow> 't"

subsection \<open>One block\<close>

text \<open>
  \<^verbatim>\<open>sleep\<close> resolves after the delay; the trace records the delay and which statement asked
  for it.  \<^verbatim>\<open>enforceRateLimit\<close> reads the clock twice.
\<close>

definition sleep :: "sleep_site \<Rightarrow> int \<Rightarrow> 't world \<Rightarrow> 't world" where
  "sleep site ms w = w \<lparr> events := events w @ [Sleep site ms] \<rparr>"

definition enforceRateLimit :: "'t environment \<Rightarrow> 't world \<Rightarrow> 't world" where
  "enforceRateLimit env w =
     (let now = dateNow env (clockReads w);
          w1 = w \<lparr> clockReads := clockReads w + 1 \<rparr>;
          timeSinceLastRequest = now - lastRequestTime w1;
          w2 = (if timeSinceLastRequest < MIN_REQUEST_INTERVAL_MS
                then sleep RateLimit (MIN_REQUEST_INTERVAL_MS - timeSinceLastRequest) w1
                else w1)
      in w2 \<lparr> lastRequestTime := dateNow env (clockReads w2), clockReads := clockReads w2 + 1 \<rparr>)"

text \<open>
  The body of the \<^verbatim>\<open>try\<close>: rate limit, prompt, model call, parse.  The result is what the
  \<^verbatim>\<open>catch\<close> receives (\<open>Inl\<close>) or the predictions (\<open>Inr\<close>).
\<close>

definition promptFor :: "'t SegmentedBlock \<Rightarrow> string" where
  "promptFor block =
     SYSTEM_PROMPT @ [CHR 0x0A, CHR 0x0A] @ ''Transcript:'' @ [CHR 0x0A, CHR 0x22] @
     block_text block @ [CHR 0x22]"

definition attemptExtraction ::
  "'t environment \<Rightarrow> 't SegmentedBlock \<Rightarrow> 't world \<Rightarrow> (thrown + ExtractedPrediction list) \<times> 't world" where
  "attemptExtraction env block w =
     (let w1 = enforceRateLimit env w;
          prompt = promptFor block;
          outcome = generateContent env (modelCalls w1) prompt;
          w2 = w1 \<lparr> modelCalls := modelCalls w1 + 1, events := events w1 @ [GenerateContent prompt] \<rparr>
      in case outcome of
           ModelThrows e \<Rightarrow> (Inl e, w2)
         | ModelText responseText \<Rightarrow> (parseJsonResponse (js env) responseText, w2))"

text \<open>
  \<^verbatim>\<open>Math.min(1000 * Math.pow(2, attempt), 10000)\<close>, and
  \<^verbatim>\<open>lastError?.message || 'Max retries exceeded'\<close>: the default replaces a missing error and
  also an empty message.
\<close>

definition backoffMs :: "nat \<Rightarrow> int" where
  "backoffMs attempt = min (1000 * 2 ^ attempt) 10000"

definition messageOr :: "string option \<Rightarrow> string \<Rightarrow> string" where
  "messageOr message d = (case message of None \<Rightarrow> d | Some m \<Rightarrow> if m \<noteq> [] then m else d)"

text \<open>
  The \<^verbatim>\<open>for\<close> loop, by recursion on the attempts that remain (\<open>retries - attempt\<close>).
  \<^verbatim>\<open>
    for (let attempt = 0; attempt < retries; attempt++) {
      try { ...; result.predictions = parseJsonResponse(responseText); return result; }
      catch (err) {
        lastError = err instanceof Error ? err : new Error('Unknown error');
        const backoffMs = Math.min(1000 * Math.pow(2, attempt), 10000);
        await sleep(backoffMs);
      }
    }
    result.error = lastError?.message || 'Max retries exceeded';
    return result;\<close>
\<close>

fun extractAttempts ::
  "'t environment \<Rightarrow> 't SegmentedBlock \<Rightarrow> 't ExtractionResult \<Rightarrow> nat \<Rightarrow> string option \<Rightarrow> nat \<Rightarrow>
   't world \<Rightarrow> 't ExtractionResult \<times> 't world" where
  "extractAttempts env block result attempt lastError 0 w =
     (result \<lparr> error := Some (messageOr lastError ''Max retries exceeded'') \<rparr>, w)"
| "extractAttempts env block result attempt lastError (Suc remaining) w =
     (case attemptExtraction env block w of
        (Inr found, w') \<Rightarrow> (result \<lparr> predictions := found \<rparr>, w')
      | (Inl err, w') \<Rightarrow>
          extractAttempts env block result (attempt + 1) (Some (errorMessage err)) remaining
            (sleep Backoff (backoffMs attempt) w'))"

text \<open>
  \<^verbatim>\<open>if (!apiKey)\<close>, \<^verbatim>\<open>if (result.error)\<close>: a string is truthy when set and not empty.
  \<open>retries\<close> is a count.
\<close>

definition isSet :: "string option \<Rightarrow> bool" where
  "isSet v = (case v of None \<Rightarrow> False | Some s \<Rightarrow> s \<noteq> [])"

definition extractPredictionsFromBlock ::
  "'t environment \<Rightarrow> 't SegmentedBlock \<Rightarrow> nat \<Rightarrow> nat \<Rightarrow> 't world \<Rightarrow> 't ExtractionResult \<times> 't world" where
  "extractPredictionsFromBlock env block index retries w =
     (let result = \<lparr> blockIndex = index, startTime = block_startTime block,
                      chunkIds = block_chunkIds block, transcriptText = block_text block,
                      predictions = [], error = None \<rparr>
      in if \<not> isSet (geminiApiKey env)
         then (result \<lparr> error := Some ''GEMINI_API_KEY environment variable is not set'' \<rparr>, w)
         else extractAttempts env block result 0 None retries w)"

text \<open>
  For the statements about retries: \<open>failureOf\<close> is what an attempt throws when the model call
  has the given outcome, whether the call threw or the answer did not parse; \<open>attemptTrace\<close> is
  the trace of \<open>n\<close> failed attempts starting at number \<open>attempt\<close>, the sleeps of the rate limiter
  left out (\<open>attemptEvent\<close>).
\<close>

definition failureOf :: "engine \<Rightarrow> model_outcome \<Rightarrow> thrown option" where
  "failureOf E outcome =
     (case outcome of
        ModelThrows e \<Rightarrow> Some e
      | ModelText responseText \<Rightarrow>
          (case parseJsonResponse E responseText of Inl e \<Rightarrow> Some e | Inr ps \<Rightarrow> None))"

definition attemptEvent :: "event \<Rightarrow> bool" where
  "attemptEvent e = (case e of GenerateContent p \<Rightarrow> True | Sleep Backoff ms \<Rightarrow> True | _ \<Rightarrow> False)"

definition attemptTrace :: "string \<Rightarrow> nat \<Rightarrow> nat \<Rightarrow> event list" where
  "attemptTrace prompt attempt n =
     concat (map (\<lambda>j. [GenerateContent prompt, Sleep Backoff (backoffMs (attempt + j))]) [0..<n])"

subsection \<open>All blocks of a video\<close>

text \<open>
  A database call consults the failure oracle and counts.  \<^verbatim>\<open>prisma.prediction.create\<close>
  inserts a row; the schema makes \<^verbatim>\<open>transcriptChunkId\<close> mandatory, so the client rejects
  the \<^verbatim>\<open>undefined\<close> that \<^verbatim>\<open>result.chunkIds[0]\<close> is when the block has no chunk.
  \<^verbatim>\<open>prisma.video.update\<close> throws when no row has the id.
\<close>

record ExtractionStats =
  totalBlocks :: nat
  blocksWithPredictions :: nat
  totalPredictions :: nat
  errors :: "string list"

definition databaseCall :: "'t environment \<Rightarrow> 't world \<Rightarrow> thrown option \<times> 't world" where
  "databaseCall env w = (databaseFailure env (databaseCalls w), w \<lparr> databaseCalls := databaseCalls w + 1 \<rparr>)"

definition missingArgumentMessage :: string where
  "missingArgumentMessage = ''Argument `transcriptChunkId` is missing.''"

definition recordNotFoundMessage :: string where
  "recordNotFoundMessage = ''Record to update not found.''"

definition createPrediction ::
  "'t environment \<Rightarrow> string \<Rightarrow> 't ExtractionResult \<Rightarrow> ExtractedPrediction \<Rightarrow> 't world \<Rightarrow>
   (thrown + unit) \<times> 't world" where
  "createPrediction env vid result p w =
     (case chunkIds result of
        [] \<Rightarrow> (Inl (JsError missingArgumentMessage), w)
      | firstChunk # others \<Rightarrow>
          (case databaseCall env w of
             (Some e, w') \<Rightarrow> (Inl e, w')
           | (None, w') \<Rightarrow>
               (Inr (),
                w' \<lparr> predictionRows := predictionRows w' @
                       [\<lparr> prediction_videoId = vid,
                          prediction_transcriptChunkId = firstChunk,
                          prediction_timestamp = startTime result,
                          prediction_transcriptText = transcriptText result,
                          predictedClaim = claim p,
                          prediction_asset = asset p,
                          prediction_horizonMonths = horizonMonths p,
                          prediction_confidence = confidence p,
                          prediction_predictionType = predictionType p \<rparr>] \<rparr>)))"

definition updateVideo ::
  "'t environment \<Rightarrow> string \<Rightarrow> (video \<Rightarrow> video) \<Rightarrow> 't world \<Rightarrow> (thrown + unit) \<times> 't world" where
  "updateVideo env vid change w =
     (case databaseCall env w of
        (Some e, w') \<Rightarrow> (Inl e, w')
      | (None, w') \<Rightarrow>
          (case videos w' vid of
             None \<Rightarrow> (Inl (JsError recordNotFoundMessage), w')
           | Some v \<Rightarrow> (Inr (), w' \<lparr> videos := (videos w')(vid \<mapsto> change v) \<rparr>)))"

text \<open>
  The inner loop over \<^verbatim>\<open>result.predictions\<close>, each \<^verbatim>\<open>create\<close> in its own
  \<^verbatim>\<open>try\<close>; one iteration of the outer loop; the outer loop; and the function, which after
  the loop awaits \<^verbatim>\<open>prisma.video.update({ where: { id: videoId }, data: { predictionsExtracted: true } })\<close>
  outside any \<^verbatim>\<open>try\<close>.  Logging is left out.
\<close>

fun storePredictions ::
  "'t environment \<Rightarrow> string \<Rightarrow> 't ExtractionResult \<Rightarrow> ExtractedPrediction list \<Rightarrow> ExtractionStats \<Rightarrow>
   't world \<Rightarrow> ExtractionStats \<times> 't world" where
  "storePredictions env vid result [] stats w = (stats, w)"
| "storePredictions env vid result (p # ps) stats w =
     (case createPrediction env vid result p w of
        (Inr u, w') \<Rightarrow> storePredictions env vid result ps stats w'
      | (Inl err, w') \<Rightarrow>
          storePredictions env vid result ps
            (stats \<lparr> errors := errors stats @ [''Failed to store prediction: '' @ errorMessage err] \<rparr>) w')"

definition processBlock ::
  "'t environment \<Rightarrow> string \<Rightarrow> ExtractionStats \<Rightarrow> nat \<Rightarrow> 't SegmentedBlock \<Rightarrow> 't world \<Rightarrow>
   ExtractionStats \<times> 't world" where
  "processBlock env vid stats i block w =
     (case extractPredictionsFromBlock env block i 3 w of
        (result, w') \<Rightarrow>
          if isSet (error result)
          then (stats \<lparr> errors := errors stats @
                          [''Block '' @ showNat i @ '': '' @ the (error result)] \<rparr>, w')
          else if 0 < length (predictions result)
          then storePredictions env vid result (predictions result)
                 (stats \<lparr> blocksWithPredictions := blocksWithPredictions stats + 1,
                          totalPredictions := totalPredictions stats + length (predictions result) \<rparr>)
                 w'
          else (stats, w'))"

fun processBlocks ::
  "'t environment \<Rightarrow> string \<Rightarrow> ExtractionStats \<Rightarrow> nat \<Rightarrow> 't SegmentedBlock list \<Rightarrow> 't world \<Rightarrow>
   ExtractionStats \<times> 't world" where
  "processBlocks env vid stats i [] w = (stats, w)"
| "processBlocks env vid stats i (block # rest) w =
     (case processBlock env vid stats i block w of
        (stats', w') \<Rightarrow> processBlocks env vid stats' (i + 1) rest w')"

definition extractPredictionsForVideo ::
  "'t environment \<Rightarrow> string \<Rightarrow> 't SegmentedBlock list \<Rightarrow> 't world \<Rightarrow>
   (thrown + ExtractionStats) \<times> 't world" where
  "extractPredictionsForVideo env vid bs w =
     (case processBlocks env vid
             \<lparr> totalBlocks = length bs, blocksWithPredictions = 0, totalPredictions = 0,
               errors = [] \<rparr> 0 bs w of
        (stats, w') \<Rightarrow>
          (case updateVideo env vid (\<lambda>v. v \<lparr> predictionsExtracted := True \<rparr>) w' of
             (Inl e, w'') \<Rightarrow> (Inl e, w'')
           | (Inr u, w'') \<Rightarrow> (Inr stats, w'')))"

definition statsInit :: "nat \<Rightarrow> ExtractionStats" where
  "statsInit n = \<lparr> totalBlocks = n, blocksWithPredictions = 0, totalPredictions = 0, errors = [] \<rparr>"

subsection \<open>The statistics, as the specification words them\<close>

text \<open>
  What the insertions of one block add to the errors: with no chunk id every insertion is
  rejected; otherwise insertion \<open>j\<close> is database call \<open>k + j\<close>, \<open>k\<close> calls having been made
  before, and adds the message of its failure if it fails.
\<close>

definition insertFailures :: "'t environment \<Rightarrow> string list \<Rightarrow> nat \<Rightarrow> nat \<Rightarrow> string list" where
  "insertFailures env ids n k =
     (if ids = []
      then replicate n (''Failed to store prediction: '' @ missingArgumentMessage)
      else concat (map (\<lambda>j. case databaseFailure env (k + j) of
                               None \<Rightarrow> []
                             | Some e \<Rightarrow> [''Failed to store prediction: '' @ errorMessage e])
                     [0..<n]))"

text \<open>
  A result counts as a block with predictions when it has no error and some prediction.  What a
  block adds to the errors: the one message of its failed extraction, or those of its failed
  insertions.  \<open>addBlock\<close> is what it adds to the statistics as a whole.
\<close>

definition hasPredictions :: "'t ExtractionResult \<Rightarrow> bool" where
  "hasPredictions r = (\<not> isSet (error r) \<and> predictions r \<noteq> [])"

definition blockFailures :: "'t environment \<Rightarrow> nat \<Rightarrow> 't ExtractionResult \<Rightarrow> nat \<Rightarrow> string list" where
  "blockFailures env i r k =
     (if isSet (error r) then [''Block '' @ showNat i @ '': '' @ the (error r)]
      else insertFailures env (chunkIds r) (length (predictions r)) k)"

definition addBlock ::
  "'t environment \<Rightarrow> nat \<Rightarrow> 't ExtractionResult \<Rightarrow> nat \<Rightarrow> ExtractionStats \<Rightarrow> ExtractionStats" where
  "addBlock env i r k stats =
     stats \<lparr> blocksWithPredictions := blocksWithPredictions stats + (if hasPredictions r then 1 else 0),
             totalPredictions := totalPredictions stats +
               (if isSet (error r) then 0 else length (predictions r)),
             errors := errors stats @ blockFailures env i r k \<rparr>"

text \<open>
  The state of the world when the loop reaches block \<open>i\<close>, and the result of the extraction
  on that block there.
\<close>

definition blockWorld ::
  "'t environment \<Rightarrow> string \<Rightarrow> 't SegmentedBlock list \<Rightarrow> 't world \<Rightarrow> nat \<Rightarrow> 't world" where
  "blockWorld env vid bs w i = snd (processBlocks env vid (statsInit 0) 0 (take i bs) w)"

definition blockResult ::
  "'t environment \<Rightarrow> string \<Rightarrow> 't SegmentedBlock list \<Rightarrow> 't world \<Rightarrow> nat \<Rightarrow> 't ExtractionResult" where
  "blockResult env vid bs w i =
     fst (extractPredictionsFromBlock env (bs ! i) i 3 (blockWorld env vid bs w i))"

text \<open>
  The statistics a run over \<open>bs\<close> should return: the number of blocks, the number of those
  with predictions, the number of predictions extracted, and the failures of every block in
  order.
\<close>

definition reportedStats ::
  "'t environment \<Rightarrow> string \<Rightarrow> 't SegmentedBlock list \<Rightarrow> 't world \<Rightarrow> ExtractionStats" where
  "reportedStats env vid bs w =
     \<lparr> totalBlocks = length bs,
       blocksWithPredictions =
         length (filter (\<lambda>i. hasPredictions (blockResult env vid bs w i)) [0..<length bs]),
       totalPredictions =
         sum_list (map (\<lambda>i. if isSet (error (blockResult env vid bs w i)) then 0
                              else length (predictions (blockResult env vid bs w i)))
                     [0..<length bs]),
       errors =
         concat (map (\<lambda>i. blockFailures env i (blockResult env vid bs w i)
                              (databaseCalls (blockWorld env vid bs w i)))
                   [0..<length bs]) \<rparr>"

section \<open>Fetching a transcript\<close>

text \<open>
  \<^verbatim>\<open>String.prototype.replace\<close> with a global pattern that is a literal: every occurrence, left
  to right, without overlap.  \<open>unescapeCaption\<close> is the chain of six replacements and the
  \<^verbatim>\<open>trim\<close> of \<^verbatim>\<open>normalizeTranscript\<close>; the division of the offset by 1000 is the
  environment's, the type of timestamps being left open.
\<close>

function replaceAll :: "string \<Rightarrow> string \<Rightarrow> string \<Rightarrow> string" where
  "replaceAll pat rep [] = []"
| "replaceAll pat rep (c # cs) =
     (if pat \<noteq> [] \<and> startsWith (c # cs) pat
      then rep @ replaceAll pat rep (drop (length pat) (c # cs))
      else c # replaceAll pat rep cs)"
  by pat_completeness auto

termination
  by (relation "measure (\<lambda>(pat, rep, s). length s)") auto

definition unescapeCaption :: "string \<Rightarrow> string" where
  "unescapeCaption s =
     trim (replaceAll [CHR 0x0A] '' ''
       (replaceAll ''&#39;'' [CHR 0x27]
         (replaceAll ''&quot;'' [CHR 0x22]
           (replaceAll ''&gt;'' ''>''
             (replaceAll ''&lt;'' ''<''
               (replaceAll ''&amp;'' ''&'' s))))))"

definition normalizeTranscript :: "'t environment \<Rightarrow> 't RawEntry list \<Rightarrow> 't TranscriptEntry list" where
  "normalizeTranscript env rawTranscript =
     map (\<lambda>entry. \<lparr> entry_text = unescapeCaption (raw_text entry),
                     entry_startTime = divideBy1000 env (raw_offset entry) \<rparr>) rawTranscript"

text \<open>
  The collaborators.  \<^verbatim>\<open>prisma.video.findUnique\<close> returns the row or \<^verbatim>\<open>null\<close>.
  \<^verbatim>\<open>fetchTranscriptUsingYtApi\<close> has its whole body in a \<^verbatim>\<open>try\<close> whose handler returns
  \<^verbatim>\<open>null\<close>, so it returns a result or \<^verbatim>\<open>null\<close> and never throws;
  \<^verbatim>\<open>YoutubeTranscript.fetchTranscript\<close> may throw.
\<close>

definition findUniqueVideo ::
  "'t environment \<Rightarrow> string \<Rightarrow> 't world \<Rightarrow> (thrown + video option) \<times> 't world" where
  "findUniqueVideo env vid w =
     (case databaseCall env w of
        (Some e, w') \<Rightarrow> (Inl e, w')
      | (None, w') \<Rightarrow> (Inr (videos w' vid), w'))"

definition fetchTranscriptUsingYtApi ::
  "'t environment \<Rightarrow> string \<Rightarrow> 't world \<Rightarrow> 't FetchTranscriptResult option \<times> 't world" where
  "fetchTranscriptUsingYtApi env vid w =
     (captionsApi env (transcriptCalls w) vid,
      w \<lparr> transcriptCalls := transcriptCalls w + 1, events := events w @ [CaptionsApi vid] \<rparr>)"

definition youtubeTranscriptFetch ::
  "'t environment \<Rightarrow> string \<Rightarrow> 't world \<Rightarrow> (thrown + 't RawEntry list option) \<times> 't world" where
  "youtubeTranscriptFetch env vid w =
     (transcriptLibrary env (transcriptCalls w) vid,
      w \<lparr> transcriptCalls := transcriptCalls w + 1, events := events w @ [TranscriptLibrary vid] \<rparr>)"

text \<open>
  The transaction: delete the video's chunks, insert the new ones, set the flag; all three or none.
  Deleting a chunk deletes the predictions that refer to it (the schema's cascade).
\<close>

definition replaceTranscript ::
  "'t environment \<Rightarrow> string \<Rightarrow> 't TranscriptEntry list \<Rightarrow> 't world \<Rightarrow> (thrown + unit) \<times> 't world" where
  "replaceTranscript env vid chunkData w =
     (case databaseCall env w of
        (Some e, w') \<Rightarrow> (Inl e, w')
      | (None, w') \<Rightarrow>
          (case videos w' vid of
             None \<Rightarrow> (Inl (JsError recordNotFoundMessage), w')
           | Some v \<Rightarrow>
               (let deleted = map chunk_id (filter (\<lambda>c. chunk_videoId c = vid) (transcriptChunks w'));
                    created = map (\<lambda>(j, entry).
                                \<lparr> chunk_id = generatedId env (databaseCalls w) j, chunk_videoId = vid,
                                  chunk_text = entry_text entry,
                                  chunk_startTime = entry_startTime entry \<rparr>)
                              (zip [0..<length chunkData] chunkData)
                in (Inr (),
                    w' \<lparr> transcriptChunks :=
                           filter (\<lambda>c. chunk_videoId c \<noteq> vid) (transcriptChunks w') @ created,
                         predictionRows :=
                           filter (\<lambda>p. prediction_transcriptChunkId p \<notin> set deleted)
                             (predictionRows w'),
                         videos := (videos w')(vid \<mapsto> v \<lparr> transcriptFetched := True \<rparr>) \<rparr>))))"

text \<open>
  The statements from \<^verbatim>\<open>if (!normalizedTranscript || normalizedTranscript.length === 0)\<close> on;
  the \<^verbatim>\<open>else\<close> branch that falls back to the library; and the body of the outer
  \<^verbatim>\<open>try\<close>.  The inner \<^verbatim>\<open>try\<close> only rethrows.  \<open>result\<close> is assigned to only
  straight before a \<^verbatim>\<open>return\<close>, so a handler always sees it as initialised.
\<close>

definition storeTranscript ::
  "'t environment \<Rightarrow> string \<Rightarrow> 't FetchTranscriptResult \<Rightarrow> 't TranscriptEntry list \<Rightarrow> 't world \<Rightarrow>
   (thrown + 't FetchTranscriptResult) \<times> 't world" where
  "storeTranscript env vid result normalizedTranscript w =
     (if length normalizedTranscript = 0
      then (Inr (result \<lparr> fetchError := Some ''Failed to parse transcript entries'' \<rparr>), w)
      else
        (case replaceTranscript env vid normalizedTranscript w of
           (Inl e, w') \<Rightarrow> (Inl e, w')
         | (Inr u, w') \<Rightarrow>
             (Inr (result \<lparr> success := True, chunksStored := length normalizedTranscript \<rparr>), w')))"

definition fallbackTranscript ::
  "'t environment \<Rightarrow> string \<Rightarrow> 't FetchTranscriptResult \<Rightarrow> 't world \<Rightarrow>
   (thrown + 't FetchTranscriptResult) \<times> 't world" where
  "fallbackTranscript env vid result w =
     (case youtubeTranscriptFetch env vid w of
        (Inl e, w') \<Rightarrow> (Inl e, w')
      | (Inr rawTranscript, w') \<Rightarrow>
          (case rawTranscript of
             None \<Rightarrow> (Inr (result \<lparr> fetchError := Some ''No transcript available for this video'' \<rparr>), w')
           | Some raw \<Rightarrow>
               if length raw = 0
               then (Inr (result \<lparr> fetchError := Some ''No transcript available for this video'' \<rparr>), w')
               else storeTranscript env vid result (normalizeTranscript env raw) w'))"

definition fetchTranscriptBody ::
  "'t environment \<Rightarrow> string \<Rightarrow> 't FetchTranscriptResult \<Rightarrow> 't world \<Rightarrow>
   (thrown + 't FetchTranscriptResult) \<times> 't world" where
  "fetchTranscriptBody env vid result w =
     (case findUniqueVideo env vid w of
        (Inl e, w1) \<Rightarrow> (Inl e, w1)
      | (Inr None, w1) \<Rightarrow> (Inr (result \<lparr> fetchError := Some (''Video not found: '' @ vid) \<rparr>), w1)
      | (Inr (Some v), w1) \<Rightarrow>
          if transcriptFetched v
          then (Inr (result \<lparr> success := True, fetchError := Some ''Transcript already fetched'' \<rparr>), w1)
          else
            (case fetchTranscriptUsingYtApi env vid w1 of
               (ytApiResult, w2) \<Rightarrow>
                 (case ytApiResult of
                    None \<Rightarrow> fallbackTranscript env vid result w2
                  | Some r \<Rightarrow>
                      (case transcriptEntries r of
                         None \<Rightarrow> fallbackTranscript env vid result w2
                       | Some entries \<Rightarrow>
                           if success r then storeTranscript env vid result entries w2
                           else fallbackTranscript env vid result w2))))"

text \<open>
  The outer handler: the message is recorded; when it names a permanent condition the video is
  marked as fetched, and a failure of that update is ignored.
\<close>

definition permanentErrors :: "string list" where
  "permanentErrors =
     [''Transcript is disabled'', ''Transcripts are disabled'', ''video does not have transcripts'']"

definition fetchTranscriptCatch ::
  "'t environment \<Rightarrow> string \<Rightarrow> 't FetchTranscriptResult \<Rightarrow> thrown \<Rightarrow> 't world \<Rightarrow>
   (thrown + 't FetchTranscriptResult) \<times> 't world" where
  "fetchTranscriptCatch env vid result err w =
     (let message = errorMessage err;
          result' = result \<lparr> fetchError := Some message \<rparr>
      in if list_ex (\<lambda>msg. includesStr (toLowerCase message) (toLowerCase msg)) permanentErrors
         then (case updateVideo env vid (\<lambda>v. v \<lparr> transcriptFetched := True \<rparr>) w of
                 (Inl ignored, w') \<Rightarrow> (Inr result', w')
               | (Inr u, w') \<Rightarrow> (Inr result', w'))
         else (Inr result', w))"

definition fetchTranscriptForVideo ::
  "'t environment \<Rightarrow> string \<Rightarrow> 't world \<Rightarrow> (thrown + 't FetchTranscriptResult) \<times> 't world" where
  "fetchTranscriptForVideo env vid w =
     (let result = \<lparr> success = False, fetchedVideoId = vid, chunksStored = 0, fetchError = None,
                      transcriptEntries = None \<rparr>
      in case fetchTranscriptBody env vid result w of
           (Inr returned, w') \<Rightarrow> (Inr returned, w')
         | (Inl err, w') \<Rightarrow> fetchTranscriptCatch env vid result err w')"

section \<open>The ingestion pipeline\<close>

text \<open>
  An asynchronous function is a state transformer that returns or throws: \<open>('s, 'a) action\<close>.
  \<open>andThen\<close> is sequencing (a throw skips the rest), \<open>tryCatch\<close> is \<^verbatim>\<open>try { } catch { }\<close>,
  \<open>forEach\<close> is \<^verbatim>\<open>for (const x of xs)\<close>.
\<close>

type_synonym ('s, 'a) action = "'s \<Rightarrow> (thrown + 'a) \<times> 's"

definition succeed :: "'a \<Rightarrow> ('s, 'a) action" where
  "succeed a s = (Inr a, s)"

definition throwError :: "thrown \<Rightarrow> ('s, 'a) action" where
  "throwError e s = (Inl e, s)"

definition andThen :: "('s, 'a) action \<Rightarrow> ('a \<Rightarrow> ('s, 'b) action) \<Rightarrow> ('s, 'b) action" where
  "andThen m f s = (case m s of (Inl e, s') \<Rightarrow> (Inl e, s') | (Inr a, s') \<Rightarrow> f a s')"

definition tryCatch :: "('s, 'a) action \<Rightarrow> (thrown \<Rightarrow> ('s, 'a) action) \<Rightarrow> ('s, 'a) action" where
  "tryCatch m handler s = (case m s of (Inl e, s') \<Rightarrow> handler e s' | (Inr a, s') \<Rightarrow> (Inr a, s'))"

definition modify :: "('s \<Rightarrow> 's) \<Rightarrow> ('s, unit) action" where
  "modify f s = (Inr (), f s)"

fun forEach :: "'a list \<Rightarrow> ('a \<Rightarrow> ('s, unit) action) \<Rightarrow> ('s, unit) action" where
  "forEach [] body = succeed ()"
| "forEach (x # xs) body = andThen (body x) (\<lambda>u. forEach xs body)"

text \<open>
  The result types.  The three members of \<^verbatim>\<open>stages\<close> are fields of the result itself, their
  own fields prefixed with the stage's name.
\<close>

record FetchVideosResult =
  videosFound :: nat
  videosInserted :: nat
  videosSkipped :: nat
  fetchVideosErrors :: "string list"

record VideoFetchStage =
  videoFetch_success :: bool
  videoFetch_videosFound :: nat
  videoFetch_videosInserted :: nat
  videoFetch_videosSkipped :: nat
  videoFetch_errors :: "string list"

record TranscriptFetchStage =
  transcriptFetch_success :: bool
  transcriptFetch_videosProcessed :: nat
  transcriptFetch_totalChunks :: nat
  transcriptFetch_errors :: "string list"

record PredictionExtractionStage =
  predictionExtraction_success :: bool
  predictionExtraction_videosProcessed :: nat
  predictionExtraction_totalPredictions :: nat
  predictionExtraction_errors :: "string list"

record PipelineResult =
  result_channelId :: string
  result_creatorId :: string
  videoFetch :: VideoFetchStage
  transcriptFetch :: TranscriptFetchStage
  predictionExtraction :: PredictionExtractionStage
  totalDurationMs :: int
  completedAt :: string

record PipelineOptions =
  maxVideos :: "nat option"
  skipVideoFetch :: bool
  skipTranscriptFetch :: bool
  skipPredictionExtraction :: bool

text \<open>
  What the pipeline calls, over a state \<open>'w\<close> of which it knows nothing: the clock
  (\<^verbatim>\<open>Date.now()\<close>, \<^verbatim>\<open>new Date().toISOString()\<close>), the functions imported from the other
  modules and the two database calls it makes itself.  Videos are passed by their id, the only
  field read, a creator likewise.
\<close>

record ('t, 'w) collaborators =
  currentTime :: "'w \<Rightarrow> int \<times> 'w"
  currentIsoString :: "'w \<Rightarrow> string \<times> 'w"
  fetchVideosForChannel :: "string \<Rightarrow> nat \<Rightarrow> ('w, FetchVideosResult) action"
  creatorFindUnique :: "string \<Rightarrow> ('w, string option) action"
  getUnfetchedVideos :: "string \<Rightarrow> ('w, string list) action"
  fetchTranscript :: "string \<Rightarrow> ('w, 't FetchTranscriptResult) action"
  getVideosWithoutPredictions :: "string \<Rightarrow> ('w, string list) action"
  getTranscriptChunks :: "string \<Rightarrow> ('w, 't TranscriptChunk list) action"
  markPredictionsExtracted :: "string \<Rightarrow> ('w, unit) action"
  extractPredictions :: "string \<Rightarrow> 't SegmentedBlock list \<Rightarrow> ('w, ExtractionStats) action"

text \<open>
  The body runs on the pair of the \<^verbatim>\<open>result\<close> object under construction and the outside
  state: \<open>await\<close> runs a collaborator, \<open>update\<close> assigns to \<^verbatim>\<open>result\<close>.  A throw keeps the
  assignments made before it, as mutation of an object does.
\<close>

definition await :: "('w, 'a) action \<Rightarrow> (PipelineResult \<times> 'w, 'a) action" where
  "await call s = (case call (snd s) of (outcome, w') \<Rightarrow> (outcome, (fst s, w')))"

definition update :: "(PipelineResult \<Rightarrow> PipelineResult) \<Rightarrow> (PipelineResult \<times> 'w, unit) action" where
  "update f = modify (\<lambda>s. (f (fst s), snd s))"

text \<open>
  Stage 1, with its own handler.  \<^verbatim>\<open>options.maxVideos || 50\<close>.  The spread
  \<^verbatim>\<open>{ success: fetchResult.errors.length === 0, ...fetchResult }\<close> copies the four fields of
  \<^verbatim>\<open>FetchVideosResult\<close>, none of which is \<^verbatim>\<open>success\<close>.
\<close>

definition videoFetchStage :: "('t, 'w) collaborators \<Rightarrow> string \<Rightarrow> PipelineOptions \<Rightarrow> (PipelineResult \<times> 'w, unit) action" where
  "videoFetchStage c channel opts =
     (if \<not> skipVideoFetch opts
      then tryCatch
             (andThen (await (fetchVideosForChannel c channel
                               (case maxVideos opts of None \<Rightarrow> 50 | Some n \<Rightarrow> if n = 0 then 50 else n)))
                (\<lambda>fetchResult. update (\<lambda>r. r \<lparr> videoFetch :=
                    \<lparr> videoFetch_success = (length (fetchVideosErrors fetchResult) = 0),
                      videoFetch_videosFound = videosFound fetchResult,
                      videoFetch_videosInserted = videosInserted fetchResult,
                      videoFetch_videosSkipped = videosSkipped fetchResult,
                      videoFetch_errors = fetchVideosErrors fetchResult \<rparr> \<rparr>)))
             (\<lambda>err. update (\<lambda>r. r \<lparr> videoFetch := (videoFetch r)
                    \<lparr> videoFetch_errors := videoFetch_errors (videoFetch r) @ [errorMessage err],
                      videoFetch_success := False \<rparr> \<rparr>))
      else update (\<lambda>r. r \<lparr> videoFetch := (videoFetch r) \<lparr> videoFetch_success := True \<rparr> \<rparr>))"

text \<open>Stages 2 and 3, which have no handler of their own.\<close>

definition transcriptFetchStage :: "('t, 'w) collaborators \<Rightarrow> string \<Rightarrow> PipelineOptions \<Rightarrow> (PipelineResult \<times> 'w, unit) action" where
  "transcriptFetchStage c creator opts =
     (if \<not> skipTranscriptFetch opts
      then andThen (await (getUnfetchedVideos c creator)) (\<lambda>unfetchedVideos.
           andThen (forEach unfetchedVideos (\<lambda>video.
             andThen (await (fetchTranscript c video)) (\<lambda>transcriptResult.
               if success transcriptResult
               then update (\<lambda>r. r \<lparr> transcriptFetch := (transcriptFetch r)
                      \<lparr> transcriptFetch_videosProcessed :=
                          transcriptFetch_videosProcessed (transcriptFetch r) + 1,
                        transcriptFetch_totalChunks :=
                          transcriptFetch_totalChunks (transcriptFetch r) + chunksStored transcriptResult \<rparr> \<rparr>)
               else if isSet (fetchError transcriptResult)
               then update (\<lambda>r. r \<lparr> transcriptFetch := (transcriptFetch r)
                      \<lparr> transcriptFetch_errors := transcriptFetch_errors (transcriptFetch r) @
                          [video @ '': '' @ the (fetchError transcriptResult)] \<rparr> \<rparr>)
               else succeed ()))) (\<lambda>u.
           update (\<lambda>r. r \<lparr> transcriptFetch := (transcriptFetch r) \<lparr> transcriptFetch_success := True \<rparr> \<rparr>)))
      else update (\<lambda>r. r \<lparr> transcriptFetch := (transcriptFetch r) \<lparr> transcriptFetch_success := True \<rparr> \<rparr>))"

definition predictionExtractionStage :: "('t, 'w) collaborators \<Rightarrow> string \<Rightarrow> PipelineOptions \<Rightarrow> (PipelineResult \<times> 'w, unit) action" where
  "predictionExtractionStage c creator opts =
     (if \<not> skipPredictionExtraction opts
      then andThen (await (getVideosWithoutPredictions c creator)) (\<lambda>videosForPrediction.
           andThen (forEach videosForPrediction (\<lambda>video.
             andThen (await (getTranscriptChunks c video)) (\<lambda>chunks.
               if length chunks = 0
               then await (markPredictionsExtracted c video)
               else andThen (await (extractPredictions c video (segmentTranscript chunks)))
                      (\<lambda>extractionResult.
                         update (\<lambda>r. r \<lparr> predictionExtraction := (predictionExtraction r)
                           \<lparr> predictionExtraction_videosProcessed :=
                               predictionExtraction_videosProcessed (predictionExtraction r) + 1,
                             predictionExtraction_totalPredictions :=
                               predictionExtraction_totalPredictions (predictionExtraction r) +
                               totalPredictions extractionResult,
                             predictionExtraction_errors :=
                               predictionExtraction_errors (predictionExtraction r) @
                               errors extractionResult \<rparr> \<rparr>))))) (\<lambda>u.
           update (\<lambda>r. r \<lparr> predictionExtraction := (predictionExtraction r)
                          \<lparr> predictionExtraction_success := True \<rparr> \<rparr>)))
      else update (\<lambda>r. r \<lparr> predictionExtraction := (predictionExtraction r)
                          \<lparr> predictionExtraction_success := True \<rparr> \<rparr>))"

text \<open>
  The body of the outer \<^verbatim>\<open>try\<close>, with
  \<^verbatim>\<open>if (!creator) { throw new Error(`Creator not found for channel: ${channelId}`); }\<close>
  inside it, and the outer handler, which appends the message to the errors of the first stage not
  yet successful.
\<close>

definition pipelineBody :: "('t, 'w) collaborators \<Rightarrow> string \<Rightarrow> PipelineOptions \<Rightarrow> (PipelineResult \<times> 'w, unit) action" where
  "pipelineBody c channel opts =
     andThen (videoFetchStage c channel opts) (\<lambda>u.
     andThen (await (creatorFindUnique c channel)) (\<lambda>creator.
       case creator of
         None \<Rightarrow> throwError (JsError (''Creator not found for channel: '' @ channel))
       | Some creatorId \<Rightarrow>
           andThen (update (\<lambda>r. r \<lparr> result_creatorId := creatorId \<rparr>)) (\<lambda>u.
           andThen (transcriptFetchStage c creatorId opts) (\<lambda>u.
           predictionExtractionStage c creatorId opts))))"

definition pipelineCatch :: "thrown \<Rightarrow> (PipelineResult \<times> 'w, unit) action" where
  "pipelineCatch err =
     update (\<lambda>r.
       if \<not> videoFetch_success (videoFetch r)
       then r \<lparr> videoFetch := (videoFetch r)
                  \<lparr> videoFetch_errors := videoFetch_errors (videoFetch r) @ [errorMessage err] \<rparr> \<rparr>
       else if \<not> transcriptFetch_success (transcriptFetch r)
       then r \<lparr> transcriptFetch := (transcriptFetch r)
                  \<lparr> transcriptFetch_errors := transcriptFetch_errors (transcriptFetch r) @ [errorMessage err] \<rparr> \<rparr>
       else r \<lparr> predictionExtraction := (predictionExtraction r)
                  \<lparr> predictionExtraction_errors :=
                      predictionExtraction_errors (predictionExtraction r) @ [errorMessage err] \<rparr> \<rparr>)"

text \<open>
  \<^verbatim>\<open>runIngestionPipeline\<close>: the initial result, the guarded body, then the duration and the
  time stamp.
\<close>

definition initialResult :: "string \<Rightarrow> PipelineResult" where
  "initialResult channel =
     \<lparr> result_channelId = channel, result_creatorId = [],
       videoFetch = \<lparr> videoFetch_success = False, videoFetch_videosFound = 0,
                      videoFetch_videosInserted = 0, videoFetch_videosSkipped = 0,
                      videoFetch_errors = [] \<rparr>,
       transcriptFetch = \<lparr> transcriptFetch_success = False, transcriptFetch_videosProcessed = 0,
                           transcriptFetch_totalChunks = 0, transcriptFetch_errors = [] \<rparr>,
       predictionExtraction = \<lparr> predictionExtraction_success = False,
                                predictionExtraction_videosProcessed = 0,
                                predictionExtraction_totalPredictions = 0,
                                predictionExtraction_errors = [] \<rparr>,
       totalDurationMs = 0, completedAt = [] \<rparr>"

definition runIngestionPipeline ::
  "('t, 'w) collaborators \<Rightarrow> string \<Rightarrow> PipelineOptions \<Rightarrow> ('w, PipelineResult) action" where
  "runIngestionPipeline c channel opts w =
     (case currentTime c w of
        (startedAt, w0) \<Rightarrow>
          (case tryCatch (pipelineBody c channel opts) pipelineCatch (initialResult channel, w0) of
             (Inl e, (r, w1)) \<Rightarrow> (Inl e, w1)
           | (Inr u, (r, w1)) \<Rightarrow>
               (case currentTime c w1 of
                  (finishedAt, w2) \<Rightarrow>
                    (case currentIsoString c w2 of
                       (stamp, w3) \<Rightarrow>
                         (Inr (r \<lparr> totalDurationMs := finishedAt - startedAt, completedAt := stamp \<rparr>),
                          w3)))))"

text \<open>
  For the statement about a missing creator: the result and the outside state once stage 1 is
  over, and the result the outer handler makes of it when the message is the creator's.  When
  stage 1 succeeded the transcript stage has not started, so its list of errors is still empty.
\<close>

definition afterDiscovery ::
  "('t, 'w) collaborators \<Rightarrow> string \<Rightarrow> PipelineOptions \<Rightarrow> 'w \<Rightarrow> PipelineResult \<times> 'w" where
  "afterDiscovery c channel opts w =
     snd (videoFetchStage c channel opts (initialResult channel, snd (currentTime c w)))"

definition creatorNotFound :: "string \<Rightarrow> PipelineResult \<Rightarrow> PipelineResult" where
  "creatorNotFound channel r =
     (if \<not> videoFetch_success (videoFetch r)
      then r \<lparr> videoFetch := (videoFetch r)
                 \<lparr> videoFetch_errors := videoFetch_errors (videoFetch r) @
                     [''Creator not found for channel: '' @ channel] \<rparr> \<rparr>
      else r \<lparr> transcriptFetch := (transcriptFetch r)
                 \<lparr> transcriptFetch_errors := [''Creator not found for channel: '' @ channel] \<rparr> \<rparr>)"

subsection \<open>The lock\<close>

text \<open>
  \<^verbatim>\<open>runningPipelines\<close> is a module-level \<^verbatim>\<open>Set\<close>.  The three functions on it are
  synchronous.
\<close>

definition isPipelineRunning :: "string \<Rightarrow> string set \<Rightarrow> bool" where
  "isPipelineRunning channel running = (channel \<in> running)"

definition markPipelineRunning :: "string \<Rightarrow> string set \<Rightarrow> bool \<times> string set" where
  "markPipelineRunning channel running =
     (if channel \<in> running then (False, running) else (True, insert channel running))"

definition markPipelineComplete :: "string \<Rightarrow> string set \<Rightarrow> string set" where
  "markPipelineComplete channel running = running - {channel}"

text \<open>
  The process: the set and everything else.  \<^verbatim>\<open>runIngestionPipelineWithLock\<close> is
  \<^verbatim>\<open>
    if (!markPipelineRunning(channelId)) { return null; }
    try { return await runIngestionPipeline(channelId, options); }
    finally { markPipelineComplete(channelId); }\<close>
  The awaited call is the parameter \<open>run\<close>; it gets the whole process, set included, and may
  return or throw.  \<open>pipelineRun\<close> is the call the source makes: \<^verbatim>\<open>runIngestionPipeline\<close>
  does not touch the set.
\<close>

record 'w process =
  runningPipelines :: "string set"
  outside :: 'w

definition runIngestionPipelineWithLock ::
  "(string \<Rightarrow> PipelineOptions \<Rightarrow> ('w process, PipelineResult) action) \<Rightarrow> string \<Rightarrow> PipelineOptions \<Rightarrow>
   ('w process, PipelineResult option) action" where
  "runIngestionPipelineWithLock run channel opts p =
     (case markPipelineRunning channel (runningPipelines p) of
        (False, running) \<Rightarrow> (Inr None, p \<lparr> runningPipelines := running \<rparr>)
      | (True, running) \<Rightarrow>
          (case run channel opts (p \<lparr> runningPipelines := running \<rparr>) of
             (outcome, p') \<Rightarrow>
               (map_sum id Some outcome,
                p' \<lparr> runningPipelines := markPipelineComplete channel (runningPipelines p') \<rparr>)))"

definition pipelineRun ::
  "('t, 'w) collaborators \<Rightarrow> string \<Rightarrow> PipelineOptions \<Rightarrow> ('w process, PipelineResult) action" where
  "pipelineRun c channel opts p =
     (case runIngestionPipeline c channel opts (outside p) of
        (outcome, w') \<Rightarrow> (outcome, p \<lparr> outside := w' \<rparr>))"
section \<open>Sample inputs\<close>

text \<open>
  An engine with the wording of V8's errors, for the answers used below: numbers print as written
  (true of integers and short decimals) and the lower case of a code unit of 256 or more is
  itself.
\<close>

definition sampleEngine :: engine where
  "sampleEngine =
     \<lparr> numberIsZero = (\<lambda>lexeme. lexeme = utf16 ''0'' \<or> lexeme = utf16 ''-0''),
       numberToString = (\<lambda>lexeme. lexeme),
       toLowerCaseWide = (\<lambda>s. map lowerUnit s),
       syntaxErrorMessage = (\<lambda>s. ''Unexpected token in JSON''),
       nullReadMessage =
         (\<lambda>key. ''Cannot read properties of null (reading '' @ [CHR 0x27] @ key @ [CHR 0x27] @ '')''),
       toPrimitiveMessage = ''Cannot convert object to primitive value'' \<rparr>"

text \<open>
  A block as the repository's tests build it; an environment in which the key is set, the clock
  advances five seconds per reading, every model call throws an error with an empty message, the
  database never fails and neither transcript source has anything; and a world with one video,
  whose transcript is already fetched.
\<close>

definition sampleBlock :: "int SegmentedBlock" where
  "sampleBlock =
     \<lparr> block_text = ''Gold will rise next year.'', block_startTime = 12,
       block_chunkIds = [''chunk-1'', ''chunk-2''] \<rparr>"

definition quietEnvironment :: "int environment" where
  "quietEnvironment =
     \<lparr> js = sampleEngine,
       geminiApiKey = Some ''test-key'',
       dateNow = (\<lambda>k. 5000 * int k),
       generateContent = (\<lambda>k prompt. ModelThrows (JsError [])),
       databaseFailure = (\<lambda>k. None),
       generatedId = (\<lambda>k j. ''chunk-'' @ showNat k @ ''-'' @ showNat j),
       captionsApi = (\<lambda>k vid. None),
       transcriptLibrary = (\<lambda>k vid. Inr None),
       divideBy1000 = (\<lambda>t. t div 1000) \<rparr>"

definition startWorld :: "int world" where
  "startWorld =
     \<lparr> lastRequestTime = 0, clockReads = 0, modelCalls = 0, databaseCalls = 0, transcriptCalls = 0,
       events = [],
       videos = [''vid1'' \<mapsto> \<lparr> transcriptFetched = True, predictionsExtracted = False \<rparr>],
       transcriptChunks = [], predictionRows = [] \<rparr>"

text \<open>
  A model that is unavailable twice and then answers with prose: two transport failures and one
  parse failure (\<open>flakyFailure\<close> lists them).
\<close>

definition flakyModel :: "int environment" where
  "flakyModel =
     quietEnvironment
       \<lparr> generateContent :=
           (\<lambda>k prompt. if k < 2 then ModelThrows (JsError ''503 Service Unavailable'')
                         else ModelText (utf16 ''This is not JSON'')) \<rparr>"

definition flakyFailure :: "nat \<Rightarrow> thrown" where
  "flakyFailure j =
     (if j < 2 then JsError ''503 Service Unavailable''
      else JsError ''No JSON array found in response'')"

text \<open>
  A model that answers every block with one prediction, and a database whose first call fails and
  whose later calls succeed.
\<close>

definition lostConnection :: "int environment" where
  "lostConnection =
     quietEnvironment
       \<lparr> generateContent := (\<lambda>k prompt. ModelText (utf16 ''[{\"claim\":\"Gold will rise\"}]'')),
         databaseFailure := (\<lambda>k. if k = 0 then Some (JsError ''Connection lost'') else None) \<rparr>"

text \<open>
  A channel that was never ingested: discovery fails and there is no creator row.  The options
  when none are given.  A run that throws, and a process in which nothing runs.
\<close>

definition neverIngested :: "(int, unit) collaborators" where
  "neverIngested =
     \<lparr> currentTime = (\<lambda>w. (0, w)),
       currentIsoString = (\<lambda>w. (''1970-01-01T00:00:00.000Z'', w)),
       fetchVideosForChannel = (\<lambda>channel n. throwError (JsError (''Channel not found: '' @ channel))),
       creatorFindUnique = (\<lambda>channel. succeed None),
       getUnfetchedVideos = (\<lambda>creator. succeed []),
       fetchTranscript = (\<lambda>video. throwError NotAnError),
       getVideosWithoutPredictions = (\<lambda>creator. succeed []),
       getTranscriptChunks = (\<lambda>video. succeed []),
       markPredictionsExtracted = (\<lambda>video. succeed ()),
       extractPredictions = (\<lambda>video bs. throwError NotAnError) \<rparr>"

definition defaultOptions :: PipelineOptions where
  "defaultOptions =
     \<lparr> maxVideos = None, skipVideoFetch = False, skipTranscriptFetch = False,
       skipPredictionExtraction = False \<rparr>"

definition failingRun :: "string \<Rightarrow> PipelineOptions \<Rightarrow> (unit process, PipelineResult) action" where
  "failingRun channel opts = throwError (JsError ''socket hang up'')"

definition idle :: "unit process" where
  "idle = \<lparr> runningPipelines = {}, outside = () \<rparr>"

text \<open>
  An answer that wraps its array in prose: one full record, whose claim writes the rupee sign as
  the escape \<^verbatim>\<open>\u20b9\<close>, with an upper-case confidence and an unknown prediction type, and
  one record whose claim is blank.  \<open>wrappedRecords\<close> is the array as \<^verbatim>\<open>JSON.parse\<close> returns
  it.
\<close>

definition bracketedPart :: jsString where
  "bracketedPart =
     utf16 ''[{\"claim\":\"Nifty '' @ [0x5C] @ utf16 ''u20b925000 by March\",\"asset\":\"NIFTY50\",'' @
     utf16 ''\"horizonMonths\":12,\"confidence\":\" HIGH\",\"predictionType\":\"unknown\"},'' @
     utf16 ''{\"claim\":\"   \"}]''"

definition wrappedAnswer :: jsString where
  "wrappedAnswer =
     utf16 ''Here are the predictions I found: '' @ bracketedPart @ utf16 '' That is all.''"

definition wrappedRecords :: "(jsString \<times> json) list list" where
  "wrappedRecords =
     [[(utf16 ''claim'', JStr (utf16 ''Nifty '' @ [0x20B9] @ utf16 ''25000 by March'')),
       (utf16 ''asset'', JStr (utf16 ''NIFTY50'')),
       (utf16 ''horizonMonths'', JNum (utf16 ''12'')),
       (utf16 ''confidence'', JStr (utf16 '' HIGH'')),
       (utf16 ''predictionType'', JStr (utf16 ''unknown''))],
      [(utf16 ''claim'', JStr (utf16 ''   ''))]]"

section \<open>Properties of the string operations and of the segmenter\<close>


lemma dropWhile_all_iff: "(\<forall>c\<in>set (dropWhile P s). P c) \<longleftrightarrow> (\<forall>c\<in>set s. P c)"
  by (induction s) auto

lemma trim_eq_Nil_iff: "trim s = [] \<longleftrightarrow> (\<forall>c\<in>set s. isWhiteSpace c)"
proof -
  have "trim s = [] \<longleftrightarrow> dropWhile isWhiteSpace (rev (dropWhile isWhiteSpace s)) = []"
    unfolding trim_def by simp
  also have "\<dots> \<longleftrightarrow> (\<forall>c\<in>set (dropWhile isWhiteSpace s). isWhiteSpace c)"
    unfolding dropWhile_eq_Nil_conv by simp
  also have "\<dots> \<longleftrightarrow> (\<forall>c\<in>set s. isWhiteSpace c)"
    by (rule dropWhile_all_iff)
  finally show ?thesis .
qed

lemma set_trim_subset: "set (trim s) \<subseteq> set s"
proof -
  have "set (trim s) \<subseteq> set (dropWhile isWhiteSpace s)"
    unfolding trim_def using set_dropWhileD by fastforce
  also have "\<dots> \<subseteq> set s" using set_dropWhileD by fastforce
  finally show ?thesis .
qed

lemma trim_idem: "trim (trim s) = trim s"
proof -
  define t where "t = dropWhile isWhiteSpace s"
  define u where "u = dropWhile isWhiteSpace (rev t)"
  have trim: "trim s = rev u" by (simp add: trim_def t_def u_def)
  have head: "dropWhile isWhiteSpace (rev u) = rev u"
  proof (cases "u = []")
    case True
    then show ?thesis by simp
  next
    case False
    have "rev t = takeWhile isWhiteSpace (rev t) @ u" by (simp add: u_def)
    then have "last (rev t) = last u" using False by (metis last_appendR)
    moreover have "t \<noteq> []" using False by (auto simp: u_def)
    ultimately have "last u = hd t" by (simp add: last_rev)
    moreover have "\<not> isWhiteSpace (hd t)"
      using \<open>t \<noteq> []\<close> hd_dropWhile [of isWhiteSpace s] by (simp add: t_def)
    ultimately have "\<not> isWhiteSpace (hd (rev u))" using False by (simp add: hd_rev)
    then show ?thesis by (cases "rev u") auto
  qed
  have "trim (rev u) = rev (dropWhile isWhiteSpace u)" by (simp add: trim_def head)
  also have "\<dots> = rev u" by (simp add: u_def)
  finally show ?thesis by (simp add: trim)
qed

lemma trim_append_nonblank:
  assumes "trim t \<noteq> []"
  shows "trim (pre @ trim t) \<noteq> []"
proof -
  have "trim (trim t) \<noteq> []" using assms by (simp add: trim_idem)
  then obtain c where c: "c \<in> set (trim t)" "\<not> isWhiteSpace c"
    using trim_eq_Nil_iff [of "trim t"] by auto
  then show ?thesis using trim_eq_Nil_iff [of "pre @ trim t"] by auto
qed


lemma splitGo_count:
  "(sep \<Longrightarrow> piece = []) \<Longrightarrow>
   length (filter (\<lambda>w. w \<noteq> []) (splitGo sep piece s)) =
     wordStarts (piece \<noteq> []) s + (if piece \<noteq> [] then 1 else 0)"
  by (induction s arbitrary: sep piece) auto

lemma wordStarts_dropWhile:
  "wordStarts False (dropWhile isWhiteSpace s) = wordStarts False s"
  by (induction s) auto

lemma wordStarts_blank: "\<forall>c\<in>set ws. isWhiteSpace c \<Longrightarrow> wordStarts p ws = 0"
  by (induction ws arbitrary: p) auto

lemma wordStarts_append_blank:
  "\<forall>c\<in>set ws. isWhiteSpace c \<Longrightarrow> wordStarts p (xs @ ws) = wordStarts p xs"
  by (induction xs arbitrary: p) (auto simp: wordStarts_blank)

lemma wordStarts_trim: "wordStarts False (trim s) = wordStarts False s"
proof -
  define t where "t = dropWhile isWhiteSpace s"
  have "rev t = takeWhile isWhiteSpace (rev t) @ dropWhile isWhiteSpace (rev t)" by simp
  then have "t = rev (dropWhile isWhiteSpace (rev t)) @ rev (takeWhile isWhiteSpace (rev t))"
    by (metis rev_append rev_rev_ident)
  then have t: "t = trim s @ rev (takeWhile isWhiteSpace (rev t))"
    by (simp add: trim_def t_def)
  have "\<forall>c\<in>set (rev (takeWhile isWhiteSpace (rev t))). isWhiteSpace c"
    by (auto dest: set_takeWhileD)
  then have "wordStarts False (trim s @ rev (takeWhile isWhiteSpace (rev t))) = wordStarts False (trim s)"
    by (rule wordStarts_append_blank)
  with t have "wordStarts False t = wordStarts False (trim s)" by simp
  then show ?thesis by (simp add: t_def wordStarts_dropWhile)
qed

lemma countWords_wordStarts: "countWords s = wordStarts False s"
  using splitGo_count [of False "[]" "trim s"]
  by (simp add: countWords_def splitWhitespace_def wordStarts_trim)

lemma wordStarts_join:
  "wordStarts p (a @ CHR '' '' # b) = wordStarts p a + wordStarts False b"
  by (induction a arbitrary: p) (auto simp: isWhiteSpace_def)

lemma countWords_join: "countWords (a @ CHR '' '' # b) = countWords a + countWords b"
  by (simp add: countWords_wordStarts wordStarts_join)

lemma countWords_trim: "countWords (trim s) = countWords s"
  by (simp add: countWords_wordStarts wordStarts_trim)

lemma trim_Nil: "trim [] = []"
  by (simp add: trim_def)

lemma countWords_Nil: "countWords [] = 0"
  by (simp add: countWords_wordStarts)

lemma segmentLoop_Suc:
  "segmentLoop chunks (Suc n) = segmentStep chunks (segmentLoop chunks n) n"
  by (simp add: segmentLoop_def)

lemma segmentStep_blank:
  "trim (chunk_text (chunks ! i)) = [] \<Longrightarrow> segmentStep chunks st i = st"
  by (simp add: segmentStep_def)

lemma accumulated_nonblank:
  "trim (chunk_text chunk) \<noteq> [] \<Longrightarrow> trim (accumulated st chunk) \<noteq> []"
  using trim_append_nonblank [of "chunk_text chunk" "currentText st @ '' ''"]
    trim_append_nonblank [of "chunk_text chunk" "[]"]
  by (simp add: accumulated_def)

lemma segmentStep_unfold:
  assumes "i < length chunks"
  shows "segmentStep chunks st i =
     (if trim (chunk_text (chunks ! i)) = [] then st
      else if closesBlock i (length chunks) (accumulated st (chunks ! i))
                (length (currentChunkIds st) + 1)
      then \<lparr> blocks = blocks st @
                [\<lparr> block_text = trim (accumulated st (chunks ! i)),
                   block_startTime = currentStartTime st,
                   block_chunkIds = currentChunkIds st @ [chunk_id (chunks ! i)] \<rparr>],
             currentText = [],
             currentStartTime =
               (if i + 1 < length chunks then chunk_startTime (chunks ! (i + 1))
                else currentStartTime st),
             currentChunkIds = [] \<rparr>
      else st \<lparr> currentText := accumulated st (chunks ! i),
                currentChunkIds := currentChunkIds st @ [chunk_id (chunks ! i)] \<rparr>)"
proof (cases "trim (chunk_text (chunks ! i)) = []")
  case True
  then show ?thesis by (simp add: segmentStep_def)
next
  case False
  have nb: "trim (accumulated st (chunks ! i)) \<noteq> []"
    using False by (rule accumulated_nonblank)
  have last: "(i = length chunks - 1) = (i + 1 = length chunks)" using assms by auto
  have lt: "(i < length chunks - 1) = (i + 1 < length chunks)" by auto
  have acc: "(if currentText st \<noteq> [] then currentText st @ '' '' @ trim (chunk_text (chunks ! i))
              else trim (chunk_text (chunks ! i))) = accumulated st (chunks ! i)"
    by (simp add: accumulated_def)
  show ?thesis
    unfolding segmentStep_def Let_def last lt acc
    using False nb
    by (simp add: closesBlock_def endsWithSentence_def Let_def
        MIN_WORDS_PER_BLOCK_def MAX_WORDS_PER_BLOCK_def TARGET_CHUNKS_PER_BLOCK_def)
qed


lemma countWords_accumulated:
  "countWords (accumulated st c) = countWords (currentText st) + countWords (chunk_text c)"
  by (simp add: accumulated_def countWords_join countWords_trim countWords_Nil)

lemma closesBlock_120:
  "120 \<le> countWords acc \<Longrightarrow> closesBlock i n acc k"
  by (simp add: closesBlock_def)

lemma closesBlock_30:
  "closesBlock i n acc k \<Longrightarrow> i + 1 \<noteq> n \<Longrightarrow> 30 \<le> countWords acc"
  by (auto simp: closesBlock_def)

lemma segmentStep_effect:
  assumes i: "i < length chunks" and small: "countWords (currentText st) < 120"
  shows "countWords (currentText (segmentStep chunks st i)) < 120 \<and>
         (blocks (segmentStep chunks st i) = blocks st \<or>
          (\<exists>b. blocks (segmentStep chunks st i) = blocks st @ [b] \<and>
               currentText (segmentStep chunks st i) = [] \<and>
               countWords (block_text b) < 120 + countWords (chunk_text (chunks ! i)) \<and>
               (i + 1 = length chunks \<or> 30 \<le> countWords (block_text b))))"
proof (cases "trim (chunk_text (chunks ! i)) = []")
  case True
  then show ?thesis using small by (simp add: segmentStep_blank)
next
  case False
  let ?acc = "accumulated st (chunks ! i)"
  show ?thesis
  proof (cases "closesBlock i (length chunks) ?acc (length (currentChunkIds st) + 1)")
    case True
    have "countWords (trim ?acc) < 120 + countWords (chunk_text (chunks ! i))"
      using small by (simp add: countWords_trim countWords_accumulated)
    moreover have "i + 1 = length chunks \<or> 30 \<le> countWords (trim ?acc)"
      using closesBlock_30 [OF True] by (auto simp: countWords_trim)
    ultimately show ?thesis
      using False True by (simp add: segmentStep_unfold [OF i] countWords_Nil)
  next
    case no: False
    then have "countWords ?acc < 120" using closesBlock_120 [of ?acc] by (meson not_le)
    then show ?thesis using False no by (simp add: segmentStep_unfold [OF i])
  qed
qed

lemma segmentInit_small: "countWords (currentText (segmentInit chunks)) < 120"
  by (simp add: segmentInit_def countWords_Nil)

lemma segmentLoop_small:
  "i \<le> length chunks \<Longrightarrow> countWords (currentText (segmentLoop chunks i)) < 120"
proof (induction i)
  case 0
  then show ?case by (simp add: segmentLoop_def segmentInit_small)
next
  case (Suc i)
  then show ?case using segmentStep_effect [of i chunks "segmentLoop chunks i"]
    by (simp add: segmentLoop_Suc)
qed

lemma segmentLoop_blocks:
  "i \<le> length chunks \<Longrightarrow>
   \<forall>b\<in>set (blocks (segmentLoop chunks i)).
     (\<exists>c\<in>set chunks. countWords (block_text b) < 120 + countWords (chunk_text c))"
proof (induction i)
  case 0
  then show ?case by (simp add: segmentLoop_def segmentInit_def)
next
  case (Suc i)
  then have i: "i < length chunks" by simp
  have small: "countWords (currentText (segmentLoop chunks i)) < 120"
    using i by (simp add: segmentLoop_small)
  have mem: "chunks ! i \<in> set chunks" using i by simp
  have IH: "\<forall>b\<in>set (blocks (segmentLoop chunks i)).
     (\<exists>c\<in>set chunks. countWords (block_text b) < 120 + countWords (chunk_text c))"
    using Suc.IH i by simp
  from segmentStep_effect [OF i small]
  consider "blocks (segmentStep chunks (segmentLoop chunks i) i) = blocks (segmentLoop chunks i)"
    | b where "blocks (segmentStep chunks (segmentLoop chunks i) i) = blocks (segmentLoop chunks i) @ [b]"
        "countWords (block_text b) < 120 + countWords (chunk_text (chunks ! i))"
    by auto
  then show ?case
  proof cases
    case 1
    then show ?thesis using IH by (simp add: segmentLoop_Suc)
  next
    case 2
    then show ?thesis using IH mem by (auto simp: segmentLoop_Suc)
  qed
qed

lemma segmentLoop_min_words:
  "i < length chunks \<Longrightarrow>
   \<forall>b\<in>set (blocks (segmentLoop chunks i)). 30 \<le> countWords (block_text b)"
proof (induction i)
  case 0
  then show ?case by (simp add: segmentLoop_def segmentInit_def)
next
  case (Suc i)
  then have i: "i < length chunks" and notlast: "i + 1 \<noteq> length chunks" by simp_all
  have small: "countWords (currentText (segmentLoop chunks i)) < 120"
    using i by (simp add: segmentLoop_small)
  from segmentStep_effect [OF i small] Suc.IH i notlast
  show ?case unfolding segmentLoop_Suc by auto
qed

lemma segmentLoop_blocks_mono:
  "i \<le> j \<Longrightarrow> j \<le> length chunks \<Longrightarrow>
   \<exists>ext. blocks (segmentLoop chunks j) = blocks (segmentLoop chunks i) @ ext"
proof (induction j)
  case 0
  then show ?case by simp
next
  case (Suc j)
  show ?case
  proof (cases "i = Suc j")
    case True
    then show ?thesis by simp
  next
    case False
    with Suc obtain ext where ext: "blocks (segmentLoop chunks j) = blocks (segmentLoop chunks i) @ ext"
      by auto
    have j: "j < length chunks" using Suc.prems by simp
    have small: "countWords (currentText (segmentLoop chunks j)) < 120"
      using j by (simp add: segmentLoop_small)
    from segmentStep_effect [OF j small] ext show ?thesis
      unfolding segmentLoop_Suc by auto
  qed
qed

lemma segmentTranscript_residual:
  "segmentTranscript chunks =
     blocks (segmentLoop chunks (length chunks)) @ residual (segmentLoop chunks (length chunks))"
  by (simp add: segmentTranscript_def residual_def Let_def segmentLoop_def segmentInit_def trim_Nil)

subsection \<open>Fixed-count segmentation as a list of groups\<close>

lemma blockCount_covers: "0 < k \<Longrightarrow> n \<le> blockCount n k * k"
proof -
  assume k: "0 < k"
  have "(n + k - 1) div k * k + (n + k - 1) mod k = n + k - 1" by simp
  moreover have "(n + k - 1) mod k < k" using k by simp
  ultimately show ?thesis unfolding blockCount_def by linarith
qed

lemma blockCount_tight: "0 < k \<Longrightarrow> j < blockCount n k \<Longrightarrow> Suc j * k \<le> n + k - 1"
proof -
  assume k: "0 < k" and j: "j < blockCount n k"
  have "Suc j * k \<le> blockCount n k * k" using j by (simp add: Suc_leI mult_le_mono1 del: mult_Suc)
  also have "\<dots> \<le> n + k - 1" unfolding blockCount_def by simp
  finally show ?thesis .
qed

lemma chunkCountStep_group:
  "chunkCountStep chunks k (j * k) out =
     (if nonBlankGroup (take k (drop (j * k) chunks))
      then out @ [groupBlock (take k (drop (j * k) chunks))] else out)"
  by (simp add: chunkCountStep_def slice_def nonBlankGroup_def groupBlock_def groupText_def Let_def)

lemma chunkCountLoop_groups:
  assumes k: "0 < k"
  shows "j \<le> blockCount (length chunks) k \<Longrightarrow>
     chunkCountLoop chunks k (j * k) out =
       Some (out @ map groupBlock (filter nonBlankGroup
               (map (\<lambda>j. take k (drop (j * k) chunks)) [j..<blockCount (length chunks) k])))"
proof (induction "blockCount (length chunks) k - j" arbitrary: j out)
  case 0
  then have "j = blockCount (length chunks) k" by simp
  then have "\<not> j * k < length chunks" using blockCount_covers [OF k, of "length chunks"] by simp
  then show ?case using 0 by (subst chunkCountLoop.simps) simp
next
  case (Suc d)
  then have j: "j < blockCount (length chunks) k" by simp
  have "Suc j * k \<le> length chunks + k - 1" using blockCount_tight [OF k j] .
  then have lt: "j * k < length chunks" using k by simp
  have next_j: "j * k + k = Suc j * k" by simp
  have upt: "[j..<blockCount (length chunks) k] = j # [Suc j..<blockCount (length chunks) k]"
    using j by (simp add: upt_conv_Cons)
  have IH: "chunkCountLoop chunks k (Suc j * k) out' =
       Some (out' @ map groupBlock (filter nonBlankGroup
               (map (\<lambda>j. take k (drop (j * k) chunks)) [Suc j..<blockCount (length chunks) k])))"
    for out'
    using Suc.hyps(1) [of "Suc j" out'] Suc.hyps(2) j by simp
  show ?case
    apply (subst chunkCountLoop.simps)
    apply (simp only: lt if_True next_j IH chunkCountStep_group upt)
    apply simp
    done
qed

lemma segmentByChunkCount_groups:
  assumes "0 < k"
  shows "segmentByChunkCount chunks k =
     Some (map groupBlock (filter nonBlankGroup (chunkGroups chunks k)))"
proof (cases "chunks = []")
  case True
  then show ?thesis by (simp add: segmentByChunkCount_def chunkGroups_def blockCount_def assms)
next
  case False
  then show ?thesis
    using chunkCountLoop_groups [OF assms, of 0 chunks "[]"]
    by (simp add: segmentByChunkCount_def chunkGroups_def)
qed

lemma chunkGroups_length: "length (chunkGroups chunks k) = blockCount (length chunks) k"
  by (simp add: chunkGroups_def)

lemma chunkGroups_sizes:
  assumes "0 < k" "j < blockCount (length chunks) k"
  shows "length (chunkGroups chunks k ! j) \<le> k"
    and "0 < length (chunkGroups chunks k ! j)"
    and "Suc j < blockCount (length chunks) k \<Longrightarrow> length (chunkGroups chunks k ! j) = k"
proof -
  have nth: "chunkGroups chunks k ! j = take k (drop (j * k) chunks)"
    using assms(2) by (simp add: chunkGroups_def)
  show "length (chunkGroups chunks k ! j) \<le> k" by (simp add: nth)
  have "Suc j * k \<le> length chunks + k - 1" using blockCount_tight [OF assms] .
  then have "j * k < length chunks" using assms(1) by simp
  then show "0 < length (chunkGroups chunks k ! j)" using assms(1) by (simp add: nth)
  assume "Suc j < blockCount (length chunks) k"
  then have "Suc (Suc j) * k \<le> length chunks + k - 1" using blockCount_tight [OF assms(1)] by blast
  then have "Suc j * k \<le> length chunks" using assms(1) by simp
  then show "length (chunkGroups chunks k ! j) = k" by (simp add: nth)
qed

lemma set_joinWith: "x \<in> set xs \<Longrightarrow> set x \<subseteq> set (joinWith sep xs)"
  by (induction sep xs rule: joinWith.induct) auto

lemma nonBlankGroup_member:
  assumes "c \<in> set g" "trim (chunk_text c) \<noteq> []"
  shows "nonBlankGroup g"
proof -
  have "trim (trim (chunk_text c)) \<noteq> []" using assms(2) by (simp add: trim_idem)
  then obtain x where x: "x \<in> set (trim (chunk_text c))" "\<not> isWhiteSpace x"
    using trim_eq_Nil_iff [of "trim (chunk_text c)"] by auto
  have "trim (chunk_text c) \<in> set (map (\<lambda>c. trim (chunk_text c)) g)" using assms(1) by auto
  then have "x \<in> set (groupText g)" using x(1) set_joinWith unfolding groupText_def by fastforce
  then show ?thesis using x(2) trim_eq_Nil_iff [of "groupText g"] by (auto simp: nonBlankGroup_def)
qed

lemma butlast_filter_snoc: "set (butlast (filter P (xs @ [x]))) \<subseteq> set (filter P xs)"
  by (auto simp: butlast_append dest: in_set_butlastD)


section \<open>Properties of the answer parser\<close>

text \<open>
  A literal as code units: different literals give different strings, all below 256, so that
  lower-casing one needs no engine.
\<close>

lemma utf16_eq_iff [simp]: "utf16 a = utf16 b \<longleftrightarrow> a = b"
proof -
  have "inj charCode" by (rule injI) (simp add: charCode_def)
  then show ?thesis unfolding utf16_def by (simp add: inj_map_eq_map)
qed

lemma utf16_Nil [simp]: "utf16 [] = []" "utf16 s = [] \<longleftrightarrow> s = []"
  by (simp_all add: utf16_def)

lemma charCode_less: "charCode c < 256"
proof -
  have "(of_char c :: int) mod 256 < 256" by (rule pos_mod_bound) simp
  then show ?thesis by (simp add: charCode_def)
qed

lemma toLowerCaseJs_utf16: "toLowerCaseJs E (utf16 s) = map lowerUnit (utf16 s)"
  by (simp add: toLowerCaseJs_def utf16_def list_all_iff charCode_less)

text \<open>
  Mapping a function that never throws over a list never throws.
\<close>

lemma sequenceThrown_map_Inr:
  "\<forall>x\<in>set xs. f x = Inr (g x) \<Longrightarrow> sequenceThrown (map f xs) = Inr (map g xs)"
  by (induction xs) auto

text \<open>
  \<^verbatim>\<open>String(v)\<close> returns on a stringifiable value, and \<^verbatim>\<open>String(p.key || d)\<close> on a
  coercible property.
\<close>

lemma toStringJs_stringifiable:
  "stringifiable v \<Longrightarrow> toStringJs E v = Inr (coerced E v)"
proof (induction E v rule: toStringJs.induct)
  case (5 E elems)
  have "\<forall>x\<in>set elems. (if x = JNull then Inr [] else toStringJs E x) =
          Inr (if x = JNull then [] else coerced E x)"
    using 5 by (auto simp: list_all_iff)
  then have "sequenceThrown (map (\<lambda>x. if x = JNull then Inr [] else toStringJs E x) elems) =
      Inr (map (\<lambda>x. if x = JNull then [] else coerced E x) elems)"
    by (rule sequenceThrown_map_Inr)
  then show ?case by (simp add: coerced_def)
qed (simp_all add: coerced_def)

lemma orElse_coerced:
  assumes "coercibleField E members key"
  shows "toStringJs E (orElse E (field members key) (JStr (utf16 d))) =
           Inr (coercedOr E members key d)"
proof (cases "truthy E (field members key)")
  case True
  then obtain x where x: "field members key = Some x" by (cases "field members key") (auto simp: truthy_def)
  with True assms have "stringifiable x" by (simp add: coercibleField_def)
  then show ?thesis using True x by (simp add: orElse_def coercedOr_def toStringJs_stringifiable)
next
  case False
  then show ?thesis by (cases "field members key") (simp_all add: orElse_def coercedOr_def)
qed

text \<open>
  The two validators are one function, up to the list of admitted words and the default.
\<close>

lemma validateConfidence_oneOf:
  "validateConfidence E v = oneOf E [''low'', ''medium'', ''high''] ''medium'' v"
  by (simp add: validateConfidence_def oneOf_def Let_def)

lemma validatePredictionType_oneOf:
  "validatePredictionType E v =
     oneOf E [''price'', ''direction'', ''relative performance'', ''macro''] ''direction'' v"
  by (simp add: validatePredictionType_def oneOf_def Let_def)

lemma oneOf_range: "d \<in> set allowed \<Longrightarrow> oneOf E allowed d v \<in> set (map utf16 allowed)"
  by (simp add: oneOf_def Let_def)

text \<open>
  On a coercible record the callback of \<^verbatim>\<open>map\<close> returns the normalized record, whose
  confidence and prediction type are among the admitted words.
\<close>

lemma normalizePrediction_record:
  assumes "coercibleRecord E members"
  shows "normalizePrediction E (JObj members) = Inr (normalizedRecord E members)"
proof -
  have get: "getProperty E (JObj members) key = Inr (field members key)" for key
    by (simp add: getProperty_def field_def)
  have c: "toStringJs E (orElse E (field members ''claim'') (JStr [])) =
             Inr (coercedOr E members ''claim'' [])"
    using assms orElse_coerced [of E members "''claim''" "[]"] by (simp add: coercibleRecord_def)
  have f: "toStringJs E (orElse E (field members ''confidence'') (JStr (utf16 ''medium''))) =
             Inr (coercedOr E members ''confidence'' ''medium'')"
    using assms by (intro orElse_coerced) (simp add: coercibleRecord_def)
  have t: "toStringJs E (orElse E (field members ''predictionType'') (JStr (utf16 ''direction''))) =
             Inr (coercedOr E members ''predictionType'' ''direction'')"
    using assms by (intro orElse_coerced) (simp add: coercibleRecord_def)
  have a: "toStringJs E (the (field members ''asset'')) = Inr (coerced E (the (field members ''asset'')))"
    if "truthy E (field members ''asset'')"
    using assms that by (simp add: coercibleRecord_def coercibleField_def toStringJs_stringifiable)
  show ?thesis
    by (simp add: normalizePrediction_def bindThrown_def get c f t a normalizedRecord_def
        validateConfidence_oneOf validatePredictionType_oneOf)
qed

lemma normalizedRecord_confidence:
  "confidence (normalizedRecord E members) \<in> {utf16 ''low'', utf16 ''medium'', utf16 ''high''}"
proof -
  have "oneOf E [''low'', ''medium'', ''high''] ''medium'' v \<in>
          set (map utf16 [''low'', ''medium'', ''high''])" for v
    by (rule oneOf_range) simp
  then show ?thesis unfolding normalizedRecord_def by simp
qed

lemma normalizedRecord_predictionType:
  "predictionType (normalizedRecord E members) \<in>
     {utf16 ''price'', utf16 ''direction'', utf16 ''relative performance'', utf16 ''macro''}"
proof -
  have "oneOf E [''price'', ''direction'', ''relative performance'', ''macro''] ''direction'' v \<in>
          set (map utf16 [''price'', ''direction'', ''relative performance'', ''macro''])" for v
    by (rule oneOf_range) simp
  then show ?thesis unfolding normalizedRecord_def by simp
qed

text \<open>
  The answer as a whole, when the bracketed part is the JSON text of an array of coercible records.
\<close>

lemma parseJsonResponse_records:
  assumes "jsonMatch s = Some matched"
    and "jsonSyntax matched = Some (JArr (map JObj records))"
    and "\<forall>members\<in>set records. coercibleRecord E members"
  shows "parseJsonResponse E s =
           Inr (filter (\<lambda>p. trimJs (claim p) \<noteq> []) (map (normalizedRecord E) records))"
proof -
  have "\<forall>x\<in>set (map JObj records).
          normalizePrediction E x = Inr (normalizedRecord E (case x of JObj m \<Rightarrow> m))"
    using assms(3) by (auto simp: normalizePrediction_record)
  then have "sequenceThrown (map (normalizePrediction E) (map JObj records)) =
      Inr (map (\<lambda>x. normalizedRecord E (case x of JObj m \<Rightarrow> m)) (map JObj records))"
    by (rule sequenceThrown_map_Inr)
  then have seq: "sequenceThrown (map (normalizePrediction E) (map JObj records)) =
      Inr (map (normalizedRecord E) records)"
    by (simp add: comp_def)
  show ?thesis
    using assms(1,2) seq by (simp add: parseJsonResponse_def jsonParse_def bindThrown_def)
qed

text \<open>
  The example of the specification, for every engine.
\<close>

lemma lowered_defaults:
  "trimJs (toLowerCaseJs E (utf16 ''medium'')) = utf16 ''medium''"
  "trimJs (toLowerCaseJs E (utf16 ''direction'')) = utf16 ''direction''"
  "trimJs (utf16 ''Market will go up'') = utf16 ''Market will go up''"
proof -
  have "trimJs (map lowerUnit (utf16 ''medium'')) = utf16 ''medium''" by code_simp
  then show "trimJs (toLowerCaseJs E (utf16 ''medium'')) = utf16 ''medium''"
    by (simp only: toLowerCaseJs_utf16)
  have "trimJs (map lowerUnit (utf16 ''direction'')) = utf16 ''direction''" by code_simp
  then show "trimJs (toLowerCaseJs E (utf16 ''direction'')) = utf16 ''direction''"
    by (simp only: toLowerCaseJs_utf16)
  show "trimJs (utf16 ''Market will go up'') = utf16 ''Market will go up''" by code_simp
qed

lemma market_example:
  "parseJsonResponse E (utf16 ''[{\"claim\":\"Market will go up\"}]'') =
     Inr [\<lparr> claim = utf16 ''Market will go up'', asset = None, horizonMonths = None,
             confidence = utf16 ''medium'', predictionType = utf16 ''direction'' \<rparr>]"
proof -
  have m: "jsonMatch (utf16 ''[{\"claim\":\"Market will go up\"}]'') =
             Some (utf16 ''[{\"claim\":\"Market will go up\"}]'')"
    by code_simp
  have p: "jsonSyntax (utf16 ''[{\"claim\":\"Market will go up\"}]'') =
             Some (JArr (map JObj [[(utf16 ''claim'', JStr (utf16 ''Market will go up''))]]))"
    by code_simp
  have c: "\<forall>members\<in>set [[(utf16 ''claim'', JStr (utf16 ''Market will go up''))]].
             coercibleRecord E members"
    by (simp add: coercibleRecord_def coercibleField_def field_def truthy_def)
  have n: "normalizedRecord E [(utf16 ''claim'', JStr (utf16 ''Market will go up''))] =
      \<lparr> claim = utf16 ''Market will go up'', asset = None, horizonMonths = None,
        confidence = utf16 ''medium'', predictionType = utf16 ''direction'' \<rparr>"
    by (simp add: normalizedRecord_def coercedOr_def field_def truthy_def coerced_def oneOf_def
        lowered_defaults)
  show ?thesis
    unfolding parseJsonResponse_records [OF m p c] by (simp add: n lowered_defaults)
qed

section \<open>Properties of the extraction\<close>

text \<open>
  The rate limiter makes no model call, touches no row and adds no event of an attempt.
\<close>

lemma enforceRateLimit_frame:
  "modelCalls (enforceRateLimit env w) = modelCalls w"
  "filter attemptEvent (events (enforceRateLimit env w)) = filter attemptEvent (events w)"
  "videos (enforceRateLimit env w) = videos w"
  by (simp_all add: enforceRateLimit_def Let_def sleep_def attemptEvent_def)

text \<open>
  An attempt whose model call fails, in either way, throws that failure after exactly one call.
\<close>

lemma attemptExtraction_failure:
  assumes "failureOf (js env) (generateContent env (modelCalls w) (promptFor block)) = Some e"
  shows "\<exists>w'. attemptExtraction env block w = (Inl e, w') \<and> modelCalls w' = modelCalls w + 1 \<and>
     filter attemptEvent (events w') = filter attemptEvent (events w) @ [GenerateContent (promptFor block)]"
  using assms
  by (auto simp: attemptExtraction_def Let_def failureOf_def enforceRateLimit_frame attemptEvent_def
      split: model_outcome.splits sum.splits)

lemma attemptExtraction_calls:
  "modelCalls (snd (attemptExtraction env block w)) = modelCalls w + 1"
  by (simp add: attemptExtraction_def Let_def enforceRateLimit_frame split: model_outcome.splits)

lemma attemptTrace_Suc:
  "attemptTrace prompt attempt (Suc n) =
     [GenerateContent prompt, Sleep Backoff (backoffMs attempt)] @ attemptTrace prompt (attempt + 1) n"
proof -
  have "[0..<Suc n] = 0 # map Suc [0..<n]"
    by (simp only: upt_conv_Cons [of 0 "Suc n"] map_Suc_upt zero_less_Suc)
  then show ?thesis unfolding attemptTrace_def by (simp add: comp_def)
qed

text \<open>
  The loop when every remaining attempt fails, by induction on the attempts that remain; and the
  bound on the calls whatever the outcomes.
\<close>

lemma extractAttempts_all_fail:
  assumes "\<forall>j<remaining. failureOf (js env) (generateContent env (modelCalls w + j) (promptFor block)) = Some (err (attempt + j))"
  shows "\<exists>w'. extractAttempts env block result attempt lastError remaining w =
           (result \<lparr> error := Some (messageOr (if remaining = 0 then lastError
                                                else Some (errorMessage (err (attempt + remaining - 1))))
                                       ''Max retries exceeded'') \<rparr>, w') \<and>
         modelCalls w' = modelCalls w + remaining \<and>
         filter attemptEvent (events w') =
           filter attemptEvent (events w) @ attemptTrace (promptFor block) attempt remaining"
  using assms
proof (induction remaining arbitrary: attempt lastError w)
  case 0
  then show ?case by (simp add: attemptTrace_def)
next
  case (Suc remaining)
  have first: "failureOf (js env) (generateContent env (modelCalls w) (promptFor block)) = Some (err attempt)"
    using Suc.prems [rule_format, of 0] by simp
  from attemptExtraction_failure [OF first] obtain w1 where
    w1: "attemptExtraction env block w = (Inl (err attempt), w1)" "modelCalls w1 = modelCalls w + 1"
      "filter attemptEvent (events w1) = filter attemptEvent (events w) @ [GenerateContent (promptFor block)]"
    by auto
  let ?w2 = "sleep Backoff (backoffMs attempt) w1"
  have w2: "modelCalls ?w2 = modelCalls w + 1"
    "filter attemptEvent (events ?w2) = filter attemptEvent (events w) @
        [GenerateContent (promptFor block), Sleep Backoff (backoffMs attempt)]"
    using w1 by (simp_all add: sleep_def attemptEvent_def)
  have rest: "\<forall>j<remaining. failureOf (js env) (generateContent env (modelCalls ?w2 + j) (promptFor block)) =
      Some (err (attempt + 1 + j))"
  proof (intro allI impI)
    fix j assume "j < remaining"
    then have "Suc j < Suc remaining" by simp
    from Suc.prems [rule_format, OF this] show
      "failureOf (js env) (generateContent env (modelCalls ?w2 + j) (promptFor block)) =
         Some (err (attempt + 1 + j))"
      using w2(1) by simp
  qed
  from Suc.IH [OF rest, of "Some (errorMessage (err attempt))"] obtain w' where
    w': "extractAttempts env block result (attempt + 1) (Some (errorMessage (err attempt))) remaining ?w2 =
           (result \<lparr> error := Some (messageOr (if remaining = 0 then Some (errorMessage (err attempt))
                                                else Some (errorMessage (err (attempt + 1 + remaining - 1))))
                                       ''Max retries exceeded'') \<rparr>, w')"
      "modelCalls w' = modelCalls ?w2 + remaining"
      "filter attemptEvent (events w') =
         filter attemptEvent (events ?w2) @ attemptTrace (promptFor block) (attempt + 1) remaining"
    by (elim exE conjE)
  have unfold: "extractAttempts env block result attempt lastError (Suc remaining) w =
      extractAttempts env block result (attempt + 1) (Some (errorMessage (err attempt))) remaining ?w2"
    by (simp add: w1(1))
  have msg: "(if remaining = 0 then Some (errorMessage (err attempt))
              else Some (errorMessage (err (attempt + 1 + remaining - 1)))) =
             Some (errorMessage (err (attempt + Suc remaining - 1)))"
    by simp
  have calls: "modelCalls w' = modelCalls w + Suc remaining" using w'(2) w2(1) by simp
  have trace: "filter attemptEvent (events w') =
      filter attemptEvent (events w) @ attemptTrace (promptFor block) attempt (Suc remaining)"
    unfolding w'(3) w2(2) attemptTrace_Suc by simp
  show ?case
    unfolding unfold w'(1) msg using calls trace by simp
qed

lemma extractAttempts_calls:
  "modelCalls (snd (extractAttempts env block result attempt lastError remaining w)) \<le>
     modelCalls w + remaining"
proof (induction remaining arbitrary: attempt lastError w)
  case 0
  then show ?case by simp
next
  case (Suc remaining)
  obtain r w1 where a: "attemptExtraction env block w = (r, w1)" by (cases "attemptExtraction env block w")
  then have c: "modelCalls w1 = modelCalls w + 1" using attemptExtraction_calls [of env block w] by simp
  show ?case
  proof (cases r)
    case (Inr found)
    then show ?thesis using a c by simp
  next
    case (Inl e)
    have "modelCalls (snd (extractAttempts env block result (attempt + 1) (Some (errorMessage e)) remaining
            (sleep Backoff (backoffMs attempt) w1))) \<le> modelCalls (sleep Backoff (backoffMs attempt) w1) + remaining"
      by (rule Suc.IH)
    then show ?thesis using a c Inl by (simp add: sleep_def)
  qed
qed

text \<open>
  Nothing before the final update writes to the table of videos.
\<close>

lemma attemptExtraction_videos: "videos (snd (attemptExtraction env block w)) = videos w"
  by (simp add: attemptExtraction_def Let_def enforceRateLimit_frame split: model_outcome.splits)

lemma extractAttempts_videos:
  "videos (snd (extractAttempts env block result attempt lastError remaining w)) = videos w"
proof (induction remaining arbitrary: attempt lastError w)
  case 0
  then show ?case by simp
next
  case (Suc remaining)
  obtain r w1 where a: "attemptExtraction env block w = (r, w1)" by (cases "attemptExtraction env block w")
  then have v: "videos w1 = videos w" using attemptExtraction_videos [of env block w] by simp
  show ?case
  proof (cases r)
    case (Inr found)
    then show ?thesis using a v by simp
  next
    case (Inl e)
    have "videos (snd (extractAttempts env block result (attempt + 1) (Some (errorMessage e)) remaining
            (sleep Backoff (backoffMs attempt) w1))) = videos (sleep Backoff (backoffMs attempt) w1)"
      by (rule Suc.IH)
    then show ?thesis using a v Inl by (simp add: sleep_def)
  qed
qed

lemma extractPredictionsFromBlock_videos:
  "videos (snd (extractPredictionsFromBlock env block i retries w)) = videos w"
  by (simp add: extractPredictionsFromBlock_def Let_def extractAttempts_videos)

lemma createPrediction_videos: "videos (snd (createPrediction env vid result p w)) = videos w"
  by (simp add: createPrediction_def databaseCall_def split: list.splits option.splits)

lemma storePredictions_videos:
  "videos (snd (storePredictions env vid result ps stats w)) = videos w"
proof (induction ps arbitrary: stats w)
  case Nil
  then show ?case by simp
next
  case (Cons p ps)
  obtain r w1 where c: "createPrediction env vid result p w = (r, w1)"
    by (cases "createPrediction env vid result p w")
  then have "videos w1 = videos w" using createPrediction_videos [of env vid result p w] by simp
  then show ?case using c Cons.IH by (cases r) simp_all
qed

lemma processBlock_videos: "videos (snd (processBlock env vid stats i block w)) = videos w"
proof -
  obtain result w1 where e: "extractPredictionsFromBlock env block i 3 w = (result, w1)"
    by (cases "extractPredictionsFromBlock env block i 3 w")
  then have "videos w1 = videos w" using extractPredictionsFromBlock_videos [of env block i 3 w] by simp
  then show ?thesis using e by (simp add: processBlock_def storePredictions_videos)
qed

lemma processBlocks_videos: "videos (snd (processBlocks env vid stats i bs w)) = videos w"
proof (induction bs arbitrary: stats i w)
  case Nil
  then show ?case by simp
next
  case (Cons block rest)
  obtain stats1 w1 where p: "processBlock env vid stats i block w = (stats1, w1)"
    by (cases "processBlock env vid stats i block w")
  then have "videos w1 = videos w" using processBlock_videos [of env vid stats i block w] by simp
  then show ?case using p Cons.IH by simp
qed

text \<open>
  The function itself, with a key: when all \<open>retries\<close> attempts fail it returns the initial result
  with the error set, after \<open>retries\<close> model calls, each followed by its backoff.
\<close>

lemma extractPredictionsFromBlock_all_fail:
  assumes key: "isSet (geminiApiKey env)"
    and fail: "\<forall>j<retries. failureOf (js env) (generateContent env (modelCalls w + j) (promptFor block)) =
                 Some (err j)"
  shows "\<exists>w'. extractPredictionsFromBlock env block index retries w =
           (\<lparr> blockIndex = index, startTime = block_startTime block,
              chunkIds = block_chunkIds block, transcriptText = block_text block,
              predictions = [],
              error = Some (if retries = 0 then ''Max retries exceeded''
                            else if errorMessage (err (retries - 1)) = [] then ''Max retries exceeded''
                            else errorMessage (err (retries - 1))) \<rparr>, w') \<and>
         modelCalls w' = modelCalls w + retries \<and>
         filter attemptEvent (events w') = filter attemptEvent (events w) @
           concat (map (\<lambda>attempt. [GenerateContent (promptFor block),
                                      Sleep Backoff (min (1000 * 2 ^ attempt) 10000)]) [0..<retries])"
proof -
  let ?result = "\<lparr> blockIndex = index, startTime = block_startTime block,
                      chunkIds = block_chunkIds block, transcriptText = block_text block,
                      predictions = [], error = None \<rparr>"
  from extractAttempts_all_fail [of retries env w block err 0 ?result None] fail
  obtain w' where w': "extractAttempts env block ?result 0 None retries w =
           (?result \<lparr> error := Some (messageOr (if retries = 0 then None
                                                else Some (errorMessage (err (0 + retries - 1))))
                                       ''Max retries exceeded'') \<rparr>, w')"
      "modelCalls w' = modelCalls w + retries"
      "filter attemptEvent (events w') =
         filter attemptEvent (events w) @ attemptTrace (promptFor block) 0 retries"
    by auto
  show ?thesis
    using key w'
    by (auto simp: extractPredictionsFromBlock_def Let_def messageOr_def attemptTrace_def backoffMs_def)
qed

lemma extractPredictionsFromBlock_calls:
  "modelCalls (snd (extractPredictionsFromBlock env block index retries w)) \<le> modelCalls w + retries"
  using extractAttempts_calls [of env block _ 0 None retries w]
  by (simp add: extractPredictionsFromBlock_def Let_def)

text \<open>
  Without a key no attempt is made.
\<close>

lemma extractPredictionsFromBlock_no_key:
  "\<not> isSet (geminiApiKey env) \<Longrightarrow>
   extractPredictionsFromBlock env block index retries w =
     (\<lparr> blockIndex = index, startTime = block_startTime block,
        chunkIds = block_chunkIds block, transcriptText = block_text block,
        predictions = [],
        error = Some ''GEMINI_API_KEY environment variable is not set'' \<rparr>, w)"
  by (simp add: extractPredictionsFromBlock_def)

text \<open>
  The loop over the blocks returns, having left the videos alone; the update that follows it sets
  the flag when the call succeeds on an existing row and throws otherwise.
\<close>

lemma extractPredictionsForVideo_cases:
  "\<exists>stats w1.
     processBlocks env vid (statsInit (length bs)) 0 bs w = (stats, w1) \<and> videos w1 = videos w \<and>
     (if databaseFailure env (databaseCalls w1) = None \<and> videos w vid \<noteq> None
      then \<exists>w'. extractPredictionsForVideo env vid bs w = (Inr stats, w') \<and>
                map_option predictionsExtracted (videos w' vid) = Some True
      else \<exists>e w'. extractPredictionsForVideo env vid bs w = (Inl e, w') \<and> videos w' = videos w)"
proof -
  obtain stats w1 where p: "processBlocks env vid (statsInit (length bs)) 0 bs w = (stats, w1)"
    by (cases "processBlocks env vid (statsInit (length bs)) 0 bs w")
  have v: "videos w1 = videos w"
    using processBlocks_videos [of env vid "statsInit (length bs)" 0 bs w] by (simp add: p)
  show ?thesis
    using p v
    by (auto simp: extractPredictionsForVideo_def statsInit_def updateVideo_def databaseCall_def
        split: option.splits)
qed

text \<open>
  The insertions of a block: what they add to the errors and how many database calls they make;
  the world they leave does not depend on the statistics.
\<close>

lemma insertFailures_Suc:
  "ids \<noteq> [] \<Longrightarrow>
   insertFailures env ids (Suc n) k =
     (case databaseFailure env k of
        None \<Rightarrow> []
      | Some e \<Rightarrow> [''Failed to store prediction: '' @ errorMessage e]) @
     insertFailures env ids n (Suc k)"
proof -
  have "[0..<Suc n] = 0 # map Suc [0..<n]"
    by (simp only: upt_conv_Cons [of 0 "Suc n"] map_Suc_upt zero_less_Suc)
  then show "ids \<noteq> [] \<Longrightarrow> ?thesis" unfolding insertFailures_def by (simp add: comp_def)
qed

lemma storePredictions_report:
  "fst (storePredictions env vid result ps stats w) =
     stats \<lparr> errors := errors stats @
                insertFailures env (chunkIds result) (length ps) (databaseCalls w) \<rparr> \<and>
   databaseCalls (snd (storePredictions env vid result ps stats w)) =
     databaseCalls w + (if chunkIds result = [] then 0 else length ps)"
proof (induction ps arbitrary: stats w)
  case Nil
  then show ?case by (simp add: insertFailures_def)
next
  case (Cons p ps)
  show ?case
  proof (cases "chunkIds result")
    case Nil
    then have c: "createPrediction env vid result p w = (Inl (JsError missingArgumentMessage), w)"
      by (simp add: createPrediction_def)
    show ?thesis
      using Cons.IH [of "stats \<lparr> errors := errors stats @
          [''Failed to store prediction: '' @ errorMessage (JsError missingArgumentMessage)] \<rparr>" w] Nil
      by (simp add: c insertFailures_def errorMessage_def)
  next
    case (Cons firstChunk others)
    then have ne: "chunkIds result \<noteq> []" by simp
    show ?thesis
    proof (cases "databaseFailure env (databaseCalls w)")
      case None
      then obtain w' where c: "createPrediction env vid result p w = (Inr (), w')"
          and d: "databaseCalls w' = Suc (databaseCalls w)"
        using Cons by (simp add: createPrediction_def databaseCall_def)
      show ?thesis
        using Cons.IH [of stats w'] ne None
        by (simp add: c d insertFailures_Suc [OF ne])
    next
      case (Some e)
      then have c: "createPrediction env vid result p w =
          (Inl e, w \<lparr> databaseCalls := databaseCalls w + 1 \<rparr>)"
        using Cons by (simp add: createPrediction_def databaseCall_def)
      show ?thesis
        using Cons.IH [of "stats \<lparr> errors := errors stats @
            [''Failed to store prediction: '' @ errorMessage e] \<rparr>"
            "w \<lparr> databaseCalls := databaseCalls w + 1 \<rparr>"] ne Some
        by (simp add: c insertFailures_Suc [OF ne])
    qed
  qed
qed

lemma storePredictions_world:
  "snd (storePredictions env vid result ps stats w) = snd (storePredictions env vid result ps stats' w)"
proof (induction ps arbitrary: stats stats' w)
  case Nil
  then show ?case by simp
next
  case (Cons p ps)
  obtain r w1 where c: "createPrediction env vid result p w = (r, w1)"
    by (cases "createPrediction env vid result p w")
  show ?case using Cons.IH by (cases r) (simp_all add: c)
qed

text \<open>
  The extraction makes no database call.
\<close>

lemma enforceRateLimit_databaseCalls: "databaseCalls (enforceRateLimit env w) = databaseCalls w"
  by (simp add: enforceRateLimit_def Let_def sleep_def)

lemma attemptExtraction_databaseCalls:
  "databaseCalls (snd (attemptExtraction env block w)) = databaseCalls w"
  by (simp add: attemptExtraction_def Let_def enforceRateLimit_databaseCalls split: model_outcome.splits)

lemma extractAttempts_databaseCalls:
  "databaseCalls (snd (extractAttempts env block result attempt lastError remaining w)) = databaseCalls w"
proof (induction remaining arbitrary: attempt lastError w)
  case 0
  then show ?case by simp
next
  case (Suc remaining)
  obtain r w1 where a: "attemptExtraction env block w = (r, w1)" by (cases "attemptExtraction env block w")
  then have v: "databaseCalls w1 = databaseCalls w"
    using attemptExtraction_databaseCalls [of env block w] by simp
  show ?case
  proof (cases r)
    case (Inr found)
    then show ?thesis using a v by simp
  next
    case (Inl e)
    have "databaseCalls (snd (extractAttempts env block result (attempt + 1) (Some (errorMessage e))
            remaining (sleep Backoff (backoffMs attempt) w1))) =
          databaseCalls (sleep Backoff (backoffMs attempt) w1)"
      by (rule Suc.IH)
    then show ?thesis using a v Inl by (simp add: sleep_def)
  qed
qed

lemma extractPredictionsFromBlock_databaseCalls:
  "databaseCalls (snd (extractPredictionsFromBlock env block i retries w)) = databaseCalls w"
  by (simp add: extractPredictionsFromBlock_def Let_def extractAttempts_databaseCalls)

text \<open>
  One iteration of the loop over the blocks adds \<open>addBlock\<close> to the statistics; the loop
  returns \<open>reportedStats\<close>, by induction on the blocks from the right.
\<close>

lemma processBlock_report:
  "fst (processBlock env vid stats i block w) =
     addBlock env i (fst (extractPredictionsFromBlock env block i 3 w)) (databaseCalls w) stats"
proof -
  obtain r w1 where e: "extractPredictionsFromBlock env block i 3 w = (r, w1)"
    by (cases "extractPredictionsFromBlock env block i 3 w")
  then have d: "databaseCalls w1 = databaseCalls w"
    using extractPredictionsFromBlock_databaseCalls [of env block i 3 w] by simp
  show ?thesis
  proof (cases "isSet (error r)")
    case True
    then show ?thesis
      by (simp add: processBlock_def e addBlock_def blockFailures_def hasPredictions_def)
  next
    case False
    show ?thesis
    proof (cases "predictions r = []")
      case True
      then show ?thesis using False
        by (simp add: processBlock_def e addBlock_def blockFailures_def hasPredictions_def
            insertFailures_def)
    next
      case ne: False
      then show ?thesis using False
        by (simp add: processBlock_def e d addBlock_def blockFailures_def hasPredictions_def
            storePredictions_report)
    qed
  qed
qed

lemma processBlock_world:
  "snd (processBlock env vid stats i block w) = snd (processBlock env vid stats' i block w)"
proof -
  obtain r w1 where e: "extractPredictionsFromBlock env block i 3 w = (r, w1)"
    by (cases "extractPredictionsFromBlock env block i 3 w")
  show ?thesis
    using storePredictions_world [of env vid r "predictions r" _ w1 _]
    by (simp add: processBlock_def e)
qed

lemma processBlocks_world:
  "snd (processBlocks env vid stats i bs w) = snd (processBlocks env vid stats' i bs w)"
proof (induction bs arbitrary: stats stats' i w)
  case Nil
  then show ?case by simp
next
  case (Cons block rest)
  obtain s1 w1 where p: "processBlock env vid stats i block w = (s1, w1)"
    by (cases "processBlock env vid stats i block w")
  obtain s2 w2 where q: "processBlock env vid stats' i block w = (s2, w2)"
    by (cases "processBlock env vid stats' i block w")
  have "w1 = w2" using processBlock_world [of env vid stats i block w stats'] p q by simp
  then show ?case using Cons.IH [of s1 "i + 1" w1 s2] p q by simp
qed

lemma processBlocks_snoc:
  "processBlocks env vid stats i (xs @ [b]) w =
     processBlock env vid (fst (processBlocks env vid stats i xs w)) (i + length xs) b
       (snd (processBlocks env vid stats i xs w))"
proof (induction xs arbitrary: stats i w)
  case Nil
  then show ?case by (simp split: prod.splits)
next
  case (Cons x xs)
  obtain s1 w1 where p: "processBlock env vid stats i x w = (s1, w1)"
    by (cases "processBlock env vid stats i x w")
  show ?case using Cons.IH [of s1 "i + 1" w1] by (simp add: p)
qed

lemma blockWorld_append:
  "i \<le> length xs \<Longrightarrow> blockWorld env vid (xs @ ys) w i = blockWorld env vid xs w i"
  by (simp add: blockWorld_def)

lemma blockResult_append:
  "i < length xs \<Longrightarrow> blockResult env vid (xs @ ys) w i = blockResult env vid xs w i"
  by (simp add: blockResult_def blockWorld_append nth_append)

lemma blockWorld_all:
  "blockWorld env vid bs w (length bs) = snd (processBlocks env vid stats 0 bs w)"
  using processBlocks_world [of env vid "statsInit 0" 0 bs w stats] by (simp add: blockWorld_def)

lemma reportedStats_snoc:
  "reportedStats env vid (xs @ [b]) w =
     (addBlock env (length xs) (blockResult env vid (xs @ [b]) w (length xs))
        (databaseCalls (blockWorld env vid (xs @ [b]) w (length xs)))
        (reportedStats env vid xs w)) \<lparr> totalBlocks := Suc (length xs) \<rparr>"
proof -
  have r: "i \<in> set [0..<length xs] \<Longrightarrow>
           blockResult env vid (xs @ [b]) w i = blockResult env vid xs w i" for i
    by (simp add: blockResult_append)
  have k: "i \<in> set [0..<length xs] \<Longrightarrow>
           blockWorld env vid (xs @ [b]) w i = blockWorld env vid xs w i" for i
    by (simp add: blockWorld_append)
  have f: "filter (\<lambda>i. hasPredictions (blockResult env vid (xs @ [b]) w i)) [0..<length xs] =
           filter (\<lambda>i. hasPredictions (blockResult env vid xs w i)) [0..<length xs]"
    by (rule filter_cong) (simp_all add: r)
  have t: "map (\<lambda>i. if isSet (error (blockResult env vid (xs @ [b]) w i)) then 0
                       else length (predictions (blockResult env vid (xs @ [b]) w i))) [0..<length xs] =
           map (\<lambda>i. if isSet (error (blockResult env vid xs w i)) then 0
                       else length (predictions (blockResult env vid xs w i))) [0..<length xs]"
    by (rule map_cong) (simp_all add: r)
  have e: "map (\<lambda>i. blockFailures env i (blockResult env vid (xs @ [b]) w i)
                       (databaseCalls (blockWorld env vid (xs @ [b]) w i))) [0..<length xs] =
           map (\<lambda>i. blockFailures env i (blockResult env vid xs w i)
                       (databaseCalls (blockWorld env vid xs w i))) [0..<length xs]"
    by (rule map_cong) (simp_all add: r k)
  show ?thesis
    by (simp add: reportedStats_def addBlock_def f t e)
qed

lemma processBlocks_report:
  "fst (processBlocks env vid (statsInit n) 0 bs w) = (reportedStats env vid bs w) \<lparr> totalBlocks := n \<rparr>"
proof (induction bs rule: rev_induct)
  case Nil
  then show ?case by (simp add: reportedStats_def statsInit_def)
next
  case (snoc b xs)
  have w: "snd (processBlocks env vid (statsInit n) 0 xs w) = blockWorld env vid (xs @ [b]) w (length xs)"
    using blockWorld_all [of env vid xs w "statsInit n"] by (simp add: blockWorld_append)
  have "fst (processBlocks env vid (statsInit n) 0 (xs @ [b]) w) =
        addBlock env (length xs) (blockResult env vid (xs @ [b]) w (length xs))
          (databaseCalls (blockWorld env vid (xs @ [b]) w (length xs)))
          ((reportedStats env vid xs w) \<lparr> totalBlocks := n \<rparr>)"
    by (simp add: processBlocks_snoc processBlock_report snoc.IH w blockResult_def)
  then show ?case
    by (simp add: reportedStats_snoc addBlock_def)
qed

lemma processBlocks_reported:
  "processBlocks env vid (statsInit (length bs)) 0 bs w =
     (reportedStats env vid bs w, blockWorld env vid bs w (length bs))"
proof -
  have "(reportedStats env vid bs w) \<lparr> totalBlocks := length bs \<rparr> = reportedStats env vid bs w"
    by (simp add: reportedStats_def)
  then have "fst (processBlocks env vid (statsInit (length bs)) 0 bs w) = reportedStats env vid bs w"
    by (simp add: processBlocks_report)
  moreover have "snd (processBlocks env vid (statsInit (length bs)) 0 bs w) =
      blockWorld env vid bs w (length bs)"
    by (rule blockWorld_all [symmetric])
  ultimately show ?thesis by (simp add: prod_eq_iff)
qed

text \<open>
  An attempt that succeeds at once, and the database calls of one iteration.
\<close>

lemma extractPredictionsFromBlock_first_success:
  assumes "isSet (geminiApiKey env)"
    and "generateContent env (modelCalls w) (promptFor block) = ModelText answer"
    and "parseJsonResponse (js env) answer = Inr ps"
  shows "fst (extractPredictionsFromBlock env block i (Suc n) w) =
           \<lparr> blockIndex = i, startTime = block_startTime block,
             chunkIds = block_chunkIds block, transcriptText = block_text block,
             predictions = ps, error = None \<rparr>"
  using assms
  by (simp add: extractPredictionsFromBlock_def attemptExtraction_def Let_def
      enforceRateLimit_frame)

lemma processBlock_databaseCalls:
  "databaseCalls (snd (processBlock env vid stats i block w)) =
     databaseCalls w +
     (if isSet (error (fst (extractPredictionsFromBlock env block i 3 w))) \<or>
         chunkIds (fst (extractPredictionsFromBlock env block i 3 w)) = []
      then 0 else length (predictions (fst (extractPredictionsFromBlock env block i 3 w))))"
proof -
  obtain r w1 where e: "extractPredictionsFromBlock env block i 3 w = (r, w1)"
    by (cases "extractPredictionsFromBlock env block i 3 w")
  then have d: "databaseCalls w1 = databaseCalls w"
    using extractPredictionsFromBlock_databaseCalls [of env block i 3 w] by simp
  show ?thesis
    by (simp add: processBlock_def e d storePredictions_report)
qed

section \<open>Properties of the pipeline\<close>

text \<open>
  An assignment to the result returns; so does the outer \<^verbatim>\<open>try\<close>, whatever its body
  does, because the handler only assigns.
\<close>

lemma update_returns: "update f s = (Inr (), (f (fst s), snd s))"
  by (simp add: update_def modify_def)

lemma tryCatch_pipelineCatch:
  "\<exists>s'. tryCatch m pipelineCatch s = (Inr (), s')"
  by (cases "m s") (auto simp: tryCatch_def pipelineCatch_def update_returns split: sum.splits)

lemma runIngestionPipeline_returns:
  "\<exists>r w'. runIngestionPipeline c channel opts w = (Inr r, w')"
proof -
  obtain startedAt w0 where t: "currentTime c w = (startedAt, w0)" by (cases "currentTime c w")
  obtain r w1 where b: "tryCatch (pipelineBody c channel opts) pipelineCatch (initialResult channel, w0) = (Inr (), (r, w1))"
    using tryCatch_pipelineCatch [of "pipelineBody c channel opts" "(initialResult channel, w0)"]
    by auto
  show ?thesis
    by (simp add: runIngestionPipeline_def t b split: prod.splits)
qed

text \<open>
  Stage 1 returns and leaves the other stages and the creator id as they were.  When no creator
  is found after it, the handler files the message and the function returns the result.
\<close>

lemma videoFetchStage_returns:
  "\<exists>r' w'. videoFetchStage c channel opts (r, w) = (Inr (), (r', w')) \<and>
           transcriptFetch r' = transcriptFetch r \<and> predictionExtraction r' = predictionExtraction r \<and>
           result_creatorId r' = result_creatorId r"
proof (cases "skipVideoFetch opts")
  case True
  then show ?thesis by (simp add: videoFetchStage_def update_returns)
next
  case False
  obtain outcome w1 where f: "fetchVideosForChannel c channel
      (case maxVideos opts of None \<Rightarrow> 50 | Some n \<Rightarrow> if n = 0 then 50 else n) w = (outcome, w1)"
    by (cases "fetchVideosForChannel c channel
      (case maxVideos opts of None \<Rightarrow> 50 | Some n \<Rightarrow> if n = 0 then 50 else n) w")
  show ?thesis
    using False f
    by (cases outcome) (simp_all add: videoFetchStage_def tryCatch_def andThen_def await_def update_returns)
qed

lemma runIngestionPipeline_creator_missing:
  assumes "creatorFindUnique c channel (snd (afterDiscovery c channel opts w)) = (Inr None, w2)"
  shows "runIngestionPipeline c channel opts w =
     (Inr ((creatorNotFound channel (fst (afterDiscovery c channel opts w)))
             \<lparr> totalDurationMs := fst (currentTime c w2) - fst (currentTime c w),
               completedAt := fst (currentIsoString c (snd (currentTime c w2))) \<rparr>),
      snd (currentIsoString c (snd (currentTime c w2))))"
proof -
  obtain startedAt w0 where t: "currentTime c w = (startedAt, w0)" by (cases "currentTime c w")
  obtain r1 w1 where v: "videoFetchStage c channel opts (initialResult channel, w0) = (Inr (), (r1, w1))"
      and keep: "transcriptFetch r1 = transcriptFetch (initialResult channel)"
    using videoFetchStage_returns [of c channel opts "initialResult channel" w0] by auto
  have a: "afterDiscovery c channel opts w = (r1, w1)" by (simp add: afterDiscovery_def t v)
  have f: "creatorFindUnique c channel w1 = (Inr None, w2)" using assms a by simp
  have tf: "\<not> transcriptFetch_success (transcriptFetch r1)" by (simp add: keep initialResult_def)
  have errs: "transcriptFetch_errors (transcriptFetch r1) = []" by (simp add: keep initialResult_def)
  have body: "pipelineBody c channel opts (initialResult channel, w0) =
      (Inl (JsError (''Creator not found for channel: '' @ channel)), (r1, w2))"
    by (simp add: pipelineBody_def andThen_def v await_def f throwError_def)
  have caught: "tryCatch (pipelineBody c channel opts) pipelineCatch (initialResult channel, w0) =
      (Inr (), (creatorNotFound channel r1, w2))"
    using tf errs by (simp add: tryCatch_def body pipelineCatch_def update_returns creatorNotFound_def errorMessage_def)
  show ?thesis
    by (simp add: runIngestionPipeline_def t caught a split: prod.splits)
qed

section \<open>Properties of the transcript fetcher and of the lock\<close>

text \<open>
  Whatever the body of the outer \<^verbatim>\<open>try\<close> does, the function returns: a throw reaches the
  handler, which only assigns and makes one guarded database call.
\<close>

lemma fetchTranscriptForVideo_returns:
  "\<exists>r w'. fetchTranscriptForVideo env vid w = (Inr r, w')"
proof -
  obtain b w1 where body: "fetchTranscriptBody env vid
      \<lparr> success = False, fetchedVideoId = vid, chunksStored = 0, fetchError = None,
        transcriptEntries = None \<rparr> w = (b, w1)"
    by (cases "fetchTranscriptBody env vid
      \<lparr> success = False, fetchedVideoId = vid, chunksStored = 0, fetchError = None,
        transcriptEntries = None \<rparr> w")
  show ?thesis
  proof (cases b)
    case (Inr returned)
    then show ?thesis using body by (simp add: fetchTranscriptForVideo_def)
  next
    case (Inl err)
    then show ?thesis using body
      by (auto simp: fetchTranscriptForVideo_def fetchTranscriptCatch_def Let_def
          split: prod.splits sum.splits)
  qed
qed

text \<open>
  A video already marked costs one database read and nothing else.
\<close>

lemma fetchTranscriptForVideo_already_fetched:
  assumes "databaseFailure env (databaseCalls w) = None"
    and "videos w vid = Some v" and "transcriptFetched v"
  shows "fetchTranscriptForVideo env vid w =
           (Inr \<lparr> success = True, fetchedVideoId = vid, chunksStored = 0,
                  fetchError = Some ''Transcript already fetched'', transcriptEntries = None \<rparr>,
            w \<lparr> databaseCalls := databaseCalls w + 1 \<rparr>)"
  using assms
  by (simp add: fetchTranscriptForVideo_def fetchTranscriptBody_def findUniqueVideo_def
      databaseCall_def)

text \<open>
  The lock: taking it, being refused it, and a guarded run from start to finish.
\<close>

lemma markPipelineRunning_cases:
  "markPipelineRunning channel running =
     (channel \<notin> running, if channel \<in> running then running else insert channel running)"
  by (simp add: markPipelineRunning_def)

lemma runIngestionPipelineWithLock_refused:
  "channel \<in> runningPipelines p \<Longrightarrow>
   runIngestionPipelineWithLock run channel opts p = (Inr None, p)"
  by (simp add: runIngestionPipelineWithLock_def markPipelineRunning_def)

lemma runIngestionPipelineWithLock_released:
  assumes "channel \<notin> runningPipelines p"
  shows "runIngestionPipelineWithLock run channel opts p =
           (map_sum id Some
              (fst (run channel opts (p \<lparr> runningPipelines := insert channel (runningPipelines p) \<rparr>))),
            (snd (run channel opts (p \<lparr> runningPipelines := insert channel (runningPipelines p) \<rparr>)))
              \<lparr> runningPipelines :=
                  runningPipelines
                    (snd (run channel opts
                           (p \<lparr> runningPipelines := insert channel (runningPipelines p) \<rparr>))) -
                  {channel} \<rparr>)"
  using assms
  by (simp add: runIngestionPipelineWithLock_def markPipelineRunning_def markPipelineComplete_def
      split: prod.splits)

section \<open>Facts about the sample inputs\<close>

text \<open>
  The three attempts against \<open>flakyModel\<close> fail with \<open>flakyFailure\<close>; the answer of
  \<open>lostConnection\<close> parses to one prediction.
\<close>

lemma flakyModel_fails:
  "isSet (geminiApiKey flakyModel)"
  "failureOf (js flakyModel) (generateContent flakyModel 0 (promptFor sampleBlock)) = Some (flakyFailure 0)"
  "failureOf (js flakyModel) (generateContent flakyModel 1 (promptFor sampleBlock)) = Some (flakyFailure 1)"
  "failureOf (js flakyModel) (generateContent flakyModel 2 (promptFor sampleBlock)) = Some (flakyFailure 2)"
  "errorMessage (flakyFailure 2) = ''No JSON array found in response''"
  by code_simp+

lemma goldAnswer:
  "parseJsonResponse sampleEngine (utf16 ''[{\"claim\":\"Gold will rise\"}]'') =
     Inr [\<lparr> claim = utf16 ''Gold will rise'', asset = None, horizonMonths = None,
             confidence = utf16 ''medium'', predictionType = utf16 ''direction'' \<rparr>]"
  by code_simp

section \<open>Claims about the segmenter\<close>

text \<open>
  Claim C1, as stated, has the running block finalized exactly when the chunk just appended is
  the last of the input or the thresholds are met. It fails when the input ends in a blank chunk:
  below, the only chunk with text is not the last chunk and has four words, no iteration of the
  loop closes a block, and yet the block is in the output. It is closed after the loop
  (\<^verbatim>\<open>// Handle any remaining text\<close>).
\<close>

theorem segmentTranscript_trailing_blank_chunk:
  "segmentTranscript (createMockChunks [''The market will rise'', ''  '']) =
     [\<lparr> block_text = ''The market will rise'', block_startTime = 0,
        block_chunkIds = [''chunk-0''] \<rparr>] \<and>
   blocks (segmentLoop (createMockChunks [''The market will rise'', ''  '']) 2) = [] \<and>
   closesBlock 0 2
     (accumulated (segmentLoop (createMockChunks [''The market will rise'', ''  '']) 0)
        (createMockChunks [''The market will rise'', ''  ''] ! 0)) 1 = False \<and>
   trim (chunk_text (createMockChunks [''The market will rise'', ''  ''] ! 1)) = []"
  by code_simp

text \<open>
  Claim C1, amended. The loop of \<^verbatim>\<open>segmentTranscript\<close> starts with no block and no text. At
  iteration \<open>i\<close>, a chunk whose text is empty or only white space leaves the loop variables as
  they are (it neither opens nor extends a block); for any other chunk, the running block is
  closed and appended to the output exactly when, after the chunk has been appended, the chunk is
  the last one of the input, or the accumulated word count is at least 30 and the accumulated
  trimmed text ends in \<^verbatim>\<open>.\<close>, \<^verbatim>\<open>!\<close> or \<^verbatim>\<open>?\<close>, or the word count is at least 120, or
  the block holds at least 5 chunks; otherwise the block stays open, extended by the chunk. What
  \<^verbatim>\<open>segmentTranscript\<close> returns is the blocks the loop has closed followed, when text is
  still open after the last iteration, by that text as one more block (\<open>residual\<close>); there is
  no such block when the last chunk of the input has text.
\<close>

theorem segmentTranscript_finalizes_exactly_when:
  assumes "i < length chunks"
  shows "let before = segmentLoop chunks i; after = segmentLoop chunks (Suc i); chunk = chunks ! i;
             final = segmentLoop chunks (length chunks)
     in (if trim (chunk_text chunk) = [] then after = before
         else if closesBlock i (length chunks) (accumulated before chunk)
                   (length (currentChunkIds before) + 1)
         then after =
                \<lparr> blocks = blocks before @
                    [\<lparr> block_text = trim (accumulated before chunk),
                       block_startTime = currentStartTime before,
                       block_chunkIds = currentChunkIds before @ [chunk_id chunk] \<rparr>],
                  currentText = [],
                  currentStartTime =
                    (if i + 1 < length chunks then chunk_startTime (chunks ! (i + 1))
                     else currentStartTime before),
                  currentChunkIds = [] \<rparr>
         else after = before \<lparr> currentText := accumulated before chunk,
                                currentChunkIds := currentChunkIds before @ [chunk_id chunk] \<rparr>) \<and>
        segmentLoop chunks 0 =
          \<lparr> blocks = [], currentText = [], currentStartTime = chunk_startTime (chunks ! 0),
            currentChunkIds = [] \<rparr> \<and>
        segmentTranscript chunks = blocks final @ residual final \<and>
        (trim (chunk_text (last chunks)) \<noteq> [] \<longrightarrow> residual final = [])"
proof -
  have step: "segmentLoop chunks (Suc j) = segmentStep chunks (segmentLoop chunks j) j" for j
    by (rule segmentLoop_Suc)
  have init: "segmentLoop chunks 0 =
      \<lparr> blocks = [], currentText = [], currentStartTime = chunk_startTime (chunks ! 0),
        currentChunkIds = [] \<rparr>"
    by (simp add: segmentLoop_def segmentInit_def)
  obtain j where j: "length chunks = Suc j"
    using assms by (cases "length chunks") auto
  then have ne: "chunks \<noteq> []" and jlt: "j < length chunks" by auto
  have lastc: "last chunks = chunks ! j"
    using last_conv_nth [OF ne] j by simp
  have res: "residual (segmentLoop chunks (length chunks)) = []"
    if "trim (chunk_text (last chunks)) \<noteq> []"
  proof -
    have nb: "trim (chunk_text (chunks ! j)) \<noteq> []" using that lastc by simp
    have cl: "closesBlock j (length chunks) acc k" for acc k
      using j by (simp add: closesBlock_def)
    have "currentText (segmentStep chunks (segmentLoop chunks j) j) = []"
      unfolding segmentStep_unfold [OF jlt] using nb cl by simp
    then have "currentText (segmentLoop chunks (length chunks)) = []"
      unfolding j step [of j] .
    then show ?thesis by (simp add: residual_def trim_Nil)
  qed
  show ?thesis
    unfolding Let_def step [of i]
    using init res by (simp add: segmentStep_unfold [OF assms] segmentTranscript_residual)
qed

theorem segmentTranscript_finalizes_exactly_when_witness:
  "0 < length (createMockChunks [wordsText 29 @ '' end.'', ''More text'', ''  '']) \<and>
   blocks (segmentLoop (createMockChunks [wordsText 29 @ '' end.'', ''More text'', ''  '']) (Suc 0)) =
     [\<lparr> block_text = wordsText 29 @ '' end.'', block_startTime = 0,
        block_chunkIds = [''chunk-0''] \<rparr>] \<and>
   segmentTranscript (createMockChunks [wordsText 29 @ '' end.'', ''More text'', ''  '']) =
     [\<lparr> block_text = wordsText 29 @ '' end.'', block_startTime = 0,
        block_chunkIds = [''chunk-0''] \<rparr>,
      \<lparr> block_text = ''More text'', block_startTime = 5, block_chunkIds = [''chunk-1''] \<rparr>] \<and>
   residual (segmentLoop (createMockChunks [''First'', ''Second'']) 2) = []"
proof -
  let ?ex = "createMockChunks [wordsText 29 @ '' end.'', ''More text'', ''  '']"
  let ?two = "createMockChunks [''First'', ''Second'']"
  have h2: "0 < length ?two" "length ?two = 2" by (simp_all add: createMockChunks_def)
  have l2: "trim (chunk_text (last ?two)) \<noteq> []" by code_simp
  from segmentTranscript_finalizes_exactly_when [OF h2(1), unfolded Let_def] l2
  have c: "residual (segmentLoop ?two 2) = []"
    unfolding h2(2) by blast
  have h: "0 < length ?ex" by (simp add: createMockChunks_def)
  have nb: "trim (chunk_text (?ex ! 0)) \<noteq> []" by code_simp
  have cl: "closesBlock 0 (length ?ex) (accumulated (segmentLoop ?ex 0) (?ex ! 0))
              (length (currentChunkIds (segmentLoop ?ex 0)) + 1)"
    by code_simp
  have before: "blocks (segmentLoop ?ex 0) = []" "currentChunkIds (segmentLoop ?ex 0) = []"
      "currentStartTime (segmentLoop ?ex 0) = 0"
    by (simp_all add: segmentLoop_def segmentInit_def createMockChunks_def)
  have acc: "trim (accumulated (segmentLoop ?ex 0) (?ex ! 0)) = wordsText 29 @ '' end.''"
    by code_simp
  have cid: "chunk_id (?ex ! 0) = ''chunk-0''" by code_simp
  have fin: "blocks (segmentLoop ?ex (length ?ex)) @ residual (segmentLoop ?ex (length ?ex)) =
     [\<lparr> block_text = wordsText 29 @ '' end.'', block_startTime = 0,
        block_chunkIds = [''chunk-0''] \<rparr>,
      \<lparr> block_text = ''More text'', block_startTime = 5, block_chunkIds = [''chunk-1''] \<rparr>]"
    by code_simp
  note main = segmentTranscript_finalizes_exactly_when [OF h, unfolded Let_def]
  from main nb cl
  have "blocks (segmentLoop ?ex (Suc 0)) = blocks (segmentLoop ?ex 0) @
          [\<lparr> block_text = trim (accumulated (segmentLoop ?ex 0) (?ex ! 0)),
             block_startTime = currentStartTime (segmentLoop ?ex 0),
             block_chunkIds = currentChunkIds (segmentLoop ?ex 0) @ [chunk_id (?ex ! 0)] \<rparr>]"
    by simp
  then have a: "blocks (segmentLoop ?ex (Suc 0)) =
     [\<lparr> block_text = wordsText 29 @ '' end.'', block_startTime = 0,
        block_chunkIds = [''chunk-0''] \<rparr>]"
    using before acc cid by simp
  from main have "segmentTranscript ?ex =
      blocks (segmentLoop ?ex (length ?ex)) @ residual (segmentLoop ?ex (length ?ex))"
    by blast
  then have b: "segmentTranscript ?ex =
     [\<lparr> block_text = wordsText 29 @ '' end.'', block_startTime = 0,
        block_chunkIds = [''chunk-0''] \<rparr>,
      \<lparr> block_text = ''More text'', block_startTime = 5, block_chunkIds = [''chunk-1''] \<rparr>]"
    by (simp only: fin)
  show ?thesis by (rule conjI [OF h conjI [OF a conjI [OF b c]]])
qed

text \<open>
  Claim C7 says that a block starts at the start time of the first chunk whose text it
  contains. The source sets \<^verbatim>\<open>currentStartTime\<close> from \<^verbatim>\<open>chunks[0]\<close> and, after closing a block,
  from \<^verbatim>\<open>chunks[i + 1]\<close>, before it knows whether that chunk is blank. On the input below the
  only block holds the text and the id of chunk 1 (start time 5) and has the start time 0 of
  the blank chunk 0.
\<close>

theorem segmentTranscript_startTime_of_blank_chunk:
  "segmentTranscript (createMockChunks [''  '', ''Hello.'']) =
     [\<lparr> block_text = ''Hello.'', block_startTime = 0, block_chunkIds = [''chunk-1''] \<rparr>] \<and>
   map chunk_id (createMockChunks [''  '', ''Hello.'']) = [''chunk-0'', ''chunk-1''] \<and>
   map chunk_startTime (createMockChunks [''  '', ''Hello.'']) = [0, 5]"
  by code_simp

text \<open>
  Claim C8, as stated, bounds a block by 120 words unless a single chunk alone exceeds 120
  words. It fails: chunks of 61, 60 and 1 words give a first block of 121 words.
\<close>

theorem segmentTranscript_block_over_120_words:
  "map (countWords \<circ> chunk_text) (createMockChunks [wordsText 61, wordsText 60, ''end.'']) =
     [61, 60, 1] \<and>
   map (countWords \<circ> block_text)
     (segmentTranscript (createMockChunks [wordsText 61, wordsText 60, ''end.''])) = [121, 1]"
  by code_simp

text \<open>
  Claim C8, amended. Every emitted block except possibly the last has at least 30 words.
  The text carried from one chunk to the next has fewer than 120 words: a block is closed by
  the first chunk that brings it to 120 words or more. So every block has fewer than 120 words
  plus the words of one chunk of the input (the chunk that closed it).
\<close>

theorem segmentTranscript_word_bounds:
  "(\<forall>b\<in>set (butlast (segmentTranscript chunks)). 30 \<le> countWords (block_text b)) \<and>
   (\<forall>i\<le>length chunks. countWords (currentText (segmentLoop chunks i)) < 120) \<and>
   (\<forall>b\<in>set (segmentTranscript chunks).
      \<exists>c\<in>set chunks. countWords (block_text b) < 120 + countWords (chunk_text c))"
proof (cases "chunks = []")
  case True
  then show ?thesis by (simp add: segmentTranscript_def segmentLoop_def segmentInit_def countWords_Nil)
next
  case False
  define n where "n = length chunks - 1"
  have n: "n < length chunks" "Suc n = length chunks" using False by (simp_all add: n_def)
  let ?st = "segmentLoop chunks n" and ?fin = "segmentLoop chunks (length chunks)"
  have small: "countWords (currentText ?st) < 120" using n by (simp add: segmentLoop_small)
  have fin: "?fin = segmentStep chunks ?st n" using n segmentLoop_Suc [of chunks n] by simp
  have early: "\<forall>b\<in>set (blocks ?st). 30 \<le> countWords (block_text b)"
    using segmentLoop_min_words [OF n(1)] .
  have tail: "\<exists>ext. segmentTranscript chunks = blocks ?st @ ext \<and> length ext \<le> 1"
  proof -
    from segmentStep_effect [OF n(1) small]
    consider "blocks ?fin = blocks ?st"
      | b where "blocks ?fin = blocks ?st @ [b]" "currentText ?fin = []"
      unfolding fin by auto
    then show ?thesis
    proof cases
      case 1
      then show ?thesis by (simp add: segmentTranscript_residual residual_def)
    next
      case 2
      then show ?thesis by (simp add: segmentTranscript_residual residual_def trim_def)
    qed
  qed
  then obtain ext where ext: "segmentTranscript chunks = blocks ?st @ ext" "length ext \<le> 1" by auto
  have "set (butlast (segmentTranscript chunks)) \<subseteq> set (blocks ?st)"
  proof (cases ext)
    case Nil
    then show ?thesis using ext by (auto dest: in_set_butlastD)
  next
    case (Cons e es)
    then have "ext = [e]" using ext(2) by simp
    then show ?thesis using ext by (simp add: butlast_append)
  qed
  then have a: "\<forall>b\<in>set (butlast (segmentTranscript chunks)). 30 \<le> countWords (block_text b)"
    using early by auto
  have b: "\<forall>i\<le>length chunks. countWords (currentText (segmentLoop chunks i)) < 120"
    by (simp add: segmentLoop_small)
  obtain c0 where c0: "c0 \<in> set chunks" using False by (cases chunks) auto
  have "\<forall>b\<in>set (residual ?fin). countWords (block_text b) < 120 + countWords (chunk_text c0)"
    using segmentLoop_small [of "length chunks" chunks]
    by (simp add: residual_def countWords_trim)
  then have c: "\<forall>b\<in>set (segmentTranscript chunks).
      \<exists>c\<in>set chunks. countWords (block_text b) < 120 + countWords (chunk_text c)"
    using segmentLoop_blocks [of "length chunks" chunks] c0
    by (auto simp: segmentTranscript_residual)
  from a b c show ?thesis by blast
qed

theorem segmentTranscript_word_bounds_witness:
  "butlast (segmentTranscript (createMockChunks [wordsText 61, wordsText 60, ''end.''])) \<noteq> [] \<and>
   list_all (\<lambda>b. 30 \<le> countWords (block_text b))
     (butlast (segmentTranscript (createMockChunks [wordsText 61, wordsText 60, ''end.''])))"
proof -
  let ?ex = "createMockChunks [wordsText 61, wordsText 60, ''end.'']"
  have "butlast (segmentTranscript ?ex) \<noteq> []" by code_simp
  moreover have "list_all (\<lambda>b. 30 \<le> countWords (block_text b)) (butlast (segmentTranscript ?ex))"
    using segmentTranscript_word_bounds [of ?ex] by (simp add: list_all_iff)
  ultimately show ?thesis by simp
qed

text \<open>
  Claim C9, as stated, gives exactly \<open>\<lceil>n / k\<rceil>\<close> blocks for every input. It fails where a group
  of chunks is blank: one blank chunk with \<open>k = 1\<close> gives no block, and \<open>\<lceil>1 / 1\<rceil> = 1\<close>.
\<close>

theorem segmentByChunkCount_blank_group_dropped:
  "segmentByChunkCount (createMockChunks [''  '']) 1 = Some [] \<and>
   blockCount (length (createMockChunks [''  ''])) 1 = 1"
  by code_simp

text \<open>
  Claim C9, amended. For \<open>k \<ge> 1\<close>, \<^verbatim>\<open>segmentByChunkCount(chunks, k)\<close> returns one block for each
  of the \<open>\<lceil>n / k\<rceil>\<close> consecutive groups of \<open>k\<close> chunks whose space-joined text is not blank, in
  order: at most \<open>\<lceil>n / k\<rceil>\<close> blocks, and exactly \<open>\<lceil>n / k\<rceil>\<close> when every group holds a chunk that
  is not blank. Every block carries between 1 and \<open>k\<close> chunk ids and every block but the last
  carries exactly \<open>k\<close>.
\<close>

theorem segmentByChunkCount_blocks:
  assumes k: "0 < k"
  shows "\<exists>bs. segmentByChunkCount chunks k = Some bs \<and>
     bs = map groupBlock (filter nonBlankGroup (chunkGroups chunks k)) \<and>
     length bs \<le> blockCount (length chunks) k \<and>
     ((\<forall>g\<in>set (chunkGroups chunks k). \<exists>c\<in>set g. trim (chunk_text c) \<noteq> []) \<longrightarrow>
        length bs = blockCount (length chunks) k) \<and>
     (\<forall>b\<in>set (butlast bs). length (block_chunkIds b) = k) \<and>
     (\<forall>b\<in>set bs. 0 < length (block_chunkIds b) \<and> length (block_chunkIds b) \<le> k)"
proof -
  let ?m = "blockCount (length chunks) k"
  let ?gs = "chunkGroups chunks k"
  let ?bs = "map groupBlock (filter nonBlankGroup ?gs)"
  have run: "segmentByChunkCount chunks k = Some ?bs" by (rule segmentByChunkCount_groups [OF k])
  have le: "length ?bs \<le> ?m"
    using length_filter_le [of nonBlankGroup ?gs] by (simp add: chunkGroups_length)
  have exact: "length ?bs = ?m"
    if "\<forall>g\<in>set ?gs. \<exists>c\<in>set g. trim (chunk_text c) \<noteq> []"
  proof -
    have "\<forall>g\<in>set ?gs. nonBlankGroup g" using that nonBlankGroup_member by blast
    then have "filter nonBlankGroup ?gs = ?gs" by (simp add: filter_id_conv)
    then show ?thesis by (simp add: chunkGroups_length)
  qed
  have ids: "block_chunkIds (groupBlock g) = map chunk_id g" for g :: "'a TranscriptChunk list"
    by (simp add: groupBlock_def)
  have sizes: "0 < length (block_chunkIds b) \<and> length (block_chunkIds b) \<le> k" if "b \<in> set ?bs" for b
  proof -
    from that obtain g where g: "g \<in> set ?gs" "b = groupBlock g" by auto
    then obtain j where j: "j < length ?gs" "g = ?gs ! j" by (auto simp: in_set_conv_nth)
    then have "j < ?m" by (simp add: chunkGroups_length)
    from chunkGroups_sizes(1,2) [OF k this] show ?thesis using g(2) j(2) by (simp add: ids)
  qed
  have full: "length (block_chunkIds b) = k" if "b \<in> set (butlast ?bs)" for b
  proof (cases "?m = 0")
    case True
    then have "?gs = []" by (simp add: chunkGroups_def)
    with that show ?thesis by simp
  next
    case False
    define f where "f = (\<lambda>j. take k (drop (j * k) chunks))"
    have split: "?gs = map f [0..<?m - 1] @ [f (?m - 1)]"
    proof -
      have "[0..<?m] = [0..<?m - 1] @ [?m - 1]"
        using False by (metis Suc_pred' neq0_conv upt_Suc_append zero_le)
      then show ?thesis by (simp add: chunkGroups_def f_def)
    qed
    have "butlast ?bs = map groupBlock (butlast (filter nonBlankGroup ?gs))"
      by (simp add: map_butlast)
    with that obtain g where g: "g \<in> set (butlast (filter nonBlankGroup ?gs))" "b = groupBlock g"
      by auto
    have "g \<in> set (map f [0..<?m - 1])"
      using g(1) butlast_filter_snoc [of nonBlankGroup "map f [0..<?m - 1]" "f (?m - 1)"] split
      by auto
    then obtain j where j: "j < ?m - 1" "g = f j" by auto
    have jm: "j < ?m" "Suc j < ?m" using j(1) by simp_all
    have "g = ?gs ! j" using j(2) jm(1) by (simp add: chunkGroups_def f_def)
    then have "length g = k" using chunkGroups_sizes(3) [OF k jm(1) jm(2)] by simp
    then show ?thesis using g(2) by (simp add: ids)
  qed
  from run le exact sizes full show ?thesis by blast
qed

theorem segmentByChunkCount_blocks_witness:
  "(0::nat) < 3 \<and>
   map_option (map (length \<circ> block_chunkIds))
     (segmentByChunkCount
        (createMockChunks [''One'', ''Two'', ''Three'', ''Four'', ''Five'', ''Six'', ''Seven'']) 3) =
     Some [3, 3, 1]"
proof -
  let ?ex = "createMockChunks [''One'', ''Two'', ''Three'', ''Four'', ''Five'', ''Six'', ''Seven'']"
  have "segmentByChunkCount ?ex 3 = Some (map groupBlock (filter nonBlankGroup (chunkGroups ?ex 3)))"
    using segmentByChunkCount_blocks [of 3 ?ex] by simp
  moreover have "map (length \<circ> block_chunkIds)
      (map groupBlock (filter nonBlankGroup (chunkGroups ?ex 3))) = [3, 3, 1]"
    by code_simp
  ultimately show ?thesis by simp
qed

section \<open>Claims about prediction extraction\<close>

text \<open>
  Claim C2, as stated, sets the error of the returned result to the message of the last failure.
  It fails when that message is empty: against a model whose every call throws an error with the
  empty message, the three attempts fail and the error is \<^verbatim>\<open>Max retries exceeded\<close>, the
  default of \<^verbatim>\<open>lastError?.message || 'Max retries exceeded'\<close>.
\<close>

theorem extractPredictionsFromBlock_empty_message:
  "generateContent quietEnvironment 2 (promptFor sampleBlock) = ModelThrows (JsError []) \<and>
   errorMessage (JsError []) = [] \<and>
   error (fst (extractPredictionsFromBlock quietEnvironment sampleBlock 0 3 startWorld)) =
     Some ''Max retries exceeded''"
proof -
  have key: "isSet (geminiApiKey quietEnvironment)"
    by (simp add: quietEnvironment_def isSet_def)
  have g: "generateContent quietEnvironment k prompt = ModelThrows (JsError [])" for k prompt
    by (simp add: quietEnvironment_def)
  have fail: "\<forall>j<3. failureOf (js quietEnvironment)
      (generateContent quietEnvironment (modelCalls startWorld + j) (promptFor sampleBlock)) =
      Some ((\<lambda>j. JsError []) j)"
    by (simp add: g failureOf_def)
  have m: "errorMessage (JsError []) = []" by (simp add: errorMessage_def)
  from extractPredictionsFromBlock_all_fail [OF key fail, of 0]
  obtain w' where w': "extractPredictionsFromBlock quietEnvironment sampleBlock 0 3 startWorld =
           (\<lparr> blockIndex = 0, startTime = block_startTime sampleBlock,
              chunkIds = block_chunkIds sampleBlock, transcriptText = block_text sampleBlock,
              predictions = [],
              error = Some (if (3::nat) = 0 then ''Max retries exceeded''
                            else if errorMessage (JsError []) = [] then ''Max retries exceeded''
                            else errorMessage (JsError [])) \<rparr>, w')"
    by (elim exE conjE)
  have e: "error (fst (extractPredictionsFromBlock quietEnvironment sampleBlock 0 3 startWorld)) =
     Some ''Max retries exceeded''"
    unfolding w' m by simp
  show ?thesis by (rule conjI [OF g conjI [OF m e]])
qed

text \<open>
  Claim C2, amended. With the key set, let each of the \<open>retries\<close> attempts on a block fail,
  attempt \<open>j\<close> with the thrown value \<open>err j\<close>, whether the model call threw it or the parser
  did on the model's answer (\<open>failureOf\<close> does not tell them apart). Then
  \<^verbatim>\<open>extractPredictionsFromBlock\<close> returns, it does not throw; the result has no predictions and
  its error is the message of the last failure, or \<^verbatim>\<open>Max retries exceeded\<close> when that message
  is empty or \<open>retries\<close> is 0; the model was called exactly \<open>retries\<close> times, and each call was
  followed by a sleep of \<open>min (1000 * 2 ^ attempt) 10000\<close> milliseconds. Whatever the outcomes, in
  any environment, the model is called at most \<open>retries\<close> times.
\<close>

theorem extractPredictionsFromBlock_retries_exhausted:
  assumes "isSet (geminiApiKey env)"
    and "\<forall>j<retries. failureOf (js env) (generateContent env (modelCalls w + j) (promptFor block)) =
           Some (err j)"
  shows "(\<exists>w'. extractPredictionsFromBlock env block index retries w =
            (\<lparr> blockIndex = index, startTime = block_startTime block,
               chunkIds = block_chunkIds block, transcriptText = block_text block,
               predictions = [],
               error = Some (if retries = 0 then ''Max retries exceeded''
                             else if errorMessage (err (retries - 1)) = [] then ''Max retries exceeded''
                             else errorMessage (err (retries - 1))) \<rparr>, w') \<and>
          modelCalls w' = modelCalls w + retries \<and>
          filter attemptEvent (events w') = filter attemptEvent (events w) @
            concat (map (\<lambda>attempt. [GenerateContent (promptFor block),
                                       Sleep Backoff (min (1000 * 2 ^ attempt) 10000)]) [0..<retries])) \<and>
         modelCalls (snd (extractPredictionsFromBlock anyEnv block index retries w)) \<le>
           modelCalls w + retries"
  using extractPredictionsFromBlock_all_fail [OF assms] extractPredictionsFromBlock_calls
  by (rule conjI)

theorem extractPredictionsFromBlock_retries_exhausted_witness:
  "fst (extractPredictionsFromBlock flakyModel sampleBlock 0 3 startWorld) =
     \<lparr> blockIndex = 0, startTime = 12, chunkIds = [''chunk-1'', ''chunk-2''],
       transcriptText = ''Gold will rise next year.'', predictions = [],
       error = Some ''No JSON array found in response'' \<rparr> \<and>
   modelCalls (snd (extractPredictionsFromBlock flakyModel sampleBlock 0 3 startWorld)) = 3 \<and>
   filter attemptEvent (events (snd (extractPredictionsFromBlock flakyModel sampleBlock 0 3 startWorld))) =
     [GenerateContent (promptFor sampleBlock), Sleep Backoff 1000,
      GenerateContent (promptFor sampleBlock), Sleep Backoff 2000,
      GenerateContent (promptFor sampleBlock), Sleep Backoff 4000]"
proof -
  have st: "modelCalls startWorld = 0" "events startWorld = []" "block_startTime sampleBlock = 12"
    "block_chunkIds sampleBlock = [''chunk-1'', ''chunk-2'']"
    "block_text sampleBlock = ''Gold will rise next year.''"
    by (simp_all add: startWorld_def sampleBlock_def)
  have fail: "\<forall>j<3. failureOf (js flakyModel)
      (generateContent flakyModel (modelCalls startWorld + j) (promptFor sampleBlock)) =
      Some (flakyFailure j)"
  proof (intro allI impI)
    fix j :: nat
    assume "j < 3"
    then consider "j = 0" | "j = 1" | "j = 2" by linarith
    then show "failureOf (js flakyModel)
      (generateContent flakyModel (modelCalls startWorld + j) (promptFor sampleBlock)) =
      Some (flakyFailure j)"
      using flakyModel_fails(2,3,4) by cases (simp_all add: st(1) numeral_2_eq_2)
  qed
  have msg: "errorMessage (flakyFailure (3 - 1)) = ''No JSON array found in response''"
    using flakyModel_fails(5) by simp
  have up: "[0..<3] = [0, 1, 2]" by (simp add: numeral_3_eq_3 upt_rec)
  from extractPredictionsFromBlock_retries_exhausted [OF flakyModel_fails(1) fail, of 0 flakyModel]
  obtain w' where w': "extractPredictionsFromBlock flakyModel sampleBlock 0 3 startWorld =
           (\<lparr> blockIndex = 0, startTime = block_startTime sampleBlock,
              chunkIds = block_chunkIds sampleBlock, transcriptText = block_text sampleBlock,
              predictions = [],
              error = Some (if (3::nat) = 0 then ''Max retries exceeded''
                            else if errorMessage (flakyFailure (3 - 1)) = [] then ''Max retries exceeded''
                            else errorMessage (flakyFailure (3 - 1))) \<rparr>, w')"
         "modelCalls w' = modelCalls startWorld + 3"
         "filter attemptEvent (events w') = filter attemptEvent (events startWorld) @
           concat (map (\<lambda>attempt. [GenerateContent (promptFor sampleBlock),
                                      Sleep Backoff (min (1000 * 2 ^ attempt) 10000)]) [0..<3])"
    by (elim exE conjE)
  have a: "fst (extractPredictionsFromBlock flakyModel sampleBlock 0 3 startWorld) =
     \<lparr> blockIndex = 0, startTime = 12, chunkIds = [''chunk-1'', ''chunk-2''],
       transcriptText = ''Gold will rise next year.'', predictions = [],
       error = Some ''No JSON array found in response'' \<rparr>"
    unfolding w'(1) msg st by simp
  have b: "modelCalls (snd (extractPredictionsFromBlock flakyModel sampleBlock 0 3 startWorld)) = 3"
    unfolding w'(1) using w'(2) st(1) by simp
  have c: "filter attemptEvent (events (snd (extractPredictionsFromBlock flakyModel sampleBlock 0 3 startWorld))) =
     [GenerateContent (promptFor sampleBlock), Sleep Backoff 1000,
      GenerateContent (promptFor sampleBlock), Sleep Backoff 2000,
      GenerateContent (promptFor sampleBlock), Sleep Backoff 4000]"
    unfolding w'(1) snd_conv w'(3) st(2) up by simp
  show ?thesis by (rule conjI [OF a conjI [OF b c]])
qed

text \<open>
  Claim C3, as stated, covers every answer that contains a bracketed JSON array of records. It
  fails on a record whose claim is an object with a member named \<^verbatim>\<open>toString\<close>: the answer
  below is the JSON text of an array of one record, \<^verbatim>\<open>String(p.claim)\<close> throws a
  \<^verbatim>\<open>TypeError\<close>, and \<^verbatim>\<open>parseJsonResponse\<close> throws instead of normalizing.
\<close>

theorem parseJsonResponse_toString_member:
  "jsonMatch (utf16 ''[{\"claim\":{\"toString\":null}}]'') =
     Some (utf16 ''[{\"claim\":{\"toString\":null}}]'') \<and>
   jsonSyntax (utf16 ''[{\"claim\":{\"toString\":null}}]'') =
     Some (JArr [JObj [(utf16 ''claim'', JObj [(utf16 ''toString'', JNull)])]]) \<and>
   parseJsonResponse sampleEngine (utf16 ''[{\"claim\":{\"toString\":null}}]'') =
     Inl (JsError ''Failed to parse JSON: Cannot convert object to primitive value'')"
  by code_simp

text \<open>
  Claim C3, amended. Let the part of the answer from its first opening bracket to its last
  closing bracket be the JSON text of an array of records, in each of which the properties
  \<^verbatim>\<open>claim\<close>, \<^verbatim>\<open>asset\<close>, \<^verbatim>\<open>confidence\<close> and \<^verbatim>\<open>predictionType\<close> are falsy or
  stringifiable. Then \<^verbatim>\<open>parseJsonResponse\<close> returns the normalized records, in order, without
  those whose trimmed claim is empty: the claim coerced to a string (empty by default), the asset
  a string or null, the horizon kept only when it is a number, the confidence lower-cased and
  trimmed and replaced by \<^verbatim>\<open>medium\<close> unless it is \<^verbatim>\<open>low\<close>, \<^verbatim>\<open>medium\<close> or
  \<^verbatim>\<open>high\<close>, the prediction type likewise with default \<^verbatim>\<open>direction\<close>. The confidence
  and the prediction type of a normalized record are always among the admitted words. The answer
  \<^verbatim>\<open>[{"claim":"Market will go up"}]\<close> yields exactly one prediction, with null asset and
  horizon, confidence \<^verbatim>\<open>medium\<close> and prediction type \<^verbatim>\<open>direction\<close>.
\<close>

theorem parseJsonResponse_normalizes_records:
  assumes "jsonMatch s = Some matched"
    and "jsonSyntax matched = Some (JArr (map JObj records))"
    and "\<forall>members\<in>set records. coercibleRecord E members"
  shows "parseJsonResponse E s =
           Inr (filter (\<lambda>p. trimJs (claim p) \<noteq> []) (map (normalizedRecord E) records)) \<and>
         (\<forall>members. confidence (normalizedRecord E members) \<in>
                      {utf16 ''low'', utf16 ''medium'', utf16 ''high''} \<and>
            predictionType (normalizedRecord E members) \<in>
              {utf16 ''price'', utf16 ''direction'', utf16 ''relative performance'', utf16 ''macro''}) \<and>
         parseJsonResponse E (utf16 ''[{\"claim\":\"Market will go up\"}]'') =
           Inr [\<lparr> claim = utf16 ''Market will go up'', asset = None, horizonMonths = None,
                   confidence = utf16 ''medium'', predictionType = utf16 ''direction'' \<rparr>]"
  using parseJsonResponse_records [OF assms] normalizedRecord_confidence
    normalizedRecord_predictionType market_example
  by blast

theorem parseJsonResponse_normalizes_records_witness:
  "parseJsonResponse sampleEngine wrappedAnswer =
     Inr [\<lparr> claim = utf16 ''Nifty '' @ [0x20B9] @ utf16 ''25000 by March'',
             asset = Some (utf16 ''NIFTY50''), horizonMonths = Some (utf16 ''12''),
             confidence = utf16 ''high'', predictionType = utf16 ''direction'' \<rparr>]"
proof -
  have m: "jsonMatch wrappedAnswer = Some bracketedPart"
    by code_simp
  have p: "jsonSyntax bracketedPart = Some (JArr (map JObj wrappedRecords))"
    by code_simp
  have c: "\<forall>members\<in>set wrappedRecords. coercibleRecord sampleEngine members"
    by code_simp
  have n: "filter (\<lambda>p. trimJs (claim p) \<noteq> []) (map (normalizedRecord sampleEngine) wrappedRecords) =
     [\<lparr> claim = utf16 ''Nifty '' @ [0x20B9] @ utf16 ''25000 by March'',
        asset = Some (utf16 ''NIFTY50''), horizonMonths = Some (utf16 ''12''),
        confidence = utf16 ''high'', predictionType = utf16 ''direction'' \<rparr>]"
    by code_simp
  from parseJsonResponse_normalizes_records [OF m p c]
  have "parseJsonResponse sampleEngine wrappedAnswer =
           Inr (filter (\<lambda>p. trimJs (claim p) \<noteq> []) (map (normalizedRecord sampleEngine) wrappedRecords))"
    by (rule conjunct1)
  then show ?thesis unfolding n .
qed

text \<open>
  Claim C4. The loop of \<^verbatim>\<open>extractPredictionsForVideo\<close> over the blocks always returns,
  whatever failed in it, and writes to no video. The statistics it returns are \<open>reportedStats\<close>:
  they count the blocks, the blocks with predictions and the predictions extracted, and their
  errors list holds, block by block and in order, \<^verbatim>\<open>Block i: \<close> and the error of a block
  whose extraction failed, and \<^verbatim>\<open>Failed to store prediction: \<close> and the message of each
  insertion that failed. The update that follows the loop sets \<^verbatim>\<open>predictionsExtracted\<close> on
  the video: when that database call succeeds on an existing row the function returns those
  statistics and the flag is true; otherwise the function throws and no video has changed. So
  whenever the function completes the flag is set, were every block or every insertion to have
  failed.
\<close>

theorem extractPredictionsForVideo_reports_and_marks:
  "processBlocks env vid (statsInit (length bs)) 0 bs w =
     (reportedStats env vid bs w, blockWorld env vid bs w (length bs)) \<and>
   videos (blockWorld env vid bs w (length bs)) = videos w \<and>
   (if databaseFailure env (databaseCalls (blockWorld env vid bs w (length bs))) = None \<and>
       videos w vid \<noteq> None
    then \<exists>w'. extractPredictionsForVideo env vid bs w = (Inr (reportedStats env vid bs w), w') \<and>
              map_option predictionsExtracted (videos w' vid) = Some True
    else \<exists>e w'. extractPredictionsForVideo env vid bs w = (Inl e, w') \<and> videos w' = videos w)"
proof -
  from extractPredictionsForVideo_cases [of env vid bs w] obtain stats w1 where
    p: "processBlocks env vid (statsInit (length bs)) 0 bs w = (stats, w1)" and
    v: "videos w1 = videos w" and
    f: "if databaseFailure env (databaseCalls w1) = None \<and> videos w vid \<noteq> None
        then \<exists>w'. extractPredictionsForVideo env vid bs w = (Inr stats, w') \<and>
                  map_option predictionsExtracted (videos w' vid) = Some True
        else \<exists>e w'. extractPredictionsForVideo env vid bs w = (Inl e, w') \<and> videos w' = videos w"
    by blast
  have s: "stats = reportedStats env vid bs w" "w1 = blockWorld env vid bs w (length bs)"
    using p by (simp_all add: processBlocks_reported)
  show ?thesis
    by (rule conjI [OF processBlocks_reported conjI [OF v [unfolded s] f [unfolded s]]])
qed

theorem extractPredictionsForVideo_reports_and_marks_witness:
  "fst (extractPredictionsForVideo lostConnection ''vid1'' [sampleBlock] startWorld) =
     Inr \<lparr> totalBlocks = 1, blocksWithPredictions = 1, totalPredictions = 1,
           errors = [''Failed to store prediction: Connection lost''] \<rparr> \<and>
   map_option predictionsExtracted
     (videos (snd (extractPredictionsForVideo lostConnection ''vid1'' [sampleBlock] startWorld))
        ''vid1'') = Some True"
proof -
  have key: "isSet (geminiApiKey lostConnection)"
    by (simp add: lostConnection_def quietEnvironment_def isSet_def)
  have gen: "generateContent lostConnection (modelCalls startWorld) (promptFor sampleBlock) =
               ModelText (utf16 ''[{\"claim\":\"Gold will rise\"}]'')"
    by (simp add: lostConnection_def)
  have eng: "js lostConnection = sampleEngine"
    by (simp add: lostConnection_def quietEnvironment_def)
  have w0: "blockWorld lostConnection ''vid1'' [sampleBlock] startWorld 0 = startWorld"
    by (simp add: blockWorld_def)
  have r0: "blockResult lostConnection ''vid1'' [sampleBlock] startWorld 0 =
      \<lparr> blockIndex = 0, startTime = 12, chunkIds = [''chunk-1'', ''chunk-2''],
        transcriptText = ''Gold will rise next year.'',
        predictions = [\<lparr> claim = utf16 ''Gold will rise'', asset = None, horizonMonths = None,
                         confidence = utf16 ''medium'', predictionType = utf16 ''direction'' \<rparr>],
        error = None \<rparr>"
    unfolding blockResult_def w0
    using extractPredictionsFromBlock_first_success [OF key gen, of _ 0 2] goldAnswer
    by (simp add: eng sampleBlock_def)
  have dc: "databaseCalls startWorld = 0"
    by (simp add: startWorld_def)
  have db: "databaseFailure lostConnection k = (if k = 0 then Some (JsError ''Connection lost'') else None)"
    for k
    by (simp add: lostConnection_def)
  have stats: "reportedStats lostConnection ''vid1'' [sampleBlock] startWorld =
      \<lparr> totalBlocks = 1, blocksWithPredictions = 1, totalPredictions = 1,
        errors = [''Failed to store prediction: Connection lost''] \<rparr>"
    by (simp add: reportedStats_def r0 w0 dc hasPredictions_def isSet_def blockFailures_def
        insertFailures_def db errorMessage_def)
  have w1: "databaseCalls (blockWorld lostConnection ''vid1'' [sampleBlock] startWorld
              (length [sampleBlock])) = 1"
    using r0 [unfolded blockResult_def w0]
    by (simp add: blockWorld_def processBlock_databaseCalls dc isSet_def split_beta)
  have vd: "videos startWorld ''vid1'' \<noteq> None"
    by (simp add: startWorld_def)
  from extractPredictionsForVideo_reports_and_marks
         [of lostConnection "''vid1''" "[sampleBlock]" startWorld]
  obtain w' where
    "extractPredictionsForVideo lostConnection ''vid1'' [sampleBlock] startWorld =
       (Inr \<lparr> totalBlocks = 1, blocksWithPredictions = 1, totalPredictions = 1,
               errors = [''Failed to store prediction: Connection lost''] \<rparr>, w')"
    "map_option predictionsExtracted (videos w' ''vid1'') = Some True"
    unfolding stats w1 by (auto simp: db vd)
  then show ?thesis by simp
qed

section \<open>Claims about the transcript fetcher, the pipeline and its lock\<close>

text \<open>
  Claim C10. For every video id, environment and state \<^verbatim>\<open>fetchTranscriptForVideo\<close> returns
  a result and does not throw. When the read of the video succeeds and the video's
  \<^verbatim>\<open>transcriptFetched\<close> is already true, the result has \<^verbatim>\<open>success\<close> true, no chunk
  stored and the error \<^verbatim>\<open>Transcript already fetched\<close>, and the state differs from the initial
  one by the count of that one read only: no transcript source was called, no chunk, prediction
  or flag changed.
\<close>

theorem fetchTranscriptForVideo_never_throws:
  "(\<exists>r w'. fetchTranscriptForVideo env vid w = (Inr r, w')) \<and>
   (databaseFailure env (databaseCalls w) = None \<and> videos w vid = Some v \<and> transcriptFetched v \<longrightarrow>
      fetchTranscriptForVideo env vid w =
        (Inr \<lparr> success = True, fetchedVideoId = vid, chunksStored = 0,
               fetchError = Some ''Transcript already fetched'', transcriptEntries = None \<rparr>,
         w \<lparr> databaseCalls := databaseCalls w + 1 \<rparr>))"
  using fetchTranscriptForVideo_returns fetchTranscriptForVideo_already_fetched
  by blast

theorem fetchTranscriptForVideo_never_throws_witness:
  "fetchTranscriptForVideo quietEnvironment ''vid1'' startWorld =
     (Inr \<lparr> success = True, fetchedVideoId = ''vid1'', chunksStored = 0,
            fetchError = Some ''Transcript already fetched'', transcriptEntries = None \<rparr>,
      startWorld \<lparr> databaseCalls := 1 \<rparr>)"
  using fetchTranscriptForVideo_never_throws
          [of quietEnvironment "''vid1''" startWorld
              "\<lparr> transcriptFetched = True, predictionsExtracted = False \<rparr>"]
  by (simp add: quietEnvironment_def startWorld_def)

text \<open>
  Claim C5, as stated, has \<^verbatim>\<open>runIngestionPipeline\<close> fail, not return, when no creator exists
  for the channel after discovery. It returns: the \<^verbatim>\<open>throw\<close> is inside the outer
  \<^verbatim>\<open>try\<close>, whose handler files the message under the first stage not yet successful. For a
  channel never ingested the caller gets a result whose video stage lists both failures.
\<close>

theorem runIngestionPipeline_creator_missing_returns:
  "creatorFindUnique neverIngested ''UCxxxxxxxxxxxxxxxxxxxxxx'' () = (Inr None, ()) \<and>
   runIngestionPipeline neverIngested ''UCxxxxxxxxxxxxxxxxxxxxxx'' defaultOptions () =
     (Inr ((initialResult ''UCxxxxxxxxxxxxxxxxxxxxxx'')
        \<lparr> videoFetch := \<lparr> videoFetch_success = False, videoFetch_videosFound = 0,
                      videoFetch_videosInserted = 0, videoFetch_videosSkipped = 0,
                      videoFetch_errors = [''Channel not found: UCxxxxxxxxxxxxxxxxxxxxxx'',
                         ''Creator not found for channel: UCxxxxxxxxxxxxxxxxxxxxxx''] \<rparr>,
          completedAt := ''1970-01-01T00:00:00.000Z'' \<rparr>), ())"
  by code_simp

text \<open>
  Claim C5, amended. \<^verbatim>\<open>runIngestionPipeline\<close> always returns a result and never throws,
  whatever its collaborators do. When no creator exists for the channel after the discovery
  stage, the result returned is the one that stage left, with the message
  \<^verbatim>\<open>Creator not found for channel: \<close> and the channel id appended to the errors of the video
  stage if that stage failed, and otherwise as the only error of the transcript stage, which
  like the extraction stage is not run and not marked successful.
\<close>

theorem runIngestionPipeline_always_returns:
  "(\<exists>r w'. runIngestionPipeline c channel opts w = (Inr r, w')) \<and>
   (creatorFindUnique c channel (snd (afterDiscovery c channel opts w)) = (Inr None, w2) \<longrightarrow>
      runIngestionPipeline c channel opts w =
        (Inr ((creatorNotFound channel (fst (afterDiscovery c channel opts w)))
                \<lparr> totalDurationMs := fst (currentTime c w2) - fst (currentTime c w),
                  completedAt := fst (currentIsoString c (snd (currentTime c w2))) \<rparr>),
         snd (currentIsoString c (snd (currentTime c w2)))))"
  by (intro conjI impI runIngestionPipeline_returns runIngestionPipeline_creator_missing)

theorem runIngestionPipeline_always_returns_witness:
  "runIngestionPipeline neverIngested ''UCnever'' (defaultOptions \<lparr> skipVideoFetch := True \<rparr>) () =
     (Inr ((initialResult ''UCnever'')
        \<lparr> videoFetch := \<lparr> videoFetch_success = True, videoFetch_videosFound = 0,
                          videoFetch_videosInserted = 0, videoFetch_videosSkipped = 0,
                          videoFetch_errors = [] \<rparr>,
          transcriptFetch := \<lparr> transcriptFetch_success = False, transcriptFetch_videosProcessed = 0,
                               transcriptFetch_totalChunks = 0,
                               transcriptFetch_errors = [''Creator not found for channel: UCnever''] \<rparr>,
          completedAt := ''1970-01-01T00:00:00.000Z'' \<rparr>), ())"
proof -
  have h: "creatorFindUnique neverIngested ''UCnever''
             (snd (afterDiscovery neverIngested ''UCnever'' (defaultOptions \<lparr> skipVideoFetch := True \<rparr>) ())) =
           (Inr None, ())"
    by (simp add: neverIngested_def succeed_def)
  have e: "(Inr ((creatorNotFound ''UCnever''
                   (fst (afterDiscovery neverIngested ''UCnever'' (defaultOptions \<lparr> skipVideoFetch := True \<rparr>) ())))
                \<lparr> totalDurationMs := fst (currentTime neverIngested ()) - fst (currentTime neverIngested ()),
                  completedAt := fst (currentIsoString neverIngested (snd (currentTime neverIngested ()))) \<rparr>),
            snd (currentIsoString neverIngested (snd (currentTime neverIngested ())))) =
     (Inr ((initialResult ''UCnever'')
        \<lparr> videoFetch := \<lparr> videoFetch_success = True, videoFetch_videosFound = 0,
                          videoFetch_videosInserted = 0, videoFetch_videosSkipped = 0,
                          videoFetch_errors = [] \<rparr>,
          transcriptFetch := \<lparr> transcriptFetch_success = False, transcriptFetch_videosProcessed = 0,
                               transcriptFetch_totalChunks = 0,
                               transcriptFetch_errors = [''Creator not found for channel: UCnever''] \<rparr>,
          completedAt := ''1970-01-01T00:00:00.000Z'' \<rparr>) :: thrown + PipelineResult, ())"
    by code_simp
  from runIngestionPipeline_always_returns
         [of neverIngested "''UCnever''" "defaultOptions \<lparr> skipVideoFetch := True \<rparr>" "()" "()"] h
  have "runIngestionPipeline neverIngested ''UCnever'' (defaultOptions \<lparr> skipVideoFetch := True \<rparr>) () =
        (Inr ((creatorNotFound ''UCnever''
                   (fst (afterDiscovery neverIngested ''UCnever'' (defaultOptions \<lparr> skipVideoFetch := True \<rparr>) ())))
                \<lparr> totalDurationMs := fst (currentTime neverIngested ()) - fst (currentTime neverIngested ()),
                  completedAt := fst (currentIsoString neverIngested (snd (currentTime neverIngested ()))) \<rparr>),
            snd (currentIsoString neverIngested (snd (currentTime neverIngested ()))))"
    by blast
  then show ?thesis unfolding e .
qed

text \<open>
  Claim C6. \<^verbatim>\<open>markPipelineRunning\<close> returns true and inserts the id exactly when the id is
  not in the set, and returns false and leaves the set alone when it is. A guarded run on an id
  already in the set returns null and changes nothing. A guarded run on an id not in the set
  runs the pipeline with the id inserted, hands on what it returned or threw, and removes the id
  from the set as the pipeline left it; so afterwards the id is not in the set and
  \<^verbatim>\<open>markPipelineRunning\<close> on it returns true.
\<close>

theorem pipeline_lock_released:
  "markPipelineRunning channel running =
     (channel \<notin> running, if channel \<in> running then running else insert channel running) \<and>
   (channel \<in> runningPipelines p \<longrightarrow>
      runIngestionPipelineWithLock run channel opts p = (Inr None, p)) \<and>
   (channel \<notin> runningPipelines p \<longrightarrow>
      (\<exists>outcome p'. run channel opts (p \<lparr> runningPipelines := insert channel (runningPipelines p) \<rparr>) =
                       (outcome, p') \<and>
         runIngestionPipelineWithLock run channel opts p =
           (map_sum id Some outcome, p' \<lparr> runningPipelines := runningPipelines p' - {channel} \<rparr>)) \<and>
      channel \<notin> runningPipelines (snd (runIngestionPipelineWithLock run channel opts p)) \<and>
      fst (markPipelineRunning channel
             (runningPipelines (snd (runIngestionPipelineWithLock run channel opts p)))))"
  by (auto simp: markPipelineRunning_def runIngestionPipelineWithLock_def markPipelineComplete_def
      split: prod.splits)

theorem pipeline_lock_released_witness:
  "runIngestionPipelineWithLock failingRun ''UC1'' defaultOptions idle =
     (Inl (JsError ''socket hang up''), idle) \<and>
   markPipelineRunning ''UC1''
     (runningPipelines (snd (runIngestionPipelineWithLock failingRun ''UC1'' defaultOptions idle))) =
     (True, {''UC1''})"
proof -
  have n: "''UC1'' \<notin> runningPipelines idle" by (simp add: idle_def)
  have r: "failingRun ''UC1'' defaultOptions (idle \<lparr> runningPipelines := insert ''UC1'' (runningPipelines idle) \<rparr>) =
             (Inl (JsError ''socket hang up''), idle \<lparr> runningPipelines := {''UC1''} \<rparr>)"
    by (simp add: failingRun_def throwError_def idle_def)
  from pipeline_lock_released [of "''UC1''" "{}" idle failingRun defaultOptions] n
  have l: "\<exists>outcome p'. failingRun ''UC1'' defaultOptions
                 (idle \<lparr> runningPipelines := insert ''UC1'' (runningPipelines idle) \<rparr>) = (outcome, p') \<and>
         runIngestionPipelineWithLock failingRun ''UC1'' defaultOptions idle =
           (map_sum id Some outcome, p' \<lparr> runningPipelines := runningPipelines p' - {''UC1''} \<rparr>)"
    by blast
  then have a: "runIngestionPipelineWithLock failingRun ''UC1'' defaultOptions idle =
     (Inl (JsError ''socket hang up''), idle)"
    unfolding r by (auto simp: idle_def)
  show ?thesis unfolding a by (simp add: a markPipelineRunning_def idle_def)
qed


end
